(* ===== verification/C_Prelude.thy ===== *)
theory C_Prelude
  imports Complex_Main "HOL-Library.Word"
begin

text \<open>
  Shared vocabulary of the development: the machine integers of the C sources, bytes of a buffer,
  the functions of the C library the sources call (\<open>memcmp\<close>, \<open>strtol\<close>, \<open>atoi\<close>, \<open>strtod\<close>,
  \<open>fgets\<close>) as HOL functions, the lemmas on lists several components use, and the \<open>stepper\<close>
  interface: a step function that keeps an invariant keeps it over any sequence of events.
  The targets are 32 bit ARM builds: \<open>int\<close> and \<open>long\<close> have 32 bits and \<open>char\<close> is unsigned.
\<close>

unbundle bit_operations_syntax

section \<open>Machine integers\<close>

type_synonym u8 = "8 word"
type_synonym u16 = "16 word"
type_synonym u32 = "32 word"

text \<open>Signed integers are \<open>int\<close> values; a result that leaves the type's range is wrapped.\<close>

definition wrap16 :: "int \<Rightarrow> int" where
  "wrap16 i = signed_take_bit 15 i"

definition wrap32 :: "int \<Rightarrow> int" where
  "wrap32 i = signed_take_bit 31 i"

lemma wrap16_id: "- 32768 \<le> i \<Longrightarrow> i < 32768 \<Longrightarrow> wrap16 i = i"
  unfolding wrap16_def by (rule signed_take_bit_int_eq_self) simp_all

lemma wrap32_id: "- 2147483648 \<le> i \<Longrightarrow> i < 2147483648 \<Longrightarrow> wrap32 i = i"
  unfolding wrap32_def by (rule signed_take_bit_int_eq_self) simp_all

lemma wrap32_bounds: "- 2147483648 \<le> wrap32 i \<and> wrap32 i < 2147483648"
  using signed_take_bit_int_greater_eq_minus_exp [of 31 i] signed_take_bit_int_less_exp [of 31 i]
  by (simp add: wrap32_def)

text \<open>The conversion of a C \<open>double\<close> to \<open>int\<close> drops the fraction.\<close>

definition trunc_int :: "real \<Rightarrow> int" where
  "trunc_int x = (if 0 \<le> x then \<lfloor>x\<rfloor> else \<lceil>x\<rceil>)"

definition ENOMEM :: int where "ENOMEM = 12"

section \<open>Characters and strings\<close>

abbreviation NUL :: char where "NUL \<equiv> CHR 0x00"
abbreviation NL :: char where "NL \<equiv> CHR 0x0A"
abbreviation CR :: char where "CR \<equiv> CHR 0x0D"

definition code :: "char \<Rightarrow> nat" where
  "code c = of_char c"

definition isdigit :: "char \<Rightarrow> bool" where
  "isdigit c = (48 \<le> code c \<and> code c \<le> 57)"

definition isspace :: "char \<Rightarrow> bool" where
  "isspace c = (code c = 32 \<or> (9 \<le> code c \<and> code c \<le> 13))"

definition isalpha :: "char \<Rightarrow> bool" where
  "isalpha c = ((65 \<le> code c \<and> code c \<le> 90) \<or> (97 \<le> code c \<and> code c \<le> 122))"

definition toupper :: "char \<Rightarrow> char" where
  "toupper c = (if 97 \<le> code c \<and> code c \<le> 122 then char_of (code c - 32) else c)"

text \<open>The value of a hexadecimal digit, \<open>None\<close> for any other character.\<close>

definition hexval :: "char \<Rightarrow> int option" where
  "hexval c =
     (let n = int (code c) in
      if 48 \<le> n \<and> n \<le> 57 then Some (n - 48)
      else if 65 \<le> n \<and> n \<le> 70 then Some (n - 55)
      else if 97 \<le> n \<and> n \<le> 102 then Some (n - 87)
      else None)"

definition isxdigit :: "char \<Rightarrow> bool" where
  "isxdigit c = (hexval c \<noteq> None)"

text \<open>The C string held by a character array ends at its first NUL.\<close>

definition cstr :: "string \<Rightarrow> string" where
  "cstr s = takeWhile (\<lambda>c. c \<noteq> NUL) s"

text \<open>
  Reading one character of an array. An index past the array has no defined value in C; the model
  reads NUL there, and the properties that matter bound the index.
\<close>

definition byte_at :: "string \<Rightarrow> nat \<Rightarrow> char" where
  "byte_at buf i = (if i < length buf then buf ! i else NUL)"

definition chars :: "string \<Rightarrow> nat \<Rightarrow> nat \<Rightarrow> string" where
  "chars buf i j = map (byte_at buf) [i..<j]"

lemma length_chars [simp]: "length (chars buf i j) = j - i"
  by (simp add: chars_def)

lemma chars_empty [simp]: "j \<le> i \<Longrightarrow> chars buf i j = []"
  by (simp add: chars_def)

lemma chars_Cons: "i < j \<Longrightarrow> chars buf i j = byte_at buf i # chars buf (Suc i) j"
  by (simp add: chars_def upt_conv_Cons)

lemma chars_append: "i \<le> j \<Longrightarrow> j \<le> k \<Longrightarrow> chars buf i k = chars buf i j @ chars buf j k"
  by (metis le_Suc_ex map_append chars_def upt_add_eq_append)

lemma chars_eq_take_drop: "j \<le> length buf \<Longrightarrow> chars buf i j = take (j - i) (drop i buf)"
  by (rule nth_equalityI) (auto simp: chars_def byte_at_def)

lemma byte_at_append_left [simp]: "i < length xs \<Longrightarrow> byte_at (xs @ ys) i = xs ! i"
  by (simp add: byte_at_def nth_append)

section \<open>Numbers in text\<close>

text \<open>\<open>strtol (s, NULL, 16)\<close>: white space, a sign, an optional 0x, then hexadecimal digits;
  the result saturates at the bounds of a 32 bit \<open>long\<close>.\<close>

definition clamp_long :: "int \<Rightarrow> int" where
  "clamp_long i = max (- 2147483648) (min 2147483647 i)"

fun hex_acc :: "int \<Rightarrow> string \<Rightarrow> int" where
  "hex_acc a [] = a"
| "hex_acc a (c # cs) = (case hexval c of None \<Rightarrow> a | Some d \<Rightarrow> hex_acc (16 * a + d) cs)"

fun strip0x :: "string \<Rightarrow> string" where
  "strip0x (a # b # c # cs) =
     (if a = CHR ''0'' \<and> (b = CHR ''x'' \<or> b = CHR ''X'') \<and> isxdigit c then c # cs
      else a # b # c # cs)"
| "strip0x s = s"

fun sign_split :: "string \<Rightarrow> int \<times> string" where
  "sign_split (c # cs) =
     (if c = CHR ''-'' then (- 1, cs) else if c = CHR ''+'' then (1, cs) else (1, c # cs))"
| "sign_split [] = (1, [])"

definition strtol16 :: "string \<Rightarrow> int" where
  "strtol16 s =
     (let (sg, r) = sign_split (dropWhile isspace (cstr s))
      in clamp_long (sg * hex_acc 0 (strip0x r)))"

fun dec_acc :: "int \<Rightarrow> string \<Rightarrow> int" where
  "dec_acc a [] = a"
| "dec_acc a (c # cs) = (if isdigit c then dec_acc (10 * a + (int (code c) - 48)) cs else a)"

definition atoi :: "string \<Rightarrow> int" where
  "atoi s =
     (let (sg, r) = sign_split (dropWhile isspace (cstr s))
      in wrap32 (clamp_long (sg * dec_acc 0 r)))"

text \<open>The decimal notation of a number.\<close>

fun show_dec :: "nat \<Rightarrow> string" where
  "show_dec n =
     (if n < 10 then [char_of (48 + n)] else show_dec (n div 10) @ [char_of (48 + n mod 10)])"

declare show_dec.simps [simp del]

lemma code_digit [simp]: "(d::nat) < 10 \<Longrightarrow> code (char_of (48 + d)) = 48 + d"
  by (simp add: code_def)

lemma isdigit_digit [simp]: "(d::nat) < 10 \<Longrightarrow> isdigit (char_of (48 + d))"
  by (simp add: isdigit_def)

lemma show_dec_nonempty: "show_dec n \<noteq> []"
  by (subst show_dec.simps) simp

lemma show_dec_digits: "list_all isdigit (show_dec n)"
proof (induction n rule: show_dec.induct)
  case (1 n)
  then show ?case by (subst show_dec.simps) simp
qed

text \<open>\<open>strtod\<close> on decimal text, with optional fraction and exponent. \<open>double\<close> values are
  exact reals; hexadecimal floats, infinities and NaN are not modelled.\<close>

definition dec_value :: "string \<Rightarrow> real" where
  "dec_value ds = of_int (dec_acc 0 ds)"

definition exponent :: "string \<Rightarrow> int" where
  "exponent s =
     (case s of
        [] \<Rightarrow> 0
      | c # cs \<Rightarrow>
          (if c = CHR ''e'' \<or> c = CHR ''E''
           then (let (sg, r) = sign_split cs in sg * dec_acc 0 r) else 0))"

definition strtod :: "string \<Rightarrow> real" where
  "strtod s =
     (let (sg, r) = sign_split (dropWhile isspace (cstr s));
          ip = takeWhile isdigit r;
          r1 = dropWhile isdigit r;
          fp = (case r1 of [] \<Rightarrow> [] | c # cs \<Rightarrow> if c = CHR ''.'' then takeWhile isdigit cs else []);
          r2 = (case r1 of [] \<Rightarrow> [] | c # cs \<Rightarrow> if c = CHR ''.'' then dropWhile isdigit cs else r1)
      in if ip = [] \<and> fp = [] then 0
         else of_int sg * (dec_value ip + dec_value fp / 10 ^ length fp)
              * 10 powi exponent r2)"

section \<open>Text files\<close>

text \<open>\<open>fgets (buf, n, stream)\<close>: at most \<open>n - 1\<close> characters, up to and including the first
  newline. The stream is the text not read yet; \<open>None\<close> is the end of the file.\<close>

definition fgets :: "nat \<Rightarrow> string \<Rightarrow> (string \<times> string) option" where
  "fgets n st =
     (if st = [] then None
      else (let w = take (n - 1) st;
                line = (if NL \<in> set w then takeWhile (\<lambda>c. c \<noteq> NL) w @ [NL] else w)
            in Some (line, drop (length line) st)))"

text \<open>What the array holds after \<open>fgets\<close>: the line, a NUL, and its old contents after that.\<close>

definition overwrite :: "string \<Rightarrow> string \<Rightarrow> string" where
  "overwrite buf s = take (length buf) (s @ drop (length s) buf)"

lemma length_overwrite [simp]: "length (overwrite buf s) = length buf"
  by (simp add: overwrite_def)

lemma fgets_progress: "fgets n st = Some (l, st') \<Longrightarrow> 2 \<le> n \<Longrightarrow> length st' < length st"
proof -
  assume a: "fgets n st = Some (l, st')" and b: "2 \<le> n"
  have st: "st \<noteq> []" using a by (auto simp: fgets_def)
  have w: "take (n - 1) st \<noteq> []" using st b by simp
  have ls: "l \<noteq> [] \<and> st' = drop (length l) st"
    using a st w by (auto simp: fgets_def Let_def split: if_splits)
  then show ?thesis using st by (cases l; cases st) simp_all
qed

section \<open>Steps that keep an invariant\<close>

locale stepper =
  fixes step :: "'s \<Rightarrow> 'e \<Rightarrow> 's"
    and inv :: "'s \<Rightarrow> bool"
  assumes step_inv: "inv s \<Longrightarrow> inv (step s e)"
begin

lemma run_inv: "inv s \<Longrightarrow> inv (foldl step s es)"
  by (induction es arbitrary: s) (simp_all add: step_inv)

lemma run_inv_prefix: "inv s \<Longrightarrow> inv (foldl step s (take n es))"
  by (rule run_inv)

end

section \<open>Lists\<close>

lemma foldl_snoc_map: "foldl (\<lambda>acc x. acc @ [f x]) acc xs = acc @ map f xs"
  by (induction xs arbitrary: acc) simp_all

lemma nth_list_update_if: "i < length xs \<Longrightarrow> (xs[j := v]) ! i = (if i = j then v else xs ! i)"
  by (simp add: nth_list_update)

text \<open>Copying bytes into an array at an index.\<close>

definition put_at :: "nat \<Rightarrow> 'a list \<Rightarrow> 'a list \<Rightarrow> 'a list" where
  "put_at i bs xs = take i xs @ bs @ drop (i + length bs) xs"

lemma length_put_at [simp]: "i + length bs \<le> length xs \<Longrightarrow> length (put_at i bs xs) = length xs"
  by (simp add: put_at_def)

lemma put_at_nil [simp]: "put_at i [] xs = xs"
  by (simp add: put_at_def)

lemma put_at_put_at:
  "i + length bs + length cs \<le> length xs \<Longrightarrow>
   put_at (i + length bs) cs (put_at i bs xs) = put_at i (bs @ cs) xs"
  by (cases bs) (auto simp: put_at_def min_def ac_simps)

lemma take_put_at: "i \<le> length xs \<Longrightarrow> take (i + length bs) (put_at i bs xs) = take i xs @ bs"
  by (simp add: put_at_def)

lemma nth_put_at: "i + length bs \<le> length xs \<Longrightarrow> k < length bs \<Longrightarrow> put_at i bs xs ! (i + k) = bs ! k"
  by (simp add: put_at_def nth_append)

lemma put_at_prefix: "length bs \<le> length xs \<Longrightarrow> i < length bs \<Longrightarrow> put_at 0 bs xs ! i = bs ! i"
  using nth_put_at [of 0 bs xs i] by simp

section \<open>Loops that can fail\<close>

text \<open>Whether a string occurs in another (\<open>strstr\<close>).\<close>

fun is_infix :: "string \<Rightarrow> string \<Rightarrow> bool" where
  "is_infix p [] = (p = [])"
| "is_infix p (c # cs) = (take (length p) (c # cs) = p \<or> is_infix p cs)"

fun foldM :: "('a \<Rightarrow> 's \<Rightarrow> 's option) \<Rightarrow> 'a list \<Rightarrow> 's \<Rightarrow> 's option" where
  "foldM f [] s = Some s"
| "foldM f (x # xs) s = (case f x s of None \<Rightarrow> None | Some s' \<Rightarrow> foldM f xs s')"

lemma foldM_append: "foldM f (xs @ ys) s = (case foldM f xs s of None \<Rightarrow> None | Some s' \<Rightarrow> foldM f ys s')"
  by (induction xs arbitrary: s) (simp_all split: option.splits)

lemma foldM_inv:
  "P s \<Longrightarrow> (\<And>x s. x \<in> set xs \<Longrightarrow> P s \<Longrightarrow> \<exists>s'. f x s = Some s' \<and> P s') \<Longrightarrow> \<exists>s'. foldM f xs s = Some s' \<and> P s'"
proof (induction xs arbitrary: s)
  case (Cons x xs)
  obtain s' where "f x s = Some s'" "P s'" using Cons.prems by (meson list.set_intros(1))
  then show ?case using Cons.IH [of s'] Cons.prems by auto
qed simp

lemma foldM_none: "x \<in> set xs \<Longrightarrow> (\<And>s. f x s = None) \<Longrightarrow> foldM f xs s = None"
  by (induction xs arbitrary: s) (auto split: option.splits)

text \<open>The same contract for steps that may fail: a run that comes to its end keeps the invariant.\<close>

locale partial_stepper =
  fixes pstep :: "'e \<Rightarrow> 's \<Rightarrow> 's option"
    and inv :: "'s \<Rightarrow> bool"
  assumes pstep_inv: "inv s \<Longrightarrow> pstep e s = Some s' \<Longrightarrow> inv s'"
begin

lemma prun_inv: "inv s \<Longrightarrow> foldM pstep es s = Some s' \<Longrightarrow> inv s'"
  by (induction es arbitrary: s) (auto split: option.splits dest: pstep_inv)

end

end
