(* ===== verification/Nmea_Token.thy ===== *)
theory Nmea_Token
  imports C_Prelude
begin

text \<open>
  The NMEA tokenizer of \<open>src/libgps/athr_gps.c\<close>: a sentence in the reader's buffer is cut at its
  commas into at most 32 tokens, which are pairs of pointers into that buffer. A pointer is an
  offset into the buffer \<open>buf\<close>; the static empty string of \<open>nmea_tokenizer_get\<close> is a token with
  \<open>tok_dummy\<close> set. \<open>str2int\<close> and \<open>str2float\<close> read the characters between two pointers.

  Lemmas: the tokens lie inside the sentence and hold no comma, and their texts are the fields of
  the sentence (\<open>comma_fields\<close>, the specification), so that a sentence printed from its fields is
  tokenized back into them; what \<open>str2int\<close> accepts and returns.
\<close>

section \<open>Tokens\<close>

record Token =
  tok_dummy :: bool
  tok_p :: nat
  tok_end :: nat

definition mk_tok :: "nat \<Rightarrow> nat \<Rightarrow> Token" where
  "mk_tok p e = \<lparr>tok_dummy = False, tok_p = p, tok_end = e\<rparr>"

definition dummy_tok :: Token where
  "dummy_tok = \<lparr>tok_dummy = True, tok_p = 0, tok_end = 0\<rparr>"

lemma mk_tok_sel [simp]:
  "tok_dummy (mk_tok p e) = False" "tok_p (mk_tok p e) = p" "tok_end (mk_tok p e) = e"
  by (simp_all add: mk_tok_def)

lemma dummy_tok_sel [simp]:
  "tok_dummy dummy_tok = True" "tok_p dummy_tok = 0" "tok_end dummy_tok = 0"
  by (simp_all add: dummy_tok_def)

text \<open>The array a token points into: the sentence, or the static empty string.\<close>

definition tok_buf :: "string \<Rightarrow> Token \<Rightarrow> string" where
  "tok_buf buf t = (if tok_dummy t then [NUL] else buf)"

text \<open>\<open>tok.p[i]\<close>, and \<open>memcmp (tok.p + k, s, strlen (s)) == 0\<close>.\<close>

definition tok_char :: "string \<Rightarrow> Token \<Rightarrow> nat \<Rightarrow> char" where
  "tok_char buf t i = byte_at (tok_buf buf t) (tok_p t + i)"

definition tok_is :: "string \<Rightarrow> Token \<Rightarrow> nat \<Rightarrow> string \<Rightarrow> bool" where
  "tok_is buf t k s = (chars (tok_buf buf t) (tok_p t + k) (tok_p t + k + length s) = s)"

definition tok_text :: "string \<Rightarrow> Token \<Rightarrow> string" where
  "tok_text buf t = chars (tok_buf buf t) (tok_p t) (tok_end t)"

section \<open>The tokenizer\<close>

definition MAX_NMEA_TOKENS :: nat where
  "MAX_NMEA_TOKENS = 32"

text \<open>\<open>memchr (p, ',', end - p)\<close>, or \<open>end\<close> when there is no comma.\<close>

fun find_comma :: "string \<Rightarrow> nat \<Rightarrow> nat \<Rightarrow> nat" where
  "find_comma buf p 0 = p"
| "find_comma buf p (Suc n) = (if byte_at buf p = CHR '','' then p else find_comma buf (Suc p) n)"

lemma find_comma_bounds: "p \<le> find_comma buf p n \<and> find_comma buf p n \<le> p + n"
  by (induction buf p n rule: find_comma.induct) auto

lemma tokenize_next:
  "p < e \<Longrightarrow> q = find_comma buf p (e - p) \<Longrightarrow>
   e - (if find_comma buf p (e - p) < e then q + 1 else q) < e - p"
  using find_comma_bounds [of p buf "e - p"] by auto

function tokenize_loop :: "string \<Rightarrow> nat \<Rightarrow> nat \<Rightarrow> Token list \<Rightarrow> Token list" where
  "tokenize_loop buf p e toks =
     (if p < e then
        (let q = find_comma buf p (e - p);
             toks' = (if length toks < MAX_NMEA_TOKENS then toks @ [mk_tok p q] else toks);
             q' = (if q < e then q + 1 else q)
         in tokenize_loop buf q' e toks')
      else toks)"
  by pat_completeness auto
termination
  by (relation "measure (\<lambda>(buf, p, e, toks). e - p)")
     (simp_all add: tokenize_next split del: if_split)

declare tokenize_loop.simps [simp del]

lemma tokenize_loop_done: "\<not> p < e \<Longrightarrow> tokenize_loop buf p e toks = toks"
  by (simp add: tokenize_loop.simps)

lemma tokenize_loop_step:
  "p < e \<Longrightarrow> q = find_comma buf p (e - p) \<Longrightarrow>
   toks' = (if length toks < MAX_NMEA_TOKENS then toks @ [mk_tok p q] else toks) \<Longrightarrow>
   tokenize_loop buf p e toks = tokenize_loop buf (if q < e then q + 1 else q) e toks'"
  by (hypsubst, subst tokenize_loop.simps, simp add: Let_def split del: if_split)

text \<open>The bounds of the sentence proper: without the '$', the line end and the checksum.\<close>

definition skip_dollar :: "string \<Rightarrow> nat \<Rightarrow> nat \<Rightarrow> nat" where
  "skip_dollar buf p e = (if p < e \<and> byte_at buf p = CHR ''$'' then p + 1 else p)"

definition strip_newline :: "string \<Rightarrow> nat \<Rightarrow> nat \<Rightarrow> nat" where
  "strip_newline buf p e =
     (if p < e \<and> byte_at buf (e - 1) = NL
      then (if p < e - 1 \<and> byte_at buf (e - 2) = CR then e - 2 else e - 1)
      else e)"

definition strip_checksum :: "string \<Rightarrow> nat \<Rightarrow> nat \<Rightarrow> nat" where
  "strip_checksum buf p e = (if p + 3 \<le> e \<and> byte_at buf (e - 3) = CHR ''*'' then e - 3 else e)"

definition nmea_tokenizer_init :: "string \<Rightarrow> nat \<Rightarrow> nat \<Rightarrow> Token list" where
  "nmea_tokenizer_init buf p e =
     (let p1 = skip_dollar buf p e;
          e1 = strip_newline buf p1 e;
          e2 = strip_checksum buf p1 e1
      in tokenize_loop buf p1 e2 [])"

definition nmea_tokenizer_get :: "Token list \<Rightarrow> int \<Rightarrow> Token" where
  "nmea_tokenizer_get t i = (if i < 0 \<or> int (length t) \<le> i then dummy_tok else t ! nat i)"

section \<open>Numbers in tokens\<close>

text \<open>
  \<open>(unsigned) c >= 10\<close> rejects anything but a decimal digit. A value above \<open>INT_MAX\<close> is signed
  overflow in C; the model wraps it, and \<open>str2int_value\<close> bounds the fields where it cannot occur.
\<close>

fun str2int_loop :: "int \<Rightarrow> string \<Rightarrow> int" where
  "str2int_loop r [] = r"
| "str2int_loop r (c # cs) =
     (if isdigit c then str2int_loop (wrap32 (r * 10 + (int (code c) - 48))) cs else - 1)"

definition str2int :: "string \<Rightarrow> nat \<Rightarrow> nat \<Rightarrow> int" where
  "str2int buf p e = (if e = p then - 1 else str2int_loop 0 (chars buf p e))"

text \<open>\<open>str2float\<close> copies one character more than the token has: the comma that ends it.\<close>

definition str2float :: "string \<Rightarrow> nat \<Rightarrow> nat \<Rightarrow> real" where
  "str2float buf p e =
     (if e + 1 = p then - 1
      else if 32 \<le> e + 1 - p then 0
      else strtod (cstr (chars buf p (e + 1))))"

definition tok_int :: "string \<Rightarrow> Token \<Rightarrow> int" where
  "tok_int buf t = str2int (tok_buf buf t) (tok_p t) (tok_end t)"

definition tok_float :: "string \<Rightarrow> Token \<Rightarrow> real" where
  "tok_float buf t = str2float (tok_buf buf t) (tok_p t) (tok_end t)"

section \<open>Tokens are the fields of the sentence\<close>

text \<open>The specification: the fields between commas; a comma at the very end opens no field.\<close>

abbreviation not_comma :: "char \<Rightarrow> bool" where
  "not_comma c \<equiv> c \<noteq> CHR '','' "

function comma_fields :: "string \<Rightarrow> string list" where
  "comma_fields [] = []"
| "comma_fields (c # cs) =
     takeWhile not_comma (c # cs) # comma_fields (drop 1 (dropWhile not_comma (c # cs)))"
  by pat_completeness auto
termination
  by (relation "measure length")
     (auto intro!: le_imp_less_Suc le_trans [OF diff_le_self] length_dropWhile_le)

fun comma_join :: "string list \<Rightarrow> string" where
  "comma_join [] = []"
| "comma_join [x] = x"
| "comma_join (x # y # ys) = x @ CHR '','' # comma_join (y # ys)"

lemma find_comma_split:
  "takeWhile not_comma (chars buf p (p + n)) = chars buf p (find_comma buf p n) \<and>
   dropWhile not_comma (chars buf p (p + n)) = chars buf (find_comma buf p n) (p + n)"
proof (induction buf p n rule: find_comma.induct)
  case (1 buf p)
  then show ?case by simp
next
  case (2 buf p n)
  have c: "chars buf p (p + Suc n) = byte_at buf p # chars buf (Suc p) (Suc p + n)"
    by (subst chars_Cons) simp_all
  show ?case
  proof (cases "byte_at buf p = CHR '','' ")
    case True
    then show ?thesis using c by (simp del: add_Suc_right)
  next
    case False
    have "chars buf p (find_comma buf (Suc p) n) =
        byte_at buf p # chars buf (Suc p) (find_comma buf (Suc p) n)"
      using find_comma_bounds [of "Suc p" buf n] by (intro chars_Cons) simp
    moreover have "p + Suc n = Suc p + n" by simp
    ultimately show ?thesis using False "2.IH" c by (simp only:) simp
  qed
qed

lemma comma_fields_step:
  assumes "p < e" and "q = find_comma buf p (e - p)"
  shows "comma_fields (chars buf p e) =
    chars buf p q # comma_fields (chars buf (if q < e then q + 1 else q) e)"
proof -
  have s: "takeWhile not_comma (chars buf p e) = chars buf p q"
    "dropWhile not_comma (chars buf p e) = chars buf q e"
    using find_comma_split [of buf p "e - p"] assms by simp_all
  have q: "q \<le> e" using find_comma_bounds [of p buf "e - p"] assms by simp
  obtain c cs where c: "chars buf p e = c # cs"
    using assms(1) by (simp add: chars_Cons)
  have "drop 1 (chars buf q e) = chars buf (if q < e then q + 1 else q) e"
    using q by (auto simp: chars_Cons)
  then show ?thesis using s c by simp
qed

lemma tokenize_loop_texts:
  "length toks \<le> MAX_NMEA_TOKENS \<Longrightarrow>
   map (tok_text buf) (tokenize_loop buf p e toks) =
   map (tok_text buf) toks @ take (MAX_NMEA_TOKENS - length toks) (comma_fields (chars buf p e))"
proof (induction buf p e toks rule: tokenize_loop.induct)
  case (1 buf p e toks)
  show ?case
  proof (cases "p < e")
    case False
    then show ?thesis by (simp add: tokenize_loop.simps)
  next
    case True
    define q where "q = find_comma buf p (e - p)"
    define toks' where "toks' = (if length toks < MAX_NMEA_TOKENS then toks @ [mk_tok p q] else toks)"
    have l: "length toks' \<le> MAX_NMEA_TOKENS" using "1.prems" by (simp add: toks'_def)
    have t: "tok_text buf (mk_tok p q) = chars buf p q"
      by (simp add: tok_text_def tok_buf_def)
    have "map (tok_text buf) (tokenize_loop buf p e toks) = map (tok_text buf) toks' @
        take (MAX_NMEA_TOKENS - length toks') (comma_fields (chars buf (if q < e then q + 1 else q) e))"
      unfolding tokenize_loop_step [OF True q_def toks'_def]
      by (rule "1.IH" [OF True q_def toks'_def refl l])
    also have "\<dots> = map (tok_text buf) toks @
        take (MAX_NMEA_TOKENS - length toks) (comma_fields (chars buf p e))"
      using "1.prems" unfolding comma_fields_step [OF True q_def]
      by (cases "length toks < MAX_NMEA_TOKENS") (simp_all add: toks'_def t take_Cons')
    finally show ?thesis .
  qed
qed

lemma tokenize_loop_inside:
  "t \<in> set (tokenize_loop buf p e toks) \<Longrightarrow>
   t \<in> set toks \<or> (\<not> tok_dummy t \<and> p \<le> tok_p t \<and> tok_p t < e \<and> tok_p t \<le> tok_end t \<and> tok_end t \<le> e)"
proof (induction buf p e toks rule: tokenize_loop.induct)
  case (1 buf p e toks)
  show ?case
  proof (cases "p < e")
    case False
    then show ?thesis using "1.prems" by (simp add: tokenize_loop.simps)
  next
    case True
    define q where "q = find_comma buf p (e - p)"
    have q: "p \<le> q" "q \<le> e"
      using find_comma_bounds [of p buf "e - p"] True by (simp_all add: q_def)
    note IH = "1.IH" [OF True q_def refl refl]
    show ?thesis
      using IH "1.prems" True q unfolding tokenize_loop_step [OF True q_def refl]
      by (auto split: if_splits)
  qed
qed

lemma tokenize_loop_length:
  "length toks \<le> MAX_NMEA_TOKENS \<Longrightarrow> length (tokenize_loop buf p e toks) \<le> MAX_NMEA_TOKENS"
  using tokenize_loop_texts [of toks buf p e] length_map [of "tok_text buf" "tokenize_loop buf p e toks"]
  by simp

section \<open>Whole sentences\<close>

definition nmea_sentence :: "string list \<Rightarrow> string \<Rightarrow> string \<Rightarrow> string" where
  "nmea_sentence fs csum eol = CHR ''$'' # comma_join fs @ CHR ''*'' # csum @ eol"

text \<open>What is kept of the fields: an empty one at the end opens no token, and 32 tokens have room.\<close>

definition kept_fields :: "string list \<Rightarrow> string list" where
  "kept_fields fs = take MAX_NMEA_TOKENS (if fs \<noteq> [] \<and> last fs = [] then butlast fs else fs)"

lemma comma_fields_single: "xs \<noteq> [] \<Longrightarrow> list_all not_comma xs \<Longrightarrow> comma_fields xs = [xs]"
  by (cases xs) (simp_all add: list_all_iff takeWhile_eq_all_conv dropWhile_eq_Nil_conv [THEN iffD2])

lemma comma_fields_join_Cons:
  "list_all not_comma x \<Longrightarrow> comma_fields (x @ CHR '','' # ys) = x # comma_fields ys"
  by (cases x) (auto simp: list_all_iff takeWhile_append2 dropWhile_append2)

lemma comma_fields_join:
  "list_all (list_all not_comma) fs \<Longrightarrow>
   comma_fields (comma_join fs) = (if fs \<noteq> [] \<and> last fs = [] then butlast fs else fs)"
  by (induction fs rule: comma_join.induct)
     (auto simp: comma_fields_single comma_fields_join_Cons)

lemma chars_nth: "i < length xs \<Longrightarrow> byte_at (xs @ ys) i = xs ! i"
  by simp

lemma sentence_bounds:
  fixes fs :: "string list" and csum eol rest :: string
  assumes "length csum = 2" and "csum ! 1 \<noteq> CR" and "eol = [NL] \<or> eol = [CR, NL]"
  defines "s \<equiv> nmea_sentence fs csum eol" and "n \<equiv> length (comma_join fs)"
  shows "skip_dollar (s @ rest) 0 (length s) = 1"
    and "strip_newline (s @ rest) 1 (length s) = n + 4"
    and "strip_checksum (s @ rest) 1 (n + 4) = n + 1"
    and "chars (s @ rest) 1 (n + 1) = comma_join fs"
proof -
  have len: "length s = n + 4 + length eol" using assms by (simp add: s_def n_def nmea_sentence_def)
  have at: "s ! 0 = CHR ''$''" "s ! (n + 1) = CHR ''*''" "s ! (n + 3) = csum ! 1"
    using assms(1) by (auto simp: s_def n_def nmea_sentence_def nth_append nth_Cons')
  have end_at: "s ! (n + 3 + length eol) = NL" "length eol = 2 \<Longrightarrow> s ! (n + 4) = CR" "length eol = 1 \<or> length eol = 2"
    using assms(1,3) by (auto simp: s_def n_def nmea_sentence_def nth_append nth_Cons')
  show "skip_dollar (s @ rest) 0 (length s) = 1"
    using at(1) len by (simp add: skip_dollar_def)
  show "strip_newline (s @ rest) 1 (length s) = n + 4"
    using end_at at(3) assms(2) len by (auto simp: strip_newline_def nth_append byte_at_def add.commute eval_nat_numeral)
  show "strip_checksum (s @ rest) 1 (n + 4) = n + 1"
    using at(2) len by (simp add: strip_checksum_def add.commute)
  show "chars (s @ rest) 1 (n + 1) = comma_join fs"
    using len by (subst chars_eq_take_drop) (simp_all add: s_def nmea_sentence_def n_def)
qed

text \<open>C1: A sentence printed from its fields (dollar sign, any number of fields joined by commas, any of them empty, two
  hexadecimal digits of checksum, the line end with or without carriage return) in front of any old contents of the
  buffer is tokenized into these fields: all but an empty one at the very end, and the first 32.\<close>

theorem tokenizer_roundtrip:
  assumes "list_all (list_all not_comma) fs" and "length csum = 2" and "list_all isxdigit csum"
    and "eol = [NL] \<or> eol = [CR, NL]"
  shows "map (tok_text (nmea_sentence fs csum eol @ rest))
      (nmea_tokenizer_init (nmea_sentence fs csum eol @ rest) 0 (length (nmea_sentence fs csum eol))) = kept_fields fs"
proof -
  have "\<not> isxdigit CR" by (simp add: isxdigit_def hexval_def code_def)
  then have "csum ! 1 \<noteq> CR" using assms(2,3) by (metis list_all_length one_less_numeral_iff semiring_norm(76))
  note b = sentence_bounds [OF assms(2) this assms(4), of fs rest]
  show ?thesis
    using b by (simp add: nmea_tokenizer_init_def tokenize_loop_texts comma_fields_join [OF assms(1)] kept_fields_def)
qed

theorem tokenizer_roundtrip_witness:
  "map (tok_text (nmea_sentence [''GPGGA'', [], ''M'', []] ''47'' [CR, NL] @ ''xx''))
      (nmea_tokenizer_init (nmea_sentence [''GPGGA'', [], ''M'', []] ''47'' [CR, NL] @ ''xx'') 0
         (length (nmea_sentence [''GPGGA'', [], ''M'', []] ''47'' [CR, NL]))) = [''GPGGA'', [], ''M'']"
  using tokenizer_roundtrip [of "[''GPGGA'', [], ''M'', []]" "''47''" "[CR, NL]" "''xx''"]
  by (simp add: kept_fields_def MAX_NMEA_TOKENS_def isxdigit_def hexval_def code_def)

text \<open>C12: whatever the buffer holds, every token lies inside the sentence, starts before its end
  (so reading its first character is reading the sentence), and at most 32 are stored.\<close>

theorem tokenizer_in_bounds:
  "length (nmea_tokenizer_init buf p e) \<le> 32 \<and>
   list_all (\<lambda>t. \<not> tok_dummy t \<and> p \<le> tok_p t \<and> tok_p t < e \<and> tok_p t \<le> tok_end t \<and> tok_end t \<le> e)
     (nmea_tokenizer_init buf p e)"
proof -
  have b: "p \<le> skip_dollar buf p e"
    "strip_checksum buf (skip_dollar buf p e) (strip_newline buf (skip_dollar buf p e) e) \<le> e"
    by (auto simp: skip_dollar_def strip_checksum_def strip_newline_def)
  show ?thesis
    using tokenize_loop_length [of "[]" buf] tokenize_loop_inside [of _ buf _ _ "[]"] b
    unfolding nmea_tokenizer_init_def Let_def list_all_iff
    by (fastforce simp: MAX_NMEA_TOKENS_def)
qed

section \<open>Decimal fields\<close>

lemma str2int_loop_append:
  "list_all isdigit xs \<Longrightarrow> str2int_loop r (xs @ ys) = str2int_loop (str2int_loop r xs) ys"
  by (induction xs arbitrary: r) simp_all

lemma str2int_loop_show_dec: "n < 2147483648 \<Longrightarrow> str2int_loop 0 (show_dec n) = int n"
proof (induction n rule: show_dec.induct)
  case (1 n)
  show ?case
  proof (cases "n < 10")
    case True
    then show ?thesis by (subst show_dec.simps) (simp add: wrap32_id)
  next
    case False
    then have IH: "str2int_loop 0 (show_dec (n div 10)) = int (n div 10)"
      using 1 by simp
    have "int (n div 10) * 10 + int (n mod 10) = int n"
      by (metis div_mult_mod_eq of_nat_add of_nat_mult of_nat_numeral)
    with False IH "1.prems" show ?thesis
      by (subst show_dec.simps) (simp add: str2int_loop_append show_dec_digits wrap32_id)
  qed
qed

lemma str2int_loop_bad: "\<not> list_all isdigit xs \<Longrightarrow> str2int_loop r xs = - 1"
  by (induction xs arbitrary: r) auto

lemma str2int_loop_range:
  "- 2147483648 \<le> r \<Longrightarrow> r < 2147483648 \<Longrightarrow>
   - 2147483648 \<le> str2int_loop r xs \<and> str2int_loop r xs < 2147483648"
  by (induction xs arbitrary: r) (auto simp: wrap32_bounds)

text \<open>A field that holds the decimal notation of a number below 2^31 is read as that number,
  and a field with any character that is not a digit, or with none, is read as -1.\<close>

theorem str2int_reads_decimal:
  "(p < e \<and> n < 2147483648 \<and> chars buf p e = show_dec n \<longrightarrow> str2int buf p e = int n) \<and>
   (p \<le> e \<and> (p = e \<or> \<not> list_all isdigit (chars buf p e)) \<longrightarrow> str2int buf p e = - 1)"
  by (auto simp: str2int_def str2int_loop_show_dec str2int_loop_bad)

theorem str2int_reads_decimal_witness:
  "str2int ''x2013,'' 1 5 = 2013 \<and> str2int ''2013,00,'' 0 8 = - 1"
proof -
  have d: "chars ''x2013,'' 1 5 = show_dec 2013" by code_simp
  have b: "\<not> list_all isdigit (chars ''2013,00,'' 0 8)" by code_simp
  show ?thesis
    using str2int_reads_decimal [of 1 5 2013 "''x2013,''"] str2int_reads_decimal [of 0 8 0 "''2013,00,''"] d b
    by simp
qed

end
