(* ===== verification/Nmea_Reader.thy ===== *)
theory Nmea_Reader
  imports Nmea_Token
begin

text \<open>
  The NMEA parser of \<open>src/libgps/athr_gps.c\<close>: the reader's record, the functions that store one
  quantity of a sentence (\<open>nmea_reader_update_*\<close>) and the handler of each sentence kind, as the
  branches of \<open>nmea_reader_parse\<close> have them. An update returns its C result (0 or -1) and the
  reader. A handler returns \<open>None\<close> where the code would write past \<open>sv_list\<close>.

  What comes from outside is the record \<open>Env\<close>: the broken down current time, \<open>mktime\<close> of the C
  library (it depends on the time zone), the rounding of a \<open>double\<close> stored in a \<open>float\<close> field, and
  the wall clock. \<open>double\<close> arithmetic is exact. The flags of a fix are a set of named flags.
\<close>

section \<open>Data\<close>

datatype loc_flag = HAS_LAT_LONG | HAS_ALTITUDE | HAS_SPEED | HAS_BEARING | HAS_ACCURACY

record GpsLocation =
  l_flags :: "loc_flag set"
  l_latitude :: real
  l_longitude :: real
  l_altitude :: real
  l_speed :: real
  l_bearing :: real
  l_accuracy :: real
  l_timestamp :: int

record GpsSvInfo =
  sv_prn :: int
  sv_snr :: real
  sv_elevation :: real
  sv_azimuth :: real

text \<open>\<open>GPS_MAX_SVS\<close>, the size of \<open>sv_list\<close>, is the length of the list.\<close>

record GpsSvStatus =
  num_svs :: int
  sv_list :: "GpsSvInfo list"
  used_in_fix_mask :: u32

record AthTimemap =
  tm_valid :: bool
  tm_systime :: real
  tm_timestamp :: int

record NmeaReader =
  r_pos :: nat
  r_overflow :: bool
  r_utc_year :: int
  r_utc_mon :: int
  r_utc_day :: int
  r_utc_diff :: int
  r_fix :: GpsLocation
  r_sv_status :: GpsSvStatus
  r_sv_status_changed :: bool
  r_in :: string
  r_gsa_fixed :: bool
  r_timemap :: AthTimemap

record tm =
  tm_sec :: int
  tm_min :: int
  tm_hour :: int
  tm_mday :: int
  tm_mon :: int
  tm_year :: int
  tm_yday :: int

record Env =
  env_gmtime :: tm
  env_localtime :: tm
  env_mktime :: "tm \<Rightarrow> int"
  env_float :: "real \<Rightarrow> real"
  env_now_ms :: int

definition NMEA_MAX_SIZE :: nat where
  "NMEA_MAX_SIZE = 83"

section \<open>Time\<close>

definition tm_seconds :: "tm \<Rightarrow> int" where
  "tm_seconds t =
     tm_sec t + 60 * (tm_min t + 60 * (tm_hour t + 24 * (tm_yday t + 365 * tm_year t)))"

definition nmea_reader_update_utc_diff :: "Env \<Rightarrow> NmeaReader \<Rightarrow> NmeaReader" where
  "nmea_reader_update_utc_diff E r =
     (let time_local = wrap32 (tm_seconds (env_localtime E));
          time_utc = wrap32 (tm_seconds (env_gmtime E))
      in r\<lparr>r_utc_diff := wrap32 (time_utc - time_local)\<rparr>)"

definition zero_fix :: GpsLocation where
  "zero_fix = \<lparr>l_flags = {}, l_latitude = 0, l_longitude = 0, l_altitude = 0, l_speed = 0,
     l_bearing = 0, l_accuracy = 0, l_timestamp = 0\<rparr>"

definition zero_sv :: GpsSvInfo where
  "zero_sv = \<lparr>sv_prn = 0, sv_snr = 0, sv_elevation = 0, sv_azimuth = 0\<rparr>"

text \<open>\<open>memset (r, 0, sizeof (*r))\<close>; the sizes of the two arrays stay.\<close>

definition nmea_reader_init :: "Env \<Rightarrow> NmeaReader \<Rightarrow> NmeaReader" where
  "nmea_reader_init E r =
     nmea_reader_update_utc_diff E
       \<lparr>r_pos = 0, r_overflow = False, r_utc_year = - 1, r_utc_mon = - 1, r_utc_day = - 1,
        r_utc_diff = 0, r_fix = zero_fix,
        r_sv_status = \<lparr>num_svs = 0,
          sv_list = map (\<lambda>_. zero_sv) (sv_list (r_sv_status r)), used_in_fix_mask = 0\<rparr>,
        r_sv_status_changed = False,
        r_in = replicate (NMEA_MAX_SIZE + 1) NUL,
        r_gsa_fixed = False,
        r_timemap = \<lparr>tm_valid = False, tm_systime = 0, tm_timestamp = 0\<rparr>\<rparr>"

text \<open>
  The first component is the timestamp, \<open>None\<close> for the result -1. \<open>mktime\<close> ignores \<open>tm_yday\<close>,
  which the code leaves unset.
\<close>

definition nmea_reader_get_timestamp ::
    "Env \<Rightarrow> NmeaReader \<Rightarrow> Token \<Rightarrow> int option \<times> NmeaReader" where
  "nmea_reader_get_timestamp E r tok =
     (if tok_end tok < tok_p tok + 6 then (None, r)
      else if r_utc_year r < 0 then (None, r)
      else
        (let buf = tok_buf (r_in r) tok;
             hour = str2int buf (tok_p tok) (tok_p tok + 2);
             minute = str2int buf (tok_p tok + 2) (tok_p tok + 4);
             seconds = str2float buf (tok_p tok + 4) (tok_end tok);
             t = \<lparr>tm_sec = trunc_int seconds, tm_min = minute, tm_hour = hour,
                  tm_mday = r_utc_day r, tm_mon = r_utc_mon r - 1,
                  tm_year = r_utc_year r - 1900, tm_yday = 0\<rparr>;
             r' = nmea_reader_update_utc_diff E r
         in (Some (wrap32 (env_mktime E t - r_utc_diff r')), r')))"

definition nmea_reader_update_time :: "Env \<Rightarrow> NmeaReader \<Rightarrow> Token \<Rightarrow> int \<times> NmeaReader" where
  "nmea_reader_update_time E r tok =
     (case nmea_reader_get_timestamp E r tok of
        (None, r') \<Rightarrow> (- 1, r')
      | (Some ts, r') \<Rightarrow> (0, r'\<lparr>r_fix := (r_fix r')\<lparr>l_timestamp := ts * 1000\<rparr>\<rparr>))"

text \<open>The year is read up to four characters past the end of its token, as the code has it.\<close>

definition nmea_reader_update_cdate ::
    "NmeaReader \<Rightarrow> Token \<Rightarrow> Token \<Rightarrow> Token \<Rightarrow> int \<times> NmeaReader" where
  "nmea_reader_update_cdate r tok_d tok_m tok_y =
     (if tok_end tok_d < tok_p tok_d + 2 \<or> tok_end tok_m < tok_p tok_m + 2 \<or>
         tok_end tok_y < tok_p tok_y + 4
      then (- 1, r)
      else (0, r\<lparr>r_utc_day := str2int (tok_buf (r_in r) tok_d) (tok_p tok_d) (tok_p tok_d + 2),
                 r_utc_mon := str2int (tok_buf (r_in r) tok_m) (tok_p tok_m) (tok_p tok_m + 2),
                 r_utc_year := str2int (tok_buf (r_in r) tok_y) (tok_p tok_y) (tok_end tok_y + 4)\<rparr>))"

definition nmea_reader_update_date ::
    "Env \<Rightarrow> NmeaReader \<Rightarrow> Token \<Rightarrow> Token \<Rightarrow> int \<times> NmeaReader" where
  "nmea_reader_update_date E r date mtime =
     (let buf = tok_buf (r_in r) date;
          day = str2int buf (tok_p date) (tok_p date + 2);
          mon = str2int buf (tok_p date + 2) (tok_p date + 4);
          year = str2int buf (tok_p date + 4) (tok_p date + 6) + 2000
      in if (day OR mon OR year) < 0 then (- 1, r)
         else nmea_reader_update_time E
                (r\<lparr>r_utc_year := year, r_utc_mon := mon, r_utc_day := day\<rparr>) mtime)"

section \<open>Position and motion\<close>

text \<open>Degrees and minutes as \<open>dddmm.mmmm\<close> to degrees.\<close>

definition convert_from_hhmm :: "string \<Rightarrow> Token \<Rightarrow> real" where
  "convert_from_hhmm buf tok =
     (let val = tok_float buf tok;
          degrees = trunc_int (of_int \<lfloor>val\<rfloor> / 100);
          minutes = val - of_int degrees * 100
      in of_int degrees + minutes / 60)"

definition nmea_reader_update_latlong ::
    "NmeaReader \<Rightarrow> Token \<Rightarrow> char \<Rightarrow> Token \<Rightarrow> char \<Rightarrow> int \<times> NmeaReader" where
  "nmea_reader_update_latlong r latitude latitudeHemi longitude longitudeHemi =
     (if tok_end latitude < tok_p latitude + 6 then (- 1, r)
      else
        (let lat0 = convert_from_hhmm (r_in r) latitude;
             lat = (if latitudeHemi = CHR ''S'' then - lat0 else lat0)
         in if tok_end longitude < tok_p longitude + 6 then (- 1, r)
            else
              (let lon0 = convert_from_hhmm (r_in r) longitude;
                   lon = (if longitudeHemi = CHR ''W'' then - lon0 else lon0);
                   f = r_fix r
               in (0, r\<lparr>r_fix := f\<lparr>l_flags := insert HAS_LAT_LONG (l_flags f),
                        l_latitude := lat, l_longitude := lon\<rparr>\<rparr>))))"

definition nmea_reader_update_altitude :: "NmeaReader \<Rightarrow> Token \<Rightarrow> Token \<Rightarrow> int \<times> NmeaReader" where
  "nmea_reader_update_altitude r altitude units =
     (if tok_end altitude \<le> tok_p altitude then (- 1, r)
      else (0, r\<lparr>r_fix := (r_fix r)\<lparr>l_flags := insert HAS_ALTITUDE (l_flags (r_fix r)),
                 l_altitude := tok_float (r_in r) altitude\<rparr>\<rparr>))"

definition nmea_reader_update_accuracy :: "Env \<Rightarrow> NmeaReader \<Rightarrow> Token \<Rightarrow> int \<times> NmeaReader" where
  "nmea_reader_update_accuracy E r accuracy =
     (if tok_end accuracy \<le> tok_p accuracy then (- 1, r)
      else
        (let a = env_float E (tok_float (r_in r) accuracy);
             r' = r\<lparr>r_fix := (r_fix r)\<lparr>l_accuracy := a\<rparr>\<rparr>
         in if a = 99.99 then (0, r')
            else (0, r'\<lparr>r_fix := (r_fix r')\<lparr>l_flags := insert HAS_ACCURACY (l_flags (r_fix r'))\<rparr>\<rparr>)))"

definition nmea_reader_update_bearing :: "Env \<Rightarrow> NmeaReader \<Rightarrow> Token \<Rightarrow> int \<times> NmeaReader" where
  "nmea_reader_update_bearing E r bearing =
     (if tok_end bearing \<le> tok_p bearing then (- 1, r)
      else (0, r\<lparr>r_fix := (r_fix r)\<lparr>l_flags := insert HAS_BEARING (l_flags (r_fix r)),
                 l_bearing := env_float E (tok_float (r_in r) bearing)\<rparr>\<rparr>))"

definition nmea_reader_update_speed :: "Env \<Rightarrow> NmeaReader \<Rightarrow> Token \<Rightarrow> int \<times> NmeaReader" where
  "nmea_reader_update_speed E r speed =
     (if tok_end speed \<le> tok_p speed then (- 1, r)
      else (0, r\<lparr>r_fix := (r_fix r)\<lparr>l_flags := insert HAS_SPEED (l_flags (r_fix r)),
                 l_speed := env_float E (env_float E (tok_float (r_in r) speed) * 0.514444)\<rparr>\<rparr>))"

definition nmea_reader_update_timemap ::
    "Env \<Rightarrow> NmeaReader \<Rightarrow> Token \<Rightarrow> Token \<Rightarrow> int \<times> NmeaReader" where
  "nmea_reader_update_timemap E r systime_tok timestamp_tok =
     (if tok_end systime_tok \<le> tok_p systime_tok \<or> tok_end timestamp_tok \<le> tok_p timestamp_tok
      then (- 1, r\<lparr>r_timemap := (r_timemap r)\<lparr>tm_valid := False\<rparr>\<rparr>)
      else
        (case nmea_reader_get_timestamp E r timestamp_tok of
           (None, r') \<Rightarrow> (- 1, r'\<lparr>r_timemap := (r_timemap r')\<lparr>tm_valid := False\<rparr>\<rparr>)
         | (Some ts, r') \<Rightarrow>
             (0, r'\<lparr>r_timemap := \<lparr>tm_valid = True,
                     tm_systime = tok_float (r_in r') systime_tok,
                     tm_timestamp = ts * 1000\<rparr>\<rparr>)))"

section \<open>One handler per sentence\<close>

definition parse_punv :: "Env \<Rightarrow> Token list \<Rightarrow> NmeaReader \<Rightarrow> NmeaReader" where
  "parse_punv E tz r =
     (let buf = r_in r; tok_cfg = nmea_tokenizer_get tz 1 in
      if tok_is buf tok_cfg 0 ''CFG_R'' then r
      else if tok_is buf tok_cfg 0 ''QUAL'' then
        (let tok_sigma_x = nmea_tokenizer_get tz 3 in
         if tok_char buf tok_sigma_x 0 \<noteq> CHR '',''
         then snd (nmea_reader_update_accuracy E r (nmea_tokenizer_get tz 10)) else r)
      else if tok_is buf tok_cfg 0 ''TIMEMAP'' then
        snd (nmea_reader_update_timemap E r (nmea_tokenizer_get tz 8) (nmea_tokenizer_get tz 2))
      else r)"

definition parse_gga :: "Env \<Rightarrow> Token list \<Rightarrow> NmeaReader \<Rightarrow> NmeaReader" where
  "parse_gga E tz r =
     (let buf = r_in r in
      if code (CHR ''0'') < code (tok_char buf (nmea_tokenizer_get tz 6) 0) then
        (let r1 = snd (nmea_reader_update_time E r (nmea_tokenizer_get tz 1));
             r2 = snd (nmea_reader_update_latlong r1 (nmea_tokenizer_get tz 2)
                    (tok_char buf (nmea_tokenizer_get tz 3) 0) (nmea_tokenizer_get tz 4)
                    (tok_char buf (nmea_tokenizer_get tz 5) 0))
         in snd (nmea_reader_update_altitude r2 (nmea_tokenizer_get tz 9) (nmea_tokenizer_get tz 10)))
      else r)"

definition parse_gll :: "Env \<Rightarrow> Token list \<Rightarrow> NmeaReader \<Rightarrow> NmeaReader" where
  "parse_gll E tz r =
     (let buf = r_in r in
      if tok_char buf (nmea_tokenizer_get tz 6) 0 = CHR ''A'' then
        (let r1 = snd (nmea_reader_update_time E r (nmea_tokenizer_get tz 5))
         in snd (nmea_reader_update_latlong r1 (nmea_tokenizer_get tz 1)
                    (tok_char buf (nmea_tokenizer_get tz 2) 0) (nmea_tokenizer_get tz 3)
                    (tok_char buf (nmea_tokenizer_get tz 4) 0)))
      else r)"

definition gsa_prn :: "Token list \<Rightarrow> NmeaReader \<Rightarrow> int \<Rightarrow> NmeaReader" where
  "gsa_prn tz r i =
     (let prn = tok_int (r_in r) (nmea_tokenizer_get tz i) in
      if 0 < prn \<and> prn < 33 then
        r\<lparr>r_sv_status := (r_sv_status r)\<lparr>used_in_fix_mask :=
             used_in_fix_mask (r_sv_status r) OR push_bit (nat (prn - 1)) 1\<rparr>,
          r_sv_status_changed := True, r_gsa_fixed := True\<rparr>
      else r)"

definition parse_gsa :: "Token list \<Rightarrow> NmeaReader \<Rightarrow> NmeaReader" where
  "parse_gsa tz r =
     (let c = tok_char (r_in r) (nmea_tokenizer_get tz 2) 0 in
      if c \<noteq> NUL \<and> c \<noteq> CHR ''1'' then
        foldl (gsa_prn tz)
          (r\<lparr>r_sv_status := (r_sv_status r)\<lparr>used_in_fix_mask := 0\<rparr>\<rparr>) [3..14]
      else if r_gsa_fixed r then
        r\<lparr>r_sv_status := (r_sv_status r)\<lparr>used_in_fix_mask := 0\<rparr>,
          r_sv_status_changed := True, r_gsa_fixed := False\<rparr>
      else r)"

text \<open>
  The satellites of one GSV sentence; \<open>n\<close> counts down the \<open>4 - i\<close> iterations left. A satellite
  stored past \<open>sv_list\<close> is a write outside the array: \<open>None\<close>.
\<close>

definition gsv_entry :: "Env \<Rightarrow> Token list \<Rightarrow> string \<Rightarrow> int \<Rightarrow> GpsSvInfo" where
  "gsv_entry E tz buf i =
     \<lparr>sv_prn = tok_int buf (nmea_tokenizer_get tz (i * 4 + 4)),
      sv_snr = env_float E (tok_float buf (nmea_tokenizer_get tz (i * 4 + 7))),
      sv_elevation = env_float E (tok_float buf (nmea_tokenizer_get tz (i * 4 + 5))),
      sv_azimuth = env_float E (tok_float buf (nmea_tokenizer_get tz (i * 4 + 6)))\<rparr>"

fun gsv_loop ::
    "Env \<Rightarrow> Token list \<Rightarrow> string \<Rightarrow> int \<Rightarrow> nat \<Rightarrow> int \<Rightarrow> int \<Rightarrow> GpsSvStatus \<Rightarrow> GpsSvStatus option" where
  "gsv_loop E tz buf nos 0 i cur s = Some s"
| "gsv_loop E tz buf nos (Suc n) i cur s =
     (if num_svs s < nos then
        (if 0 \<le> cur \<and> cur < int (length (sv_list s)) then
           gsv_loop E tz buf nos n (i + 1) (cur + 1)
             (s\<lparr>sv_list := (sv_list s)[nat cur := gsv_entry E tz buf i],
                num_svs := num_svs s + 1\<rparr>)
         else None)
      else Some s)"

definition parse_gsv :: "Env \<Rightarrow> Token list \<Rightarrow> NmeaReader \<Rightarrow> NmeaReader option" where
  "parse_gsv E tz r =
     (let buf = r_in r; noSatellites = tok_int buf (nmea_tokenizer_get tz 3) in
      if 0 < noSatellites then
        (let sentence = tok_int buf (nmea_tokenizer_get tz 2);
             totalSentences = tok_int buf (nmea_tokenizer_get tz 1);
             r1 = (if sentence = 1
                   then r\<lparr>r_sv_status_changed := False, r_sv_status := (r_sv_status r)\<lparr>num_svs := 0\<rparr>\<rparr>
                   else r)
         in case gsv_loop E tz buf noSatellites 4 0 (num_svs (r_sv_status r1)) (r_sv_status r1) of
              None \<Rightarrow> None
            | Some s \<Rightarrow>
                Some (r1\<lparr>r_sv_status := s,
                  r_sv_status_changed := (sentence = totalSentences \<or> r_sv_status_changed r1)\<rparr>))
      else Some r)"

definition parse_rmc :: "Env \<Rightarrow> Token list \<Rightarrow> NmeaReader \<Rightarrow> NmeaReader" where
  "parse_rmc E tz r =
     (let buf = r_in r in
      if tok_char buf (nmea_tokenizer_get tz 2) 0 = CHR ''A'' then
        (let r1 = snd (nmea_reader_update_date E r (nmea_tokenizer_get tz 9) (nmea_tokenizer_get tz 1));
             r2 = snd (nmea_reader_update_latlong r1 (nmea_tokenizer_get tz 3)
                    (tok_char buf (nmea_tokenizer_get tz 4) 0) (nmea_tokenizer_get tz 5)
                    (tok_char buf (nmea_tokenizer_get tz 6) 0));
             r3 = snd (nmea_reader_update_bearing E r2 (nmea_tokenizer_get tz 8))
         in snd (nmea_reader_update_speed E r3 (nmea_tokenizer_get tz 7)))
      else r)"

definition parse_vtg :: "Env \<Rightarrow> Token list \<Rightarrow> NmeaReader \<Rightarrow> NmeaReader" where
  "parse_vtg E tz r =
     (let c = tok_char (r_in r) (nmea_tokenizer_get tz 9) 0 in
      if c \<noteq> NUL \<and> c \<noteq> CHR ''N'' then
        (let r1 = snd (nmea_reader_update_bearing E r (nmea_tokenizer_get tz 1))
         in snd (nmea_reader_update_speed E r1 (nmea_tokenizer_get tz 5)))
      else r)"

definition parse_zda :: "Env \<Rightarrow> Token list \<Rightarrow> NmeaReader \<Rightarrow> NmeaReader" where
  "parse_zda E tz r =
     (let buf = r_in r; tok_year = nmea_tokenizer_get tz 4;
          r1 = (if tok_char buf tok_year 0 \<noteq> NUL
                then snd (nmea_reader_update_cdate r (nmea_tokenizer_get tz 2)
                       (nmea_tokenizer_get tz 3) tok_year)
                else r);
          tok_time = nmea_tokenizer_get tz 1
      in if tok_char buf tok_time 0 \<noteq> NUL then snd (nmea_reader_update_time E r1 tok_time) else r1)"

text \<open>The dispatch on the first token, whose first two characters (the talker) are ignored.\<close>

definition nmea_dispatch :: "Env \<Rightarrow> Token list \<Rightarrow> NmeaReader \<Rightarrow> NmeaReader option" where
  "nmea_dispatch E tz r =
     (let buf = r_in r; tok = nmea_tokenizer_get tz 0 in
      if tok_is buf tok 2 ''GGA'' then Some (parse_gga E tz r)
      else if tok_is buf tok 2 ''GLL'' then Some (parse_gll E tz r)
      else if tok_is buf tok 2 ''GSA'' then Some (parse_gsa tz r)
      else if tok_is buf tok 2 ''GSV'' then parse_gsv E tz r
      else if tok_is buf tok 2 ''RMC'' then Some (parse_rmc E tz r)
      else if tok_is buf tok 2 ''VTG'' then Some (parse_vtg E tz r)
      else if tok_is buf tok 2 ''ZDA'' then Some (parse_zda E tz r)
      else Some r)"

section \<open>Satellites used in the fix (GSA)\<close>

lemma gsa_prn_in [simp]: "r_in (gsa_prn tz r i) = r_in r"
  by (simp add: gsa_prn_def Let_def)

lemma gsa_prn_bit:
  "k < 32 \<Longrightarrow> bit (used_in_fix_mask (r_sv_status (gsa_prn tz r i))) k \<longleftrightarrow>
     bit (used_in_fix_mask (r_sv_status r)) k \<or> tok_int (r_in r) (nmea_tokenizer_get tz i) = int k + 1"
  by (auto simp: gsa_prn_def Let_def bit_or_iff bit_exp_iff possible_bit_word)

lemma gsa_fold_bit:
  "k < 32 \<Longrightarrow> bit (used_in_fix_mask (r_sv_status (foldl (gsa_prn tz) r is))) k \<longleftrightarrow>
     bit (used_in_fix_mask (r_sv_status r)) k \<or>
     list_ex (\<lambda>i. tok_int (r_in r) (nmea_tokenizer_get tz i) = int k + 1) is"
  by (induction "is" arbitrary: r) (auto simp: gsa_prn_bit)

lemma gsa_prn_flags:
  "r_sv_status_changed (gsa_prn tz r i) = (r_sv_status_changed r \<or> tok_int (r_in r) (nmea_tokenizer_get tz i) \<in> {1..32})"
  "r_gsa_fixed (gsa_prn tz r i) = (r_gsa_fixed r \<or> tok_int (r_in r) (nmea_tokenizer_get tz i) \<in> {1..32})"
  by (auto simp: gsa_prn_def Let_def)

lemma gsa_fold_flags:
  "r_sv_status_changed (foldl (gsa_prn tz) r is) =
     (r_sv_status_changed r \<or> list_ex (\<lambda>i. tok_int (r_in r) (nmea_tokenizer_get tz i) \<in> {1..32}) is)"
  "r_gsa_fixed (foldl (gsa_prn tz) r is) =
     (r_gsa_fixed r \<or> list_ex (\<lambda>i. tok_int (r_in r) (nmea_tokenizer_get tz i) \<in> {1..32}) is)"
  by (induction "is" arbitrary: r) (auto simp: gsa_prn_flags)

text \<open>C36: A GSA sentence of a valid fix leaves in the mask exactly the satellites it lists: bit k
  is set if and only if one of the fields 3 to 14 reads k + 1, whatever the mask was before; the status counts as
  changed, and a fix as seen, when one of them is a satellite. A sentence without a fix clears the mask and
  reports the change when a fix was seen since the mask was last cleared so, and otherwise changes nothing.\<close>

theorem gsa_mask_exact:
  assumes "k < 32"
  shows "let r' = parse_gsa tz r; listed = (\<lambda>i. tok_int (r_in r) (nmea_tokenizer_get tz i));
             mask = (\<lambda>r. used_in_fix_mask (r_sv_status r))
         in if tok_char (r_in r) (nmea_tokenizer_get tz 2) 0 \<notin> {NUL, CHR ''1''}
            then bit (mask r') k = list_ex (\<lambda>i. listed i = int k + 1) [3..14] \<and>
              r_sv_status_changed r' = (r_sv_status_changed r \<or> list_ex (\<lambda>i. listed i \<in> {1..32}) [3..14]) \<and>
              r_gsa_fixed r' = (r_gsa_fixed r \<or> list_ex (\<lambda>i. listed i \<in> {1..32}) [3..14])
            else if r_gsa_fixed r then mask r' = 0 \<and> r_sv_status_changed r' \<and> \<not> r_gsa_fixed r'
            else r' = r"
  using assms
  by (simp add: parse_gsa_def Let_def gsa_fold_bit gsa_fold_flags del: upto_rec_numeral)

section \<open>Satellites in view (GSV)\<close>

text \<open>What one sentence may add: at most \<open>n\<close> satellites, up to the announced number.\<close>

definition gsv_target :: "int \<Rightarrow> nat \<Rightarrow> int \<Rightarrow> int" where
  "gsv_target nos n cur = max cur (min nos (cur + int n))"

lemma gsv_loop_ok:
  assumes "0 \<le> cur" and "num_svs s = cur" and "gsv_target nos n cur \<le> int (length (sv_list s))"
  shows "\<exists>s'. gsv_loop E tz buf nos n i cur s = Some s' \<and> num_svs s' = gsv_target nos n cur \<and>
    length (sv_list s') = length (sv_list s)"
  using assms
proof (induction n arbitrary: i cur s)
  case 0
  then show ?case by (simp add: gsv_target_def)
next
  case (Suc n)
  show ?case
  proof (cases "num_svs s < nos")
    case False
    then show ?thesis using Suc.prems by (simp add: gsv_target_def)
  next
    case True
    have t: "gsv_target nos n (cur + 1) = gsv_target nos (Suc n) cur"
      using True Suc.prems by (simp add: gsv_target_def)
    have c: "cur < int (length (sv_list s))"
      using True Suc.prems by (simp add: gsv_target_def)
    let ?s = "s\<lparr>sv_list := (sv_list s)[nat cur := gsv_entry E tz buf i], num_svs := num_svs s + 1\<rparr>"
    have "\<exists>s'. gsv_loop E tz buf nos n (i + 1) (cur + 1) ?s = Some s' \<and>
        num_svs s' = gsv_target nos n (cur + 1) \<and> length (sv_list s') = length (sv_list ?s)"
      using Suc.prems t by (intro Suc.IH) simp_all
    then show ?thesis using True c Suc.prems(1) t by simp
  qed
qed

lemma gsv_loop_fault:
  assumes "num_svs s = cur" and "0 \<le> cur" and "int (length (sv_list s)) < gsv_target nos n cur"
    and "cur \<le> int (length (sv_list s))"
  shows "gsv_loop E tz buf nos n i cur s = None"
  using assms
proof (induction n arbitrary: i cur s)
  case 0
  then show ?case by (simp add: gsv_target_def)
next
  case (Suc n)
  then have "num_svs s < nos" by (simp add: gsv_target_def split: if_splits)
  then show ?case using Suc.prems by (auto intro!: Suc.IH simp: gsv_target_def)
qed

definition gsv_total :: "Token list \<Rightarrow> NmeaReader \<Rightarrow> int" where
  "gsv_total tz r = tok_int (r_in r) (nmea_tokenizer_get tz 3)"

definition gsv_start :: "Token list \<Rightarrow> NmeaReader \<Rightarrow> int" where
  "gsv_start tz r =
     (if tok_int (r_in r) (nmea_tokenizer_get tz 2) = 1 then 0 else num_svs (r_sv_status r))"

text \<open>C30: a GSV sentence that announces satellites stores at most four more, from slot 0 when it is
  the first of its group, and never more than it announces; it writes past the array exactly when
  that number is larger than the array (a receiver can announce up to what three digits hold).\<close>

theorem gsv_bound_and_fault:
  assumes "0 < gsv_total tz r" and "0 \<le> num_svs (r_sv_status r)"
    and "num_svs (r_sv_status r) \<le> int (length (sv_list (r_sv_status r)))"
  shows "case parse_gsv E tz r of
      None \<Rightarrow> int (length (sv_list (r_sv_status r))) < gsv_target (gsv_total tz r) 4 (gsv_start tz r)
    | Some r' \<Rightarrow>
        gsv_target (gsv_total tz r) 4 (gsv_start tz r) \<le> int (length (sv_list (r_sv_status r))) \<and>
        num_svs (r_sv_status r') = gsv_target (gsv_total tz r) 4 (gsv_start tz r)"
proof -
  define r1 where "r1 = (if tok_int (r_in r) (nmea_tokenizer_get tz 2) = 1
    then r\<lparr>r_sv_status_changed := False, r_sv_status := (r_sv_status r)\<lparr>num_svs := 0\<rparr>\<rparr> else r)"
  have n: "num_svs (r_sv_status r1) = gsv_start tz r" "sv_list (r_sv_status r1) = sv_list (r_sv_status r)"
    by (simp_all add: r1_def gsv_start_def)
  have g: "0 \<le> gsv_start tz r" "gsv_start tz r \<le> int (length (sv_list (r_sv_status r)))"
    using assms by (simp_all add: gsv_start_def)
  define res where "res = gsv_loop E tz (r_in r) (gsv_total tz r) 4 0 (num_svs (r_sv_status r1)) (r_sv_status r1)"
  have p: "parse_gsv E tz r = (case res of None \<Rightarrow> None | Some s \<Rightarrow> Some (r1\<lparr>r_sv_status := s,
      r_sv_status_changed := (tok_int (r_in r) (nmea_tokenizer_get tz 2) =
        tok_int (r_in r) (nmea_tokenizer_get tz 1) \<or> r_sv_status_changed r1)\<rparr>))"
    using assms(1)
    unfolding parse_gsv_def Let_def gsv_total_def [symmetric] r1_def [symmetric] res_def by simp
  show ?thesis
    using gsv_loop_ok [of "gsv_start tz r" "r_sv_status r1" "gsv_total tz r" 4 E tz "r_in r" 0]
      gsv_loop_fault [of "r_sv_status r1" "gsv_start tz r" "gsv_total tz r" 4 E tz "r_in r" 0] n g
    by (fastforce simp: p res_def split: option.splits)
qed

text \<open>A concrete reader: a buffer that holds a sentence, an array for two satellites.\<close>

definition demo_reader :: "string \<Rightarrow> NmeaReader" where
  "demo_reader line =
     \<lparr>r_pos = 0, r_overflow = False, r_utc_year = - 1, r_utc_mon = - 1, r_utc_day = - 1,
      r_utc_diff = 0, r_fix = zero_fix,
      r_sv_status = \<lparr>num_svs = 0, sv_list = [zero_sv, zero_sv], used_in_fix_mask = 7\<rparr>,
      r_sv_status_changed = False, r_in = line, r_gsa_fixed = False,
      r_timemap = \<lparr>tm_valid = False, tm_systime = 0, tm_timestamp = 0\<rparr>\<rparr>"

definition demo_tm :: "int \<Rightarrow> tm" where
  "demo_tm h = \<lparr>tm_sec = 0, tm_min = 0, tm_hour = h, tm_mday = 1, tm_mon = 0, tm_year = 113,
     tm_yday = 0\<rparr>"

definition demo_env :: Env where
  "demo_env = \<lparr>env_gmtime = demo_tm 4, env_localtime = demo_tm 12, env_mktime = tm_seconds,
     env_float = (\<lambda>x. x), env_now_ms = 0\<rparr>"

lemmas token_eval = nmea_tokenizer_get_def tok_char_def tok_is_def tok_int_def tok_buf_def
  str2int_def chars_def byte_at_def isdigit_def code_def wrap32_id upt_conv_Cons

theorem gsa_mask_exact_witness:
  "bit (used_in_fix_mask (r_sv_status (parse_gsa [mk_tok 0 5, mk_tok 6 7, mk_tok 8 9, mk_tok 10 12]
      (demo_reader ''GPGSA,A,3,04'')))) 3 \<and>
   used_in_fix_mask (r_sv_status (parse_gsa [mk_tok 0 5, mk_tok 6 7, mk_tok 8 9]
      ((demo_reader ''GPGSA,A,1'')\<lparr>r_gsa_fixed := True\<rparr>))) = 0"
  using gsa_mask_exact [of 3 "[mk_tok 0 5, mk_tok 6 7, mk_tok 8 9, mk_tok 10 12]" "demo_reader ''GPGSA,A,3,04''"]
    gsa_mask_exact [of 3 "[mk_tok 0 5, mk_tok 6 7, mk_tok 8 9]" "(demo_reader ''GPGSA,A,1'')\<lparr>r_gsa_fixed := True\<rparr>"]
  by (simp add: demo_reader_def token_eval Let_def)

section \<open>Dates and times\<close>

lemma str2int_two: "- 1 \<le> str2int buf p (p + 2) \<and> str2int buf p (p + 2) \<le> 99"
proof -
  have "- 1 \<le> str2int_loop 0 [a, b] \<and> str2int_loop 0 [a, b] \<le> 99" for a b
    by (auto simp: isdigit_def wrap32_id)
  then show ?thesis by (simp add: str2int_def chars_def)
qed

lemma or_negative: "((a::int) OR b OR c) < 0 \<longleftrightarrow> a < 0 \<or> b < 0 \<or> c < 0"
  by simp

text \<open>A ZDA date never takes effect: when the year field of four or more characters is followed
  by a character that is not a digit (the comma, the checksum's star or the line end), the year
  stored is -1, and a time read after that is refused.\<close>

theorem zda_year_lost:
  assumes "\<not> tok_dummy y" and "\<not> isdigit (byte_at (r_in r) (tok_end y))"
    and "fst (nmea_reader_update_cdate r d m y) = 0"
  shows "r_utc_year (snd (nmea_reader_update_cdate r d m y)) = - 1 \<and>
    fst (nmea_reader_update_time E (snd (nmea_reader_update_cdate r d m y)) t) = - 1"
proof -
  have l: "tok_p y + 4 \<le> tok_end y"
    using assms(3) by (auto simp: nmea_reader_update_cdate_def split: if_splits)
  have "byte_at (r_in r) (tok_end y) \<in> set (chars (r_in r) (tok_p y) (tok_end y + 4))"
    using l by (auto simp: chars_def)
  then have "\<not> list_all isdigit (chars (r_in r) (tok_p y) (tok_end y + 4))"
    using assms(2) by (auto simp: list_all_iff)
  then have "str2int (tok_buf (r_in r) y) (tok_p y) (tok_end y + 4) = - 1"
    using assms(1) by (simp add: str2int_def tok_buf_def str2int_loop_bad)
  then have y: "r_utc_year (snd (nmea_reader_update_cdate r d m y)) = - 1"
    using assms(3) by (auto simp: nmea_reader_update_cdate_def split: if_splits)
  then show ?thesis by (simp add: nmea_reader_update_time_def nmea_reader_get_timestamp_def)
qed

theorem zda_year_lost_witness:
  "r_utc_year (snd (nmea_reader_update_cdate (demo_reader ''GPZDA,1,02,03,2013,00'')
      (mk_tok 8 10) (mk_tok 11 13) (mk_tok 14 18))) = - 1"
  using zda_year_lost [of "mk_tok 14 18" "demo_reader ''GPZDA,1,02,03,2013,00''" "mk_tok 8 10" "mk_tok 11 13"]
  by (simp add: demo_reader_def byte_at_def isdigit_def code_def nmea_reader_update_cdate_def)

text \<open>An RMC date is refused exactly when its day or its month is not a number; the year is not
  checked, since -1 + 2000 is not negative: unreadable year digits are stored as the year 1999.\<close>

theorem rmc_date_check:
  fixes date :: Token and r :: NmeaReader
  defines "buf \<equiv> tok_buf (r_in r) date" and "p \<equiv> tok_p date"
  shows "nmea_reader_update_date E r date mtime =
    (if str2int buf p (p + 2) = - 1 \<or> str2int buf (p + 2) (p + 4) = - 1 then (- 1, r)
     else nmea_reader_update_time E
       (r\<lparr>r_utc_year := (if str2int buf (p + 4) (p + 6) = - 1 then 1999
                        else str2int buf (p + 4) (p + 6) + 2000),
          r_utc_mon := str2int buf (p + 2) (p + 4), r_utc_day := str2int buf p (p + 2)\<rparr>) mtime)"
proof -
  have n: "str2int buf p (p + 2) < 0 \<longleftrightarrow> str2int buf p (p + 2) = - 1"
    "str2int buf (p + 2) (p + 4) < 0 \<longleftrightarrow> str2int buf (p + 2) (p + 4) = - 1"
    "\<not> str2int buf (p + 4) (p + 6) + 2000 < 0"
    using str2int_two [of buf p] str2int_two [of buf "p + 2"] str2int_two [of buf "p + 4"]
    by (auto simp: numeral_eq_Suc)
  show ?thesis
    unfolding nmea_reader_update_date_def Let_def or_negative buf_def [symmetric] p_def [symmetric]
    by (simp only: n) (auto simp: n(3))
qed

text \<open>The seconds of a year past 1968 do not fit 32 bits, yet the difference of the two wrapped
  values is the true difference of local and UTC time whenever that one fits.\<close>

theorem utc_diff_wrap_cancels:
  assumes "\<bar>tm_seconds (env_gmtime E) - tm_seconds (env_localtime E)\<bar> < 2147483648"
  shows "r_utc_diff (nmea_reader_update_utc_diff E r) =
    tm_seconds (env_gmtime E) - tm_seconds (env_localtime E)"
  using assms
  by (simp add: nmea_reader_update_utc_diff_def Let_def wrap32_def signed_take_bit_diff
      wrap32_id [unfolded wrap32_def])

theorem utc_diff_wrap_cancels_witness:
  "2147483648 < tm_seconds (env_gmtime demo_env) \<and>
   r_utc_diff (nmea_reader_update_utc_diff demo_env (demo_reader '''')) = - 28800"
  using utc_diff_wrap_cancels [of demo_env "demo_reader ''''"]
  by (simp add: demo_env_def demo_tm_def tm_seconds_def)

section \<open>Positions\<close>

lemma hundreds: "0 \<le> m \<Longrightarrow> m < 100 \<Longrightarrow> \<lfloor>of_int \<lfloor>100 * real d + m\<rfloor> / (100::real)\<rfloor> = int d"
proof -
  assume m: "0 \<le> m" "m < 100"
  have f: "\<lfloor>100 * real d + m\<rfloor> = 100 * int d + \<lfloor>m\<rfloor>"
    by (metis floor_add_int of_int_mult of_int_numeral of_int_of_nat_eq add.commute)
  have b: "0 \<le> \<lfloor>m\<rfloor>" "\<lfloor>m\<rfloor> < 100" using m by (simp_all add: floor_less_iff)
  have "real_of_int (100 * int d + \<lfloor>m\<rfloor>) / 100 = real d + of_int \<lfloor>m\<rfloor> / 100"
    by (simp add: field_simps)
  moreover have "\<lfloor>real d + of_int \<lfloor>m\<rfloor> / 100\<rfloor> = int d"
    using b by (simp add: floor_eq_iff)
  ultimately show ?thesis by (simp only: f)
qed

text \<open>A coordinate field whose number is 100 d + m, with d whole degrees and m minutes, becomes
  d + m / 60 degrees; with the hemisphere letters the fix gets it with the right sign, and the
  fix is marked as having a position.\<close>

theorem latlong_degrees:
  assumes "tok_float (r_in r) la = 100 * real d + m" and "0 \<le> m" and "m < 100"
    and "tok_float (r_in r) lo = 100 * real d' + m'" and "0 \<le> m'" and "m' < 100"
    and "tok_p la + 6 \<le> tok_end la" and "tok_p lo + 6 \<le> tok_end lo"
  shows "nmea_reader_update_latlong r la h lo h' =
    (0, r\<lparr>r_fix := (r_fix r)\<lparr>
       l_flags := insert HAS_LAT_LONG (l_flags (r_fix r)),
       l_latitude := (if h = CHR ''S'' then -1 else 1) * (real d + m / 60),
       l_longitude := (if h' = CHR ''W'' then -1 else 1) * (real d' + m' / 60)\<rparr>\<rparr>)"
proof -
  have c: "convert_from_hhmm (r_in r) t = real k + n / 60"
    if "tok_float (r_in r) t = 100 * real k + n" "0 \<le> n" "n < 100" for t k n
    using hundreds [of n k] that
    by (simp add: convert_from_hhmm_def Let_def trunc_int_def)
  show ?thesis
    using assms by (simp add: nmea_reader_update_latlong_def Let_def c [of la d m] c [of lo d' m'])
qed

theorem latlong_degrees_witness:
  "nmea_reader_update_latlong (demo_reader ''3030.0,S,12015,E'') (mk_tok 0 6) (CHR ''S'')
      (mk_tok 0 6) (CHR ''E'') =
    (0, (demo_reader ''3030.0,S,12015,E'')\<lparr>r_fix := zero_fix\<lparr>
       l_flags := {HAS_LAT_LONG}, l_latitude := - 30.5, l_longitude := 30.5\<rparr>\<rparr>)"
proof -
  have f: "tok_float (r_in (demo_reader ''3030.0,S,12015,E'')) (mk_tok 0 6) = 3030"
    by (simp add: demo_reader_def tok_float_def tok_buf_def str2float_def chars_def byte_at_def
        upt_conv_Cons cstr_def strtod_def isspace_def code_def isdigit_def dec_value_def exponent_def)
  show ?thesis
    using latlong_degrees [of "demo_reader ''3030.0,S,12015,E''" "mk_tok 0 6" 30 30 "mk_tok 0 6" 30 30] f
    by (simp add: demo_reader_def zero_fix_def)
qed

theorem gsv_bound_and_fault_witness:
  "parse_gsv demo_env [mk_tok 0 5, mk_tok 6 7, mk_tok 8 9, mk_tok 10 12, mk_tok 13 15]
      (demo_reader ''GPGSV,1,1,03,07'') = None"
proof -
  let ?tz = "[mk_tok 0 5, mk_tok 6 7, mk_tok 8 9, mk_tok 10 12, mk_tok 13 15]"
  let ?r = "demo_reader ''GPGSV,1,1,03,07''"
  have t: "gsv_total ?tz ?r = 3" "gsv_start ?tz ?r = 0" "num_svs (r_sv_status ?r) = 0"
    "length (sv_list (r_sv_status ?r)) = 2"
    by (simp_all add: gsv_total_def gsv_start_def demo_reader_def token_eval)
  show ?thesis
    using gsv_bound_and_fault [of ?tz ?r demo_env] t
    by (auto simp: gsv_target_def split: option.splits)
qed

end
