(* ===== verification/Gps_State.thy ===== *)
theory Gps_State
  imports Nmea_Reader
begin

text \<open>
  The connection state of \<open>src/libgps/athr_gps.c\<close>: the record \<open>GpsState\<close> (with the static
  variables of the file), the feeding of characters to the parser (\<open>nmea_reader_addc\<close>,
  \<open>nmea_reader_parse\<close>), the power commands to the receiver, the three threads as step functions
  and the interface functions. What the code tells its caller or the device is appended to the
  log \<open>g_log\<close>, in order: callbacks, bytes written, the device opened and closed.

  The operating system is the record \<open>Os\<close>: properties, hooks, \<open>open\<close>, the success of \<open>write\<close>
  and the clock. Each function takes the system as it finds it at its call. The semaphore only
  makes each locked part atomic: a step function is such a part or a sequence of them.
\<close>

section \<open>State\<close>

datatype run_state = STATE_QUIT | STATE_INIT | STATE_START
datatype gps_cmd = CMD_QUIT | CMD_START | CMD_STOP
datatype gps_status = SESSION_BEGIN | SESSION_END

datatype gps_event =
    CbNmea int string
  | CbLocation GpsLocation
  | CbSvStatus GpsSvStatus
  | CbStatus gps_status
  | CbNi "real option"
  | CbCapabilities
  | Write string
  | OpenTty string
  | CloseTty

record GpsCallbacks =
  location_cb :: bool
  status_cb :: bool
  sv_status_cb :: bool
  nmea_cb :: bool

record GpsState =
  g_init :: run_state
  g_fd :: int
  g_callbacks :: GpsCallbacks
  g_thread :: bool
  g_control :: "gps_cmd list option"
  g_fix_freq :: int
  g_first_fix :: bool
  g_reader :: NmeaReader
  g_ni_init :: bool
  g_ni_notify :: bool
  sleep_lock :: int
  lastcmd :: gps_cmd
  bGetFormalNMEA :: bool
  started :: bool
  continue_thread :: bool
  bOrionShutdown :: bool
  g_gpscallback :: "GpsCallbacks option"
  g_prop :: string
  g_log :: "gps_event list"

record Os =
  os_property :: "string \<Rightarrow> string option"
  os_system :: "string \<Rightarrow> int"
  os_open :: "string \<Rightarrow> int"
  os_write_ok :: bool
  os_time :: int
  os_sem_ok :: bool
  os_socketpair_ok :: bool
  os_thread_ok :: bool

definition emit :: "gps_event \<Rightarrow> GpsState \<Rightarrow> GpsState" where
  "emit e s = s\<lparr>g_log := g_log s @ [e]\<rparr>"

definition status_callback :: "gps_status \<Rightarrow> GpsState \<Rightarrow> GpsState" where
  "status_callback st s = (if status_cb (g_callbacks s) then emit (CbStatus st) s else s)"

lemma emit_frame [simp]:
  "g_init (emit e s) = g_init s" "g_fd (emit e s) = g_fd s" "g_callbacks (emit e s) = g_callbacks s"
  "g_thread (emit e s) = g_thread s" "g_control (emit e s) = g_control s" "g_fix_freq (emit e s) = g_fix_freq s"
  "g_first_fix (emit e s) = g_first_fix s" "g_reader (emit e s) = g_reader s"
  "sleep_lock (emit e s) = sleep_lock s" "lastcmd (emit e s) = lastcmd s"
  "bGetFormalNMEA (emit e s) = bGetFormalNMEA s" "started (emit e s) = started s"
  "continue_thread (emit e s) = continue_thread s" "bOrionShutdown (emit e s) = bOrionShutdown s"
  "g_gpscallback (emit e s) = g_gpscallback s" "g_prop (emit e s) = g_prop s"
  "g_ni_init (emit e s) = g_ni_init s" "g_ni_notify (emit e s) = g_ni_notify s"
  "g_log (emit e s) = g_log s @ [e]"
  by (simp_all add: emit_def)

section \<open>From characters to fixes\<close>

text \<open>The time of the pulse is sent once, with the fix whose timestamp it belongs to.\<close>

definition ath_send_ni_notification :: "GpsState \<Rightarrow> GpsState" where
  "ath_send_ni_notification s =
     (if g_ni_init s \<and> g_ni_notify s then
        (let r = g_reader s; tmap = r_timemap r in
         if tm_valid tmap \<and> tm_timestamp tmap = l_timestamp (r_fix r)
         then emit (CbNi (Some (tm_systime tmap)))
                (s\<lparr>g_reader := r\<lparr>r_timemap := tmap\<lparr>tm_valid := False\<rparr>\<rparr>\<rparr>)
         else emit (CbNi None) s)
      else s)"

definition clear_flags :: "NmeaReader \<Rightarrow> NmeaReader" where
  "clear_flags r = r\<lparr>r_fix := (r_fix r)\<lparr>l_flags := {}\<rparr>\<rparr>"

text \<open>The end of \<open>nmea_reader_parse\<close>: the first fix is reported at once.\<close>

definition report_first_fix :: "GpsState \<Rightarrow> GpsState" where
  "report_first_fix s =
     (if \<not> g_first_fix s \<and> g_init s = STATE_INIT \<and> HAS_LAT_LONG \<in> l_flags (r_fix (g_reader s)) then
        (let s1 = ath_send_ni_notification s;
             s2 = (if location_cb (g_callbacks s1)
                   then (let s' = emit (CbLocation (r_fix (g_reader s1))) s1
                         in s'\<lparr>g_reader := clear_flags (g_reader s')\<rparr>)
                   else s1)
         in s2\<lparr>g_first_fix := True\<rparr>)
      else s)"

definition nmea_reader_parse :: "Env \<Rightarrow> GpsState \<Rightarrow> GpsState option" where
  "nmea_reader_parse E s =
     (let r = g_reader s in
      if r_pos r < 9 then Some s
      else
        (let s1 = (if nmea_cb (g_callbacks s)
                   then emit (CbNmea (env_now_ms E) (take (r_pos r) (r_in r))) s else s);
             tz = nmea_tokenizer_init (r_in r) 0 (r_pos r);
             tok = nmea_tokenizer_get tz 0
         in if tok_end tok < tok_p tok + 5 then
              Some (if tok_is (r_in r) tok 0 ''PUNV''
                    then s1\<lparr>g_reader := parse_punv E tz r\<rparr> else s1)
            else
              (let s2 = (if tok_is (r_in r) tok 0 ''GPG'' then s1\<lparr>bGetFormalNMEA := True\<rparr> else s1)
               in case nmea_dispatch E tz r of
                    None \<Rightarrow> None
                  | Some r' \<Rightarrow> Some (report_first_fix (s2\<lparr>g_reader := r'\<rparr>)))))"

definition athr_reader_parse :: "Env \<Rightarrow> string \<Rightarrow> GpsState \<Rightarrow> GpsState" where
  "athr_reader_parse E buf s =
     (if length buf < 9 then s
      else if nmea_cb (g_callbacks s) then emit (CbNmea (env_now_ms E) buf) s else s)"

definition set_reader :: "(NmeaReader \<Rightarrow> NmeaReader) \<Rightarrow> GpsState \<Rightarrow> GpsState" where
  "set_reader f s = s\<lparr>g_reader := f (g_reader s)\<rparr>"

definition nmea_reader_addc :: "Env \<Rightarrow> GpsState \<Rightarrow> char \<Rightarrow> GpsState option" where
  "nmea_reader_addc E s c =
     (let r = g_reader s in
      if r_overflow r then Some (set_reader (\<lambda>r. r\<lparr>r_overflow := (c \<noteq> NL)\<rparr>) s)
      else if length (r_in r) - 1 \<le> r_pos r
      then Some (set_reader (\<lambda>r. r\<lparr>r_overflow := True, r_pos := 0\<rparr>) s)
      else
        (let s1 = set_reader (\<lambda>r. r\<lparr>r_in := (r_in r)[r_pos r := c], r_pos := r_pos r + 1\<rparr>) s in
         if c = NL
         then map_option (set_reader (\<lambda>r. r\<lparr>r_pos := 0\<rparr>)) (nmea_reader_parse E s1)
         else Some s1))"

fun nmea_reader_addcs :: "Env \<Rightarrow> GpsState \<Rightarrow> string \<Rightarrow> GpsState option" where
  "nmea_reader_addcs E s [] = Some s"
| "nmea_reader_addcs E s (c # cs) =
     (case nmea_reader_addc E s c of None \<Rightarrow> None | Some s' \<Rightarrow> nmea_reader_addcs E s' cs)"

section \<open>The serial device\<close>

definition athr_run_hook :: "Os \<Rightarrow> string \<Rightarrow> bool" where
  "athr_run_hook os name =
     (case os_property os ''athr.gps.hookspath'' of
        None \<Rightarrow> False
      | Some path \<Rightarrow> if path = [] then False else os_system os (path @ ''/'' @ name) = 0)"

definition gps_closetty :: "GpsState \<Rightarrow> GpsState" where
  "gps_closetty s = (if g_fd s \<noteq> - 1 then (emit CloseTty s)\<lparr>g_fd := - 1\<rparr> else s)"

definition gps_opentty :: "Os \<Rightarrow> GpsState \<Rightarrow> int \<times> GpsState" where
  "gps_opentty os s =
     (if g_prop s = [] then (- 1, s\<lparr>g_fd := - 1\<rparr>)
      else
        (let s1 = (if g_fd s \<noteq> - 1 then gps_closetty s else s);
             fd = os_open os (g_prop s);
             device = ''/dev/'' @ g_prop s @ ''0''
         in if 0 \<le> fd then (0, emit (OpenTty (g_prop s)) (s1\<lparr>g_fd := fd\<rparr>))
            else if 256 \<le> length device then (- 1, s1\<lparr>g_fd := fd\<rparr>)
            else if os_open os device < 0 then (- 1, s1\<lparr>g_fd := os_open os device\<rparr>)
            else (0, emit (OpenTty device) (s1\<lparr>g_fd := os_open os device\<rparr>))))"

definition wakeup_msg :: string where
  "wakeup_msg = ''$PUNV,WAKEUP*2C'' @ [CR, NL]"

definition sleep_msg :: string where
  "sleep_msg = ''$PUNV,SLEEP*7E'' @ [CR, NL]"

text \<open>A write and the flag that follows its result.\<close>

definition write_power :: "Os \<Rightarrow> string \<Rightarrow> GpsState \<Rightarrow> GpsState" where
  "write_power os msg s =
     (let ok = os_write_ok os \<and> 0 \<le> g_fd s in
      (if ok then emit (Write msg) s else s)\<lparr>bOrionShutdown := \<not> ok\<rparr>)"

definition gps_wakeup :: "Os \<Rightarrow> GpsState \<Rightarrow> GpsState" where
  "gps_wakeup os s =
     (if sleep_lock s = 0 then
        (let s1 = snd (gps_opentty os s);
             s2 = (if athr_run_hook os ''start'' then s1
                   else write_power os wakeup_msg (s1\<lparr>sleep_lock := os_time os\<rparr>))
         in s2\<lparr>bGetFormalNMEA := False\<rparr>)
      else s)"

definition gps_sleep :: "Os \<Rightarrow> GpsState \<Rightarrow> GpsState" where
  "gps_sleep os s =
     (let s1 = (if athr_run_hook os ''stop'' then s\<lparr>started := False, sleep_lock := 0\<rparr>
                else
                  (let s' = (if g_fd s = - 1 then snd (gps_opentty os s) else s)
                   in (write_power os sleep_msg s')\<lparr>started := False, sleep_lock := 0\<rparr>))
      in gps_closetty s1)"

section \<open>Commands to the control thread\<close>

text \<open>
  The control socket is a queue while the pair is open; a write to it fails when it is not, and
  the failure is only logged by the code.
\<close>

definition send_ctl :: "gps_cmd \<Rightarrow> GpsState \<Rightarrow> GpsState" where
  "send_ctl c s = s\<lparr>g_control := map_option (\<lambda>q. q @ [c]) (g_control s)\<rparr>"

definition gps_state_start :: "GpsState \<Rightarrow> GpsState" where
  "gps_state_start s = send_ctl CMD_START (s\<lparr>lastcmd := CMD_START\<rparr>)"

definition gps_state_stop :: "GpsState \<Rightarrow> GpsState" where
  "gps_state_stop s = send_ctl CMD_STOP (s\<lparr>lastcmd := CMD_STOP\<rparr>)"

text \<open>What the control thread does with one command; leaving its loop stops the other threads.\<close>

definition gps_thread_cmd :: "Env \<Rightarrow> Os \<Rightarrow> GpsState \<Rightarrow> gps_cmd \<Rightarrow> GpsState" where
  "gps_thread_cmd E os s c =
     (case c of
        CMD_QUIT \<Rightarrow> s\<lparr>continue_thread := False\<rparr>
      | CMD_START \<Rightarrow>
          (if \<not> started s then
             gps_wakeup os
               ((set_reader (nmea_reader_init E) s)\<lparr>started := True, g_init := STATE_START\<rparr>)
           else s)
      | CMD_STOP \<Rightarrow> (if started s then s\<lparr>g_init := STATE_INIT\<rparr> else s))"

text \<open>One round of the control thread's loop: the oldest command, if there is one.\<close>

definition gps_state_thread_step :: "Env \<Rightarrow> Os \<Rightarrow> GpsState \<Rightarrow> GpsState" where
  "gps_state_thread_step E os s =
     (case g_control s of
        Some (c # q) \<Rightarrow>
          if continue_thread s then gps_thread_cmd E os (s\<lparr>g_control := Some q\<rparr>) c else s
      | _ \<Rightarrow> s)"

section \<open>The reading thread\<close>

text \<open>The result of \<open>read\<close>: nothing to read, an error or the end of the device, some bytes.\<close>

datatype read_result = NoData | ReadErr | Data string

definition gps_nmea_read :: "Env \<Rightarrow> read_result \<Rightarrow> GpsState \<Rightarrow> GpsState option" where
  "gps_nmea_read E rd s =
     (case rd of
        NoData \<Rightarrow> Some s
      | ReadErr \<Rightarrow> Some ((status_callback SESSION_END (gps_closetty s))\<lparr>bOrionShutdown := True\<rparr>)
      | Data buf \<Rightarrow>
          (case nmea_reader_addcs E s buf of
             None \<Rightarrow> None
           | Some s' \<Rightarrow>
               Some (if take 3 buf = ''OAP'' \<or> take 6 buf = ''#!GSMA''
                     then athr_reader_parse E buf s' else s')))"

text \<open>One round of the loop, entered when the receiver is awake.\<close>

definition gps_nmea_thread_step :: "Env \<Rightarrow> Os \<Rightarrow> read_result \<Rightarrow> GpsState \<Rightarrow> GpsState option" where
  "gps_nmea_thread_step E os rd s =
     (if \<not> continue_thread s \<or> sleep_lock s = 0 then Some s
      else if g_fd s = - 1 then Some (snd (gps_opentty os (status_callback SESSION_END s)))
      else
        (let s1 = (if bOrionShutdown s \<and> started s then
                     (set_reader (nmea_reader_init E)
                        (gps_wakeup os (status_callback SESSION_BEGIN (s\<lparr>sleep_lock := 0\<rparr>))))
                       \<lparr>bOrionShutdown := False\<rparr>
                   else s)
         in gps_nmea_read E rd s1))"

section \<open>The reporting thread\<close>

text \<open>The locked part: the fix and the satellites go to the framework, once each.\<close>

definition timer_report :: "GpsState \<Rightarrow> GpsState" where
  "timer_report s =
     (let s1 =
        (if HAS_LAT_LONG \<in> l_flags (r_fix (g_reader s)) then
           (let s' = (if location_cb (g_callbacks s)
                      then (let s'' = emit (CbLocation (r_fix (g_reader s))) s
                            in (set_reader clear_flags s'')\<lparr>g_first_fix := True\<rparr>)
                      else s)
            in if g_fix_freq s' = 0 then s'\<lparr>g_fix_freq := - 1\<rparr> else s')
         else s)
      in if r_sv_status_changed (g_reader s1) \<and> sv_status_cb (g_callbacks s1)
         then set_reader (\<lambda>r. r\<lparr>r_sv_status_changed := False\<rparr>)
                (emit (CbSvStatus (r_sv_status (g_reader s1))) s1)
         else s1)"

text \<open>How long the thread sleeps then; \<open>None\<close> when it does not.\<close>

definition timer_sleep :: "GpsState \<Rightarrow> int option" where
  "timer_sleep s =
     (if g_fix_freq s \<noteq> - 1 \<and> g_init s \<noteq> STATE_QUIT then Some (g_fix_freq s) else None)"

definition stop_pending :: "GpsState \<Rightarrow> bool" where
  "stop_pending s = (g_init s = STATE_INIT \<and> lastcmd s = CMD_STOP \<and> started s)"

definition nmea_awaited :: "GpsState \<Rightarrow> bool" where
  "nmea_awaited s =
     (g_init s \<noteq> STATE_START \<and> \<not> bGetFormalNMEA s \<and> continue_thread s \<and> \<not> bOrionShutdown s)"

text \<open>
  The wait for a first sentence, at most 101 naps. \<open>oth k\<close> is what the other threads do to the
  state during nap \<open>k\<close>. The result holds the number of naps taken.
\<close>

function nmea_wait :: "(nat \<Rightarrow> GpsState \<Rightarrow> GpsState) \<Rightarrow> nat \<Rightarrow> GpsState \<Rightarrow> nat \<times> GpsState" where
  "nmea_wait oth gap s =
     (if nmea_awaited s then
        (if 100 < gap + 1 then (gap + 1, oth gap s) else nmea_wait oth (gap + 1) (oth gap s))
      else (gap, s))"
  by pat_completeness auto
termination
  by (relation "measure (\<lambda>(oth, gap, s). 101 - gap)") auto

declare nmea_wait.simps [simp del]

definition timer_stop :: "Os \<Rightarrow> (nat \<Rightarrow> GpsState \<Rightarrow> GpsState) \<Rightarrow> GpsState \<Rightarrow> GpsState" where
  "timer_stop os oth s =
     (if stop_pending s then
        (let (gap, s1) = nmea_wait oth 0 s;
             s2 = s1\<lparr>bGetFormalNMEA := (bGetFormalNMEA s1 \<or> 100 \<le> gap)\<rparr>
         in if stop_pending s2 then gps_sleep os s2 else s2)
      else s)"

text \<open>One round of the loop; \<open>mid\<close> is what the other threads do while it sleeps.\<close>

definition gps_timer_thread_step ::
    "Os \<Rightarrow> (GpsState \<Rightarrow> GpsState) \<Rightarrow> (nat \<Rightarrow> GpsState \<Rightarrow> GpsState) \<Rightarrow> GpsState \<Rightarrow> GpsState" where
  "gps_timer_thread_step os mid oth s =
     (if started s \<or> \<not> continue_thread s then
        (let s1 = timer_report s;
             s2 = (if timer_sleep s1 = None then s1 else mid s1)
         in timer_stop os oth (ath_send_ni_notification s2))
      else s)"

section \<open>Opening and closing the connection\<close>

definition zero_callbacks :: GpsCallbacks where
  "zero_callbacks = \<lparr>location_cb = False, status_cb = False, sv_status_cb = False, nmea_cb = False\<rparr>"

text \<open>
  The quit command, the device put to sleep, the control thread joined (it takes the commands still
  queued, in the schedule where it runs after \<open>gps_sleep\<close>), the sockets closed, then
  \<open>memset (s, 0, sizeof (*s))\<close>: every field of the state is zero, the file descriptor too.
\<close>

definition gps_join :: "Env \<Rightarrow> Os \<Rightarrow> GpsState \<Rightarrow> GpsState" where
  "gps_join E os s =
     (case g_control s of
        Some q \<Rightarrow> if g_thread s then foldl (gps_thread_cmd E os) s q else s
      | None \<Rightarrow> s)"

definition gps_state_done :: "Env \<Rightarrow> Os \<Rightarrow> GpsState \<Rightarrow> GpsState" where
  "gps_state_done E os s =
     (let s2 = gps_join E os (gps_sleep os (send_ctl CMD_QUIT s))
      in s2\<lparr>g_init := STATE_QUIT, g_fd := 0, g_callbacks := zero_callbacks, g_thread := False, g_control := None,
            g_fix_freq := 0, g_first_fix := False,
            g_reader := (g_reader s2)\<lparr>r_pos := 0, r_overflow := False, r_utc_year := 0,
              r_utc_mon := 0, r_utc_day := 0, r_utc_diff := 0, r_fix := zero_fix,
              r_sv_status := \<lparr>num_svs = 0, sv_list = map (\<lambda>_. zero_sv) (sv_list (r_sv_status (g_reader s2))),
                used_in_fix_mask = 0\<rparr>, r_sv_status_changed := False,
              r_in := replicate (length (r_in (g_reader s2))) NUL, r_gsa_fixed := False,
              r_timemap := \<lparr>tm_valid = False, tm_systime = 0, tm_timestamp = 0\<rparr>\<rparr>,
            g_ni_init := False, g_ni_notify := False, g_gpscallback := None\<rparr>)"

text \<open>
  \<open>property_get (key, prop, dflt)\<close> returns the length of the value, or of the default when the
  property is not set or empty, and copies it to \<open>prop\<close>.
\<close>

definition property_get :: "Os \<Rightarrow> string \<Rightarrow> string \<Rightarrow> string" where
  "property_get os key dflt =
     (case os_property os key of None \<Rightarrow> dflt | Some v \<Rightarrow> if v = [] then dflt else v)"

definition gps_device_property :: "Os \<Rightarrow> string" where
  "gps_device_property os =
     (let mode = property_get os ''athr.gps.mode'' ''hosted'';
          node = property_get os ''athr.gps.node'' '''';
          kernel = property_get os ''ro.kernel.android.gps'' ''''
      in if mode = [] then (if node = [] then kernel else node) else kernel)"

definition gps_state_init :: "Env \<Rightarrow> Os \<Rightarrow> GpsState \<Rightarrow> GpsState" where
  "gps_state_init E os s0 =
     (let s = s0\<lparr>g_init := STATE_INIT, g_control := None, g_fd := - 1, g_fix_freq := - 1,
                 g_first_fix := False, continue_thread := True\<rparr>
      in if \<not> os_sem_ok os then s
         else
           (let s1 = s\<lparr>g_prop := gps_device_property os\<rparr> in
            if g_prop s1 = [] then s1
            else if \<not> os_socketpair_ok os then gps_state_done E os s1
            else
              (let s2 = s1\<lparr>g_control := Some []\<rparr> in
               if \<not> os_thread_ok os then gps_state_done E os s2
               else emit CbCapabilities (s2\<lparr>g_thread := True, started := False\<rparr>))))"

section \<open>The interface functions\<close>

definition athr_gps_init :: "Env \<Rightarrow> Os \<Rightarrow> GpsCallbacks \<Rightarrow> GpsState \<Rightarrow> int \<times> GpsState" where
  "athr_gps_init E os cbs s =
     (let s1 = s\<lparr>g_callbacks := cbs\<rparr>;
          s2 = (if g_init s1 = STATE_QUIT then gps_state_init E os s1 else s1)
      in (0, if g_gpscallback s2 = None then s2\<lparr>g_gpscallback := Some cbs\<rparr> else s2))"

definition athr_gps_cleanup :: "Env \<Rightarrow> Os \<Rightarrow> GpsState \<Rightarrow> GpsState" where
  "athr_gps_cleanup E os s = (if g_init s = STATE_QUIT then s else gps_state_done E os s)"

text \<open>An interface call on a closed connection opens it again with the callbacks kept.\<close>

definition gps_checkstate :: "Env \<Rightarrow> Os \<Rightarrow> GpsState \<Rightarrow> int \<times> GpsState" where
  "gps_checkstate E os s =
     (if g_init s = STATE_QUIT then
        (let s1 = (case g_gpscallback s of None \<Rightarrow> s | Some cbs \<Rightarrow> snd (athr_gps_init E os cbs s))
         in if g_init s1 = STATE_QUIT then (- 1, s1) else (0, s1))
      else (0, s))"

definition athr_gps_start :: "Env \<Rightarrow> Os \<Rightarrow> GpsState \<Rightarrow> int \<times> GpsState" where
  "athr_gps_start E os s =
     (case gps_checkstate E os s of
        (rc, s1) \<Rightarrow>
          if rc = - 1 then (- 1, s1)
          else (0, status_callback SESSION_BEGIN (gps_state_start s1)))"

definition athr_gps_stop :: "Env \<Rightarrow> Os \<Rightarrow> GpsState \<Rightarrow> int \<times> GpsState" where
  "athr_gps_stop E os s =
     (case gps_checkstate E os s of
        (rc, s1) \<Rightarrow>
          if rc = - 1 then (- 1, s1)
          else (0, status_callback SESSION_END (gps_state_stop s1)))"

definition athr_gps_set_fix_frequency :: "Env \<Rightarrow> Os \<Rightarrow> int \<Rightarrow> GpsState \<Rightarrow> GpsState" where
  "athr_gps_set_fix_frequency E os freq s =
     (case gps_checkstate E os s of
        (rc, s1) \<Rightarrow> if rc = - 1 then s1 else s1\<lparr>g_fix_freq := (if freq \<le> 0 then 1 else freq)\<rparr>)"

definition rate_msg :: "string \<Rightarrow> string" where
  "rate_msg rate = ''$PUNV,SET,28,'' @ rate @ '',0,'' @ rate @ ''*cc'' @ [CR, NL]"

definition athr_gps_set_position_mode :: "Os \<Rightarrow> u32 \<Rightarrow> GpsState \<Rightarrow> int \<times> GpsState" where
  "athr_gps_set_position_mode os min_interval s =
     (if g_init s = STATE_QUIT then (- 1, s)
      else
        (let f = sint (min_interval div 1000);
             freq = (if f = 0 then 1 else f);
             msg = (if freq = 1 then rate_msg ''0'' else if freq = 5 then rate_msg ''5''
                    else if freq = 15 then rate_msg ''15'' else rate_msg ''0'');
             s1 = s\<lparr>g_fix_freq := freq\<rparr>
         in (0, if os_write_ok os \<and> 0 \<le> g_fd s then emit (Write msg) s1 else s1)))"

definition athr_gps_xtra_inject_data :: "Os \<Rightarrow> string \<Rightarrow> GpsState \<Rightarrow> int \<times> GpsState" where
  "athr_gps_xtra_inject_data os data s =
     (if os_write_ok os \<and> 0 \<le> g_fd s then (0, emit (Write data) s) else (- 1, s))"

definition athr_gps_ni_init :: "bool option \<Rightarrow> GpsState \<Rightarrow> GpsState" where
  "athr_gps_ni_init cbs s =
     (case cbs of None \<Rightarrow> s | Some notify \<Rightarrow> s\<lparr>g_ni_init := True, g_ni_notify := notify\<rparr>)"

text \<open>
  Sending a message in pieces. The parameter gives the result of the k-th write, \<open>None\<close> when it was interrupted. A failed
  write counts as -1: the next piece starts a character earlier, and before the message at its start, which is
  the result \<open>None\<close>. The loop may go on for ever.
\<close>

partial_function (option) gps_dev_send_loop ::
  "(nat \<Rightarrow> string \<Rightarrow> int option) \<Rightarrow> nat \<Rightarrow> string \<Rightarrow> nat \<Rightarrow> string \<Rightarrow> string option" where
  "gps_dev_send_loop wr k msg n sent =
     (case wr k (drop n msg) of
        None \<Rightarrow> if n < length msg then gps_dev_send_loop wr (Suc k) msg n sent else Some sent
      | Some ret \<Rightarrow>
          if int n + ret < 0 then None
          else if int n + ret < int (length msg)
          then gps_dev_send_loop wr (Suc k) msg (nat (int n + ret)) (sent @ take (nat ret) (drop n msg))
          else Some (sent @ take (nat ret) (drop n msg)))"

declare gps_dev_send_loop.simps [code]

definition gps_dev_send :: "(nat \<Rightarrow> string \<Rightarrow> int option) \<Rightarrow> string \<Rightarrow> string option" where
  "gps_dev_send wr msg = gps_dev_send_loop wr 0 msg 0 []"

text \<open>The checksum of a message: the XOR of the bytes after the first, up to the star.\<close>

definition gps_dev_calc_nmea_csum :: "string \<Rightarrow> u8" where
  "gps_dev_calc_nmea_csum msg =
     foldl (\<lambda>csum c. csum XOR of_nat (code c)) 0 (takeWhile (\<lambda>c. c \<noteq> CHR ''*'') (drop 1 msg))"

section \<open>Framing of sentences\<close>

text \<open>The invariant of the line buffer: its size never changes and the position stays inside it.\<close>

definition line_ok :: "GpsState \<Rightarrow> bool" where
  "line_ok s = (length (r_in (g_reader s)) = NMEA_MAX_SIZE + 1 \<and> r_pos (g_reader s) \<le> NMEA_MAX_SIZE)"

lemma set_reader_sel [simp]: "g_reader (set_reader f s) = f (g_reader s)"
  by (simp add: set_reader_def)

lemma set_reader_frame [simp]:
  "g_log (set_reader f s) = g_log s" "started (set_reader f s) = started s"
  "g_init (set_reader f s) = g_init s" "g_callbacks (set_reader f s) = g_callbacks s"
  "sleep_lock (set_reader f s) = sleep_lock s" "g_fix_freq (set_reader f s) = g_fix_freq s"
  by (simp_all add: set_reader_def)

lemma set_reader_twice [simp]: "set_reader f (set_reader g s) = set_reader (\<lambda>r. f (g r)) s"
  by (simp add: set_reader_def)

lemma update_pos_in [simp]:
  "r_in (snd (nmea_reader_update_time E r t)) = r_in r"
  "r_in (snd (nmea_reader_update_cdate r d m y)) = r_in r"
  "r_in (snd (nmea_reader_update_latlong r a h b h')) = r_in r"
  "r_in (snd (nmea_reader_update_altitude r a u)) = r_in r"
  "r_in (snd (nmea_reader_update_accuracy E r a)) = r_in r"
  "r_in (snd (nmea_reader_update_bearing E r a)) = r_in r"
  "r_in (snd (nmea_reader_update_speed E r a)) = r_in r"
  "r_in (snd (nmea_reader_update_timemap E r a b)) = r_in r"
  "r_in (snd (nmea_reader_update_date E r a b)) = r_in r"
  by (auto simp: nmea_reader_update_time_def nmea_reader_update_cdate_def
      nmea_reader_update_latlong_def nmea_reader_update_altitude_def nmea_reader_update_accuracy_def
      nmea_reader_update_bearing_def nmea_reader_update_speed_def nmea_reader_update_timemap_def
      nmea_reader_update_date_def nmea_reader_get_timestamp_def nmea_reader_update_utc_diff_def
      Let_def split: option.splits prod.splits if_splits)

lemma gsa_foldl_in [simp]: "r_in (foldl (gsa_prn tz) r is) = r_in r"
  by (induction "is" arbitrary: r) simp_all

lemma parse_in [simp]:
  "r_in (parse_punv E tz r) = r_in r" "r_in (parse_gga E tz r) = r_in r"
  "r_in (parse_gll E tz r) = r_in r" "r_in (parse_gsa tz r) = r_in r"
  "r_in (parse_rmc E tz r) = r_in r" "r_in (parse_vtg E tz r) = r_in r"
  "r_in (parse_zda E tz r) = r_in r"
  by (simp_all add: parse_punv_def parse_gga_def parse_gll_def parse_gsa_def parse_rmc_def
      parse_vtg_def parse_zda_def Let_def del: upto_rec_numeral)

lemma parse_gsv_in: "parse_gsv E tz r = Some r' \<Longrightarrow> r_in r' = r_in r"
  by (auto simp: parse_gsv_def Let_def split: if_splits option.splits)

lemma nmea_dispatch_in: "nmea_dispatch E tz r = Some r' \<Longrightarrow> r_in r' = r_in r"
  by (auto simp: nmea_dispatch_def Let_def parse_gsv_in split: if_splits)

lemma ni_in [simp]: "r_in (g_reader (ath_send_ni_notification s)) = r_in (g_reader s)"
  by (simp add: ath_send_ni_notification_def Let_def)

lemma report_in [simp]: "r_in (g_reader (report_first_fix s)) = r_in (g_reader s)"
  by (simp add: report_first_fix_def Let_def clear_flags_def)

lemma nmea_reader_parse_in:
  "nmea_reader_parse E s = Some s' \<Longrightarrow> r_in (g_reader s') = r_in (g_reader s)"
  by (auto simp: nmea_reader_parse_def Let_def nmea_dispatch_in split: if_splits option.splits)

lemma nmea_reader_addc_line_ok:
  "line_ok s \<Longrightarrow> nmea_reader_addc E s c = Some s' \<Longrightarrow> line_ok s'"
  by (auto simp: nmea_reader_addc_def Let_def line_ok_def dest!: nmea_reader_parse_in split: if_splits)

definition addc_step :: "Env \<Rightarrow> GpsState option \<Rightarrow> char \<Rightarrow> GpsState option" where
  "addc_step E so c = (case so of None \<Rightarrow> None | Some s \<Rightarrow> nmea_reader_addc E s c)"

lemma foldl_addc_None [simp]: "foldl (addc_step E) None cs = None"
  by (induction cs) (simp_all add: addc_step_def)

lemma nmea_reader_addcs_foldl: "nmea_reader_addcs E s cs = foldl (addc_step E) (Some s) cs"
  by (induction cs arbitrary: s) (simp_all add: addc_step_def split: option.splits)

interpretation addc: stepper "addc_step E" "pred_option line_ok" for E
  by unfold_locales (auto simp: addc_step_def pred_option_def nmea_reader_addc_line_ok split: option.splits)

text \<open>C19: no byte from the receiver, in whatever amount or order, moves the write position out of
  the 84 byte line buffer.\<close>

theorem line_buffer_safe:
  assumes "line_ok s" and "nmea_reader_addcs E s cs = Some s'"
  shows "line_ok s'"
  using addc.run_inv [of "Some s" E cs] assms by (simp add: nmea_reader_addcs_foldl)

lemma set_reader_cong: "f (g_reader s) = g (g_reader s) \<Longrightarrow> set_reader f s = set_reader g s"
  by (simp add: set_reader_def)

lemma addcs_append:
  "nmea_reader_addcs E s (xs @ ys) =
   (case nmea_reader_addcs E s xs of None \<Rightarrow> None | Some s' \<Rightarrow> nmea_reader_addcs E s' ys)"
  by (induction xs arbitrary: s) (simp_all split: option.splits)

text \<open>Characters stored from position \<open>p\<close>.\<close>

definition store :: "string \<Rightarrow> nat \<Rightarrow> string \<Rightarrow> string" where
  "store buf p cs = take p buf @ cs @ drop (p + length cs) buf"

lemma store_Cons:
  "p + Suc (length cs) \<le> length buf \<Longrightarrow> store (buf[p := c]) (Suc p) cs = store buf p (c # cs)"
  by (simp add: store_def take_Suc_conv_app_nth take_update_swap list_update_append)

lemma length_store [simp]: "p + length cs \<le> length buf \<Longrightarrow> length (store buf p cs) = length buf"
  by (simp add: store_def)

lemma addcs_store:
  assumes "line_ok s" and "\<not> r_overflow (g_reader s)" and "NL \<notin> set cs"
    and "r_pos (g_reader s) + length cs \<le> NMEA_MAX_SIZE"
  shows "nmea_reader_addcs E s cs =
    Some (set_reader (\<lambda>r. r\<lparr>r_in := store (r_in r) (r_pos r) cs, r_pos := r_pos r + length cs\<rparr>) s)"
  using assms
proof (induction cs arbitrary: s)
  case Nil
  then show ?case by (simp add: store_def set_reader_def)
next
  case (Cons c cs)
  let ?s = "set_reader (\<lambda>r. r\<lparr>r_in := (r_in r)[r_pos r := c], r_pos := r_pos r + 1\<rparr>) s"
  have a: "nmea_reader_addc E s c = Some ?s"
    using Cons.prems by (auto simp: nmea_reader_addc_def Let_def line_ok_def)
  have l: "line_ok ?s" using nmea_reader_addc_line_ok [OF Cons.prems(1) a] .
  have st: "store ((r_in (g_reader s))[r_pos (g_reader s) := c]) (Suc (r_pos (g_reader s))) cs =
      store (r_in (g_reader s)) (r_pos (g_reader s)) (c # cs)"
    using Cons.prems by (intro store_Cons) (simp add: line_ok_def)
  have "nmea_reader_addcs E ?s cs = Some (set_reader
      (\<lambda>r. r\<lparr>r_in := store (r_in r) (r_pos r) cs, r_pos := r_pos r + length cs\<rparr>) ?s)"
    using Cons.prems l by (intro Cons.IH) simp_all
  then show ?case
    using st by (simp add: a) (rule set_reader_cong, simp)
qed

definition fresh_line :: "GpsState \<Rightarrow> bool" where
  "fresh_line s = (line_ok s \<and> \<not> r_overflow (g_reader s) \<and> r_pos (g_reader s) = 0)"

text \<open>C27: a line of at most 82 characters and its newline, received in any pieces on an empty line
  buffer, is parsed exactly once, as it was sent, and the buffer is empty again.\<close>

theorem sentence_framing:
  assumes "fresh_line s" and "NL \<notin> set line" and "length line \<le> 82"
  shows "nmea_reader_addcs E s (line @ [NL]) =
    map_option (set_reader (\<lambda>r. r\<lparr>r_pos := 0\<rparr>))
      (nmea_reader_parse E (set_reader (\<lambda>r. r\<lparr>r_in := store (r_in r) 0 (line @ [NL]),
         r_pos := length line + 1\<rparr>) s))"
proof -
  let ?s = "set_reader (\<lambda>r. r\<lparr>r_in := store (r_in r) (r_pos r) line, r_pos := r_pos r + length line\<rparr>) s"
  have a: "nmea_reader_addcs E s line = Some ?s"
    using assms by (intro addcs_store) (simp_all add: fresh_line_def NMEA_MAX_SIZE_def)
  have st: "(store (r_in (g_reader s)) 0 line)[length line := NL] =
      store (r_in (g_reader s)) 0 (line @ [NL])"
    using assms by (simp add: store_def fresh_line_def line_ok_def NMEA_MAX_SIZE_def
        list_update_append Cons_nth_drop_Suc [symmetric])
  have "set_reader (\<lambda>r. r\<lparr>r_in := (r_in r)[r_pos r := NL], r_pos := r_pos r + 1\<rparr>) ?s =
      set_reader (\<lambda>r. r\<lparr>r_in := store (r_in r) 0 (line @ [NL]), r_pos := length line + 1\<rparr>) s"
    using assms st by (simp add: fresh_line_def set_reader_def)
  then show ?thesis
    using assms by (simp add: addcs_append a nmea_reader_addc_def Let_def fresh_line_def line_ok_def
        NMEA_MAX_SIZE_def split: option.splits)
qed

lemma addcs_skip:
  "r_overflow (g_reader s) \<Longrightarrow> NL \<notin> set cs \<Longrightarrow>
   nmea_reader_addcs E s (cs @ [NL]) = Some (set_reader (\<lambda>r. r\<lparr>r_overflow := False\<rparr>) s)"
proof (induction cs arbitrary: s)
  case Nil
  then show ?case by (simp add: nmea_reader_addc_def Let_def)
next
  case (Cons c cs)
  let ?s = "set_reader (\<lambda>r. r\<lparr>r_overflow := True\<rparr>) s"
  have "nmea_reader_addc E s c = Some ?s"
    using Cons.prems by (auto simp: nmea_reader_addc_def Let_def)
  moreover have "nmea_reader_addcs E ?s (cs @ [NL]) = Some (set_reader (\<lambda>r. r\<lparr>r_overflow := False\<rparr>) ?s)"
    using Cons.prems by (intro Cons.IH) simp_all
  ultimately show ?case by (simp add: set_reader_def)
qed

text \<open>A line of 83 characters or more is dropped without being parsed. When it has exactly 83,
  its newline is the character that finds the buffer full, so the next line is dropped as well:
  two sentences are lost, and only the contents of the line buffer change.\<close>

theorem long_line_swallows_next:
  assumes "fresh_line s" and "NL \<notin> set line" and "length line = 83" and "NL \<notin> set next"
  shows "nmea_reader_addcs E s (line @ [NL] @ next @ [NL]) =
    Some (set_reader (\<lambda>r. r\<lparr>r_in := store (r_in r) 0 line\<rparr>) s)"
proof -
  let ?s = "set_reader (\<lambda>r. r\<lparr>r_in := store (r_in r) (r_pos r) line, r_pos := r_pos r + length line\<rparr>) s"
  let ?t = "set_reader (\<lambda>r. r\<lparr>r_overflow := True, r_pos := 0\<rparr>) ?s"
  have a: "nmea_reader_addcs E s line = Some ?s"
    using assms by (intro addcs_store) (simp_all add: fresh_line_def NMEA_MAX_SIZE_def)
  have b: "nmea_reader_addc E ?s NL = Some ?t"
    using assms by (simp add: nmea_reader_addc_def Let_def fresh_line_def line_ok_def NMEA_MAX_SIZE_def)
  have c: "nmea_reader_addcs E ?t (next @ [NL]) = Some (set_reader (\<lambda>r. r\<lparr>r_overflow := False\<rparr>) ?t)"
    using assms by (intro addcs_skip) simp_all
  have d: "set_reader (\<lambda>r. r\<lparr>r_overflow := False\<rparr>) ?t =
      set_reader (\<lambda>r. r\<lparr>r_in := store (r_in r) 0 line\<rparr>) s"
    using assms(1) by (simp add: set_reader_def fresh_line_def)
  have e: "nmea_reader_addcs E s (line @ NL # next @ [NL]) =
      nmea_reader_addcs E ?t (next @ [NL])"
    unfolding addcs_append [of E s line] a by (simp only: option.case nmea_reader_addcs.simps b)
  show ?thesis using e c d by simp
qed

section \<open>A concrete connection\<close>

definition demo_state :: GpsState where
  "demo_state =
     \<lparr>g_init = STATE_INIT, g_fd = 7,
      g_callbacks = \<lparr>location_cb = True, status_cb = True, sv_status_cb = True, nmea_cb = True\<rparr>,
      g_thread = True, g_control = Some [], g_fix_freq = 1, g_first_fix = False,
      g_reader = (demo_reader '''')\<lparr>r_in := replicate 84 NUL\<rparr>,
      g_ni_init = False, g_ni_notify = False, sleep_lock = 0, lastcmd = CMD_QUIT,
      bGetFormalNMEA = True, started = False, continue_thread = True, bOrionShutdown = False,
      g_gpscallback = None, g_prop = ''/dev/ttymxc1'', g_log = []\<rparr>"

definition demo_os :: Os where
  "demo_os = \<lparr>os_property = (\<lambda>_. None), os_system = (\<lambda>_. 0), os_open = (\<lambda>_. 7), os_write_ok = True,
     os_time = 1000, os_sem_ok = True, os_socketpair_ok = True, os_thread_ok = True\<rparr>"

lemma demo_fresh: "fresh_line demo_state"
  by (simp add: fresh_line_def line_ok_def demo_state_def demo_reader_def NMEA_MAX_SIZE_def)

theorem line_buffer_safe_witness: "line_ok (the (nmea_reader_addcs demo_env demo_state ''$GP''))"
proof -
  have a: "nmea_reader_addcs demo_env demo_state ''$GP'' =
      Some (the (nmea_reader_addcs demo_env demo_state ''$GP''))"
    using addcs_store [of demo_state "''$GP''" demo_env] demo_fresh
    by (simp add: fresh_line_def NMEA_MAX_SIZE_def)
  show ?thesis
    using line_buffer_safe [OF _ a] demo_fresh by (simp add: fresh_line_def)
qed

theorem sentence_framing_witness:
  "nmea_reader_addcs demo_env demo_state (''$GPZDA'' @ [NL]) =
    map_option (set_reader (\<lambda>r. r\<lparr>r_pos := 0\<rparr>))
      (nmea_reader_parse demo_env (set_reader (\<lambda>r. r\<lparr>r_in := store (r_in r) 0 (''$GPZDA'' @ [NL]),
         r_pos := 7\<rparr>) demo_state))"
  using sentence_framing [OF demo_fresh, of "''$GPZDA''" demo_env] by (simp add: numeral_eq_Suc)

theorem long_line_swallows_next_witness:
  "nmea_reader_addcs demo_env demo_state (replicate 83 (CHR ''x'') @ [NL] @ ''$GPRMC'' @ [NL]) =
    Some (set_reader (\<lambda>r. r\<lparr>r_in := store (r_in r) 0 (replicate 83 (CHR ''x''))\<rparr>) demo_state)"
  using long_line_swallows_next [OF demo_fresh, of "replicate 83 (CHR ''x'')" "''$GPRMC''" demo_env]
  by simp

section \<open>Reporting, waiting, stopping\<close>

text \<open>A fix and a change of the satellites are reported once: a second round of the reporting
  thread with no new sentence in between changes nothing and calls nobody.\<close>

theorem timer_report_once: "timer_report (timer_report s) = timer_report s"
  by (simp add: timer_report_def Let_def set_reader_def emit_def clear_flags_def)

lemma nmea_wait_bound:
  "gap \<le> 100 \<Longrightarrow> (case nmea_wait oth gap s of (n, s') \<Rightarrow> n \<le> 101 \<and> (n = 101 \<or> \<not> nmea_awaited s'))"
proof (induction oth gap s rule: nmea_wait.induct)
  case (1 oth gap s)
  show ?case
  proof (cases "nmea_awaited s \<and> gap + 1 \<le> 100")
    case True
    then show ?thesis using 1 by (subst nmea_wait.simps) simp
  next
    case False
    then show ?thesis using "1.prems" by (subst nmea_wait.simps) auto
  qed
qed

text \<open>The wait for a first sentence ends whatever the other threads do: after at most 101 naps,
  and before that only when what it waits for has happened.\<close>

theorem nmea_wait_terminates:
  "case nmea_wait oth 0 s of (n, s') \<Rightarrow> if nmea_awaited s' then n = 101 else n \<le> 101"
  using nmea_wait_bound [of 0 oth s] by (auto split: prod.splits)

lemma gps_closetty_fd [simp]: "g_fd (gps_closetty s) = - 1"
  by (simp add: gps_closetty_def)

lemma closetty_frame [simp]:
  "started (gps_closetty s) = started s" "sleep_lock (gps_closetty s) = sleep_lock s"
  "g_init (gps_closetty s) = g_init s"
  by (simp_all add: gps_closetty_def)

lemma gps_sleep_stopped:
  "\<not> started (gps_sleep os s) \<and> sleep_lock (gps_sleep os s) = 0 \<and> g_fd (gps_sleep os s) = - 1"
  by (simp add: gps_sleep_def Let_def)

text \<open>A pending stop is decided on the state after the wait. A start that arrived during the
  wait keeps the receiver on (nothing is written to it, the session stays started); otherwise the
  session ends with the device closed and the next wake up allowed.\<close>

theorem stop_decision:
  assumes "stop_pending s" and "nmea_wait oth 0 s = (gap, s1)"
  shows "if stop_pending s1
    then \<not> started (timer_stop os oth s) \<and> sleep_lock (timer_stop os oth s) = 0 \<and>
      g_fd (timer_stop os oth s) = - 1
    else g_log (timer_stop os oth s) = g_log s1 \<and> started (timer_stop os oth s) = started s1 \<and>
      g_fd (timer_stop os oth s) = g_fd s1"
  using assms gps_sleep_stopped [of os]
  by (simp add: timer_stop_def Let_def stop_pending_def)

theorem stop_decision_witness:
  "\<not> started (timer_stop demo_os (\<lambda>k s. s) (demo_state\<lparr>started := True, lastcmd := CMD_STOP\<rparr>))"
proof -
  let ?s = "demo_state\<lparr>started := True, lastcmd := CMD_STOP\<rparr>"
  have p: "stop_pending ?s" by (simp add: stop_pending_def demo_state_def)
  have w: "nmea_wait (\<lambda>k s. s) 0 ?s = (0, ?s)"
    by (subst nmea_wait.simps) (simp add: nmea_awaited_def demo_state_def)
  show ?thesis using stop_decision [OF p w, of demo_os] p by simp
qed

section \<open>Commands\<close>

lemma wakeup_frame [simp]:
  "started (gps_wakeup os s) = started s" "g_init (gps_wakeup os s) = g_init s"
  by (simp_all add: gps_wakeup_def gps_opentty_def write_power_def Let_def)

lemma cmd_when_started:
  "started s \<Longrightarrow> list_all (\<lambda>c. c \<noteq> CMD_QUIT) cs \<Longrightarrow>
   started (foldl (gps_thread_cmd E os) s cs) \<and>
   g_init (foldl (gps_thread_cmd E os) s cs) = (if CMD_STOP \<in> set cs then STATE_INIT else g_init s) \<and>
   g_log (foldl (gps_thread_cmd E os) s cs) = g_log s"
proof (induction cs arbitrary: s)
  case Nil
  then show ?case by simp
next
  case (Cons c cs)
  then show ?case by (cases c) (auto simp: gps_thread_cmd_def)
qed

text \<open>The control thread wakes the receiver once per session: after the first start, further
  starts and stops write nothing to the device; and once a stop was taken, a later start does not
  bring the state back to \<open>STATE_START\<close>, because \<open>started\<close> is still set.\<close>

theorem start_wakes_once:
  fixes E :: Env and os :: Os and s :: GpsState and cs :: "gps_cmd list"
  assumes "\<not> started s" and "list_all (\<lambda>c. c \<noteq> CMD_QUIT) cs"
  defines "s' \<equiv> foldl (gps_thread_cmd E os) s (CMD_START # cs)"
  shows "started s' \<and> g_log s' = g_log (gps_thread_cmd E os s CMD_START) \<and>
    g_init s' = (if CMD_STOP \<in> set cs then STATE_INIT else STATE_START)"
  using cmd_when_started [of "gps_thread_cmd E os s CMD_START" cs E os] assms
  by (simp add: gps_thread_cmd_def)

theorem start_wakes_once_witness:
  "g_init (foldl (gps_thread_cmd demo_env demo_os) demo_state [CMD_START, CMD_STOP, CMD_START]) = STATE_INIT"
  using start_wakes_once [of demo_state "[CMD_STOP, CMD_START]" demo_env demo_os]
  by (simp add: demo_state_def)

text \<open>The serial device is always the one the kernel names. The mode property has the default
  "hosted", so reading it never returns an empty value and the branch for the node that a user
  configures is never taken.\<close>

theorem hosted_node_ignored:
  "gps_device_property os = property_get os ''ro.kernel.android.gps'' ''''"
  by (simp add: gps_device_property_def property_get_def Let_def split: option.splits)

text \<open>Without a device name the connection is not opened (no thread, no control socket), yet
  it counts as initialized: init and start report success, and the start command is lost.\<close>

theorem init_without_device:
  fixes E :: Env and os :: Os and s :: GpsState and cbs :: GpsCallbacks
  assumes "gps_device_property os = []" and "g_init s = STATE_QUIT" and "os_sem_ok os"
  defines "s1 \<equiv> snd (athr_gps_init E os cbs s)"
  shows "fst (athr_gps_init E os cbs s) = 0 \<and> fst (athr_gps_start E os s1) = 0 \<and>
    g_control (snd (athr_gps_start E os s1)) = None \<and> g_thread s1 = g_thread s \<and>
    started (snd (athr_gps_start E os s1)) = started s"
  using assms
  by (simp add: s1_def athr_gps_init_def gps_state_init_def Let_def athr_gps_start_def
      gps_checkstate_def gps_state_start_def send_ctl_def status_callback_def)

theorem init_without_device_witness:
  "g_control (snd (athr_gps_start demo_env demo_os (snd (athr_gps_init demo_env demo_os zero_callbacks
      (demo_state\<lparr>g_init := STATE_QUIT\<rparr>))))) = None"
  using init_without_device [of demo_os "demo_state\<lparr>g_init := STATE_QUIT\<rparr>" demo_env zero_callbacks]
  by (simp add: demo_os_def gps_device_property_def property_get_def)

text \<open>The power commands carry the checksum the receiver expects; the rate commands do not,
  their text ends with the two letters cc.\<close>

theorem command_checksums:
  "gps_dev_calc_nmea_csum wakeup_msg = 0x2C \<and> gps_dev_calc_nmea_csum sleep_msg = 0x7E \<and>
   gps_dev_calc_nmea_csum (rate_msg ''5'') = 0x49 \<and> gps_dev_calc_nmea_csum (rate_msg ''15'') = 0x49"
  by (simp add: gps_dev_calc_nmea_csum_def wakeup_msg_def sleep_msg_def rate_msg_def code_def)

text \<open>When every write takes some characters of a message that is not empty, the message is sent whole and in order.\<close>

lemma send_loop_whole:
  assumes "\<And>k s. s \<noteq> [] \<Longrightarrow> \<exists>r. wr k s = Some r \<and> 1 \<le> r \<and> r \<le> int (length s)" and "n < length msg"
  shows "gps_dev_send_loop wr k msg n (take n msg) = Some msg"
  using assms(2)
proof (induction "length msg - n" arbitrary: n k rule: less_induct)
  case less
  obtain r where r: "wr k (drop n msg) = Some r" "1 \<le> r" "r \<le> int (length msg - n)"
    using assms(1) [of "drop n msg" k] less.prems by auto
  have t: "take n msg @ take (nat r) (drop n msg) = take (nat (int n + r)) msg"
    using r(2) by (simp add: take_add [symmetric] nat_add_distrib)
  show ?case
  proof (cases "int n + r < int (length msg)")
    case True
    then have "gps_dev_send_loop wr (Suc k) msg (nat (int n + r)) (take (nat (int n + r)) msg) = Some msg"
      using less.prems r(2) by (intro less.hyps) auto
    then show ?thesis using True r(1,2) t by (subst gps_dev_send_loop.simps) simp
  next
    case False
    then have "take (nat (int n + r)) msg = msg" by simp
    then show ?thesis using False r(1,2) t by (subst gps_dev_send_loop.simps) simp
  qed
qed

lemma gps_dev_send_whole:
  "(\<And>k s. s \<noteq> [] \<Longrightarrow> \<exists>r. wr k s = Some r \<and> 1 \<le> r \<and> r \<le> int (length s)) \<Longrightarrow> msg \<noteq> [] \<Longrightarrow> gps_dev_send wr msg = Some msg"
  using send_loop_whole [of wr 0 msg 0] by (simp add: gps_dev_send_def)

text \<open>A first write that fails makes the next one start before the message.\<close>

lemma gps_dev_send_failure: "wr 0 msg = Some (- 1) \<Longrightarrow> gps_dev_send wr msg = None"
  unfolding gps_dev_send_def by (subst gps_dev_send_loop.simps) simp

end
