(* ===== verification/Td3020.thy ===== *)
theory Td3020
  imports Gps_State
begin

text \<open>
  The second GPS driver, \<open>src/libgps/td3020c.c\<close>, for a receiver of BeiDou and GPS. Its tokenizer, its functions for one
  quantity of a sentence and its branches for GGA, GLL, GSA, GSV and RMC are those of \<open>athr_gps.c\<close>, line by line, and
  are used from \<open>Nmea_Token\<close> and \<open>Nmea_Reader\<close>; so are the types of callbacks, commands and events of
  \<open>Gps_State\<close>. Modelled here is what is its own: the dispatch, the serial device, the commands to the receiver, the two
  threads (there is no timer thread) and the interface.
\<close>

section \<open>State\<close>

datatype gnss = GNSS_BD | GNSS_GPS | GNSS_GLONASS | GNSS_GALILEO | GNSS_MULTI

record TdState =
  td_init :: run_state
  td_fd :: int
  td_callbacks :: GpsCallbacks
  td_thread :: bool
  td_control :: "gps_cmd list option"
  td_fix_freq :: int
  td_first_fix :: bool
  td_reader :: NmeaReader
  td_sleep_lock :: int
  td_lastcmd :: gps_cmd
  td_started :: bool
  td_continue :: bool
  td_format :: gnss
  td_gpscallback :: "GpsCallbacks option"
  td_log :: "gps_event list"

text \<open>The system, and whether the thread that reads can be made.\<close>

record Td_Os = Os +
  os_nmea_thread_ok :: bool

definition td_emit :: "gps_event \<Rightarrow> TdState \<Rightarrow> TdState" where
  "td_emit e s = s\<lparr>td_log := td_log s @ [e]\<rparr>"

definition td_status :: "gps_status \<Rightarrow> TdState \<Rightarrow> TdState" where
  "td_status st s = (if status_cb (td_callbacks s) then td_emit (CbStatus st) s else s)"

definition td_set_reader :: "(NmeaReader \<Rightarrow> NmeaReader) \<Rightarrow> TdState \<Rightarrow> TdState" where
  "td_set_reader f s = s\<lparr>td_reader := f (td_reader s)\<rparr>"

section \<open>Sentences\<close>

text \<open>The kind of satellites from the first two characters; an unknown one keeps the last.\<close>

definition td_gnss :: "string \<Rightarrow> Token \<Rightarrow> gnss \<Rightarrow> gnss" where
  "td_gnss buf tok old =
     (if tok_is buf tok 0 ''BD'' then GNSS_BD
      else if tok_is buf tok 0 ''GP'' then GNSS_GPS
      else if tok_is buf tok 0 ''GL'' then GNSS_GLONASS
      else if tok_is buf tok 0 ''GA'' then GNSS_GALILEO
      else if tok_is buf tok 0 ''GN'' then GNSS_MULTI
      else old)"

definition td_dispatch :: "Env \<Rightarrow> Token list \<Rightarrow> NmeaReader \<Rightarrow> NmeaReader option" where
  "td_dispatch E tz r =
     (let buf = r_in r; tok = nmea_tokenizer_get tz 0 in
      if tok_is buf tok 2 ''GGA'' then Some (parse_gga E tz r)
      else if tok_is buf tok 2 ''GLL'' then Some (parse_gll E tz r)
      else if tok_is buf tok 2 ''GSA'' then Some (parse_gsa tz r)
      else if tok_is buf tok 2 ''GSV'' then parse_gsv E tz r
      else if tok_is buf tok 2 ''RMC'' then Some (parse_rmc E tz r)
      else Some r)"

definition td_reader_parse :: "Env \<Rightarrow> TdState \<Rightarrow> TdState option" where
  "td_reader_parse E s =
     (let r = td_reader s in
      if r_pos r < 9 then Some s
      else
        (let s1 = (if nmea_cb (td_callbacks s)
                   then td_emit (CbNmea (env_now_ms E) (take (r_pos r) (r_in r))) s else s);
             tz = nmea_tokenizer_init (r_in r) 0 (r_pos r);
             s2 = s1\<lparr>td_format := td_gnss (r_in r) (nmea_tokenizer_get tz 0) (td_format s1)\<rparr>
         in map_option (\<lambda>r'. s2\<lparr>td_reader := r'\<rparr>) (td_dispatch E tz r)))"

definition td_reader_addc :: "Env \<Rightarrow> TdState \<Rightarrow> char \<Rightarrow> TdState option" where
  "td_reader_addc E s c =
     (let r = td_reader s in
      if r_overflow r then Some (td_set_reader (\<lambda>r. r\<lparr>r_overflow := (c \<noteq> NL)\<rparr>) s)
      else if length (r_in r) - 1 \<le> r_pos r
      then Some (td_set_reader (\<lambda>r. r\<lparr>r_overflow := True, r_pos := 0\<rparr>) s)
      else
        (let s1 = td_set_reader (\<lambda>r. r\<lparr>r_in := (r_in r)[r_pos r := c], r_pos := r_pos r + 1\<rparr>) s in
         if c = NL
         then map_option (td_set_reader (\<lambda>r. r\<lparr>r_pos := 0\<rparr>)) (td_reader_parse E s1)
         else Some s1))"

definition td_reader_addcs :: "Env \<Rightarrow> string \<Rightarrow> TdState \<Rightarrow> TdState option" where
  "td_reader_addcs E = foldM (\<lambda>c s. td_reader_addc E s c)"

section \<open>The serial device and the receiver\<close>

definition td_closetty :: "TdState \<Rightarrow> TdState" where
  "td_closetty s = (if td_fd s \<noteq> - 1 then (td_emit CloseTty s)\<lparr>td_fd := - 1\<rparr> else s)"

text \<open>Without the property the descriptor is left as it is. The settings of the line are not modelled.\<close>

definition td_opentty :: "'a Os_scheme \<Rightarrow> TdState \<Rightarrow> int \<times> TdState" where
  "td_opentty os s =
     (let prop = (case os_property os ''ro.kernel.android.gps'' of None \<Rightarrow> [] | Some v \<Rightarrow> v) in
      if prop = [] then (- 1, s)
      else
        (let s1 = (if td_fd s \<noteq> - 1 then td_closetty s else s);
             fd = os_open os prop;
             device = ''/dev/'' @ prop @ ''0''
         in if 0 \<le> fd then (0, td_emit (OpenTty prop) (s1\<lparr>td_fd := fd\<rparr>))
            else if 256 \<le> length device then (- 1, s1\<lparr>td_fd := fd\<rparr>)
            else if os_open os device < 0 then (- 1, s1\<lparr>td_fd := os_open os device\<rparr>)
            else (0, td_emit (OpenTty device) (s1\<lparr>td_fd := os_open os device\<rparr>))))"

definition td_write :: "'a Os_scheme \<Rightarrow> string \<Rightarrow> TdState \<Rightarrow> TdState" where
  "td_write os msg s = (if os_write_ok os \<and> 0 \<le> td_fd s then td_emit (Write msg) s else s)"

definition TD3020C_GN_MODE :: string where
  "TD3020C_GN_MODE = ''$CCSIR,3,0*4B'' @ [CR, NL]"

definition td_rate_msg :: "string \<Rightarrow> string" where
  "td_rate_msg t = ''$PCAS02,'' @ t @ [CR, NL]"

definition td_wakeup :: "'a Os_scheme \<Rightarrow> TdState \<Rightarrow> TdState" where
  "td_wakeup os s =
     (if td_sleep_lock s = 0 then
        (let s1 = (snd (td_opentty os s))\<lparr>td_sleep_lock := os_time os\<rparr>
         in td_write os (td_rate_msg ''1000*2E'') (td_write os TD3020C_GN_MODE s1))
      else s)"

definition td_sleep :: "'a Os_scheme \<Rightarrow> TdState \<Rightarrow> TdState" where
  "td_sleep os s =
     td_closetty ((if td_fd s = - 1 then snd (td_opentty os s) else s)\<lparr>td_started := False, td_sleep_lock := 0\<rparr>)"

section \<open>The threads\<close>

definition td_send :: "gps_cmd \<Rightarrow> TdState \<Rightarrow> TdState" where
  "td_send c s = s\<lparr>td_control := map_option (\<lambda>q. q @ [c]) (td_control s)\<rparr>"

definition td_state_start :: "TdState \<Rightarrow> TdState" where
  "td_state_start s = td_send CMD_START (s\<lparr>td_lastcmd := CMD_START\<rparr>)"

definition td_state_stop :: "TdState \<Rightarrow> TdState" where
  "td_state_stop s = td_send CMD_STOP (s\<lparr>td_lastcmd := CMD_STOP\<rparr>)"

text \<open>What the control thread does first; without a reading thread it ends at once.\<close>

definition td_thread_begin :: "Td_Os \<Rightarrow> TdState \<Rightarrow> TdState" where
  "td_thread_begin os s =
     s\<lparr>td_started := False, td_init := STATE_INIT, td_continue := (td_continue s \<and> os_nmea_thread_ok os)\<rparr>"

definition td_thread_cmd :: "Env \<Rightarrow> 'a Os_scheme \<Rightarrow> TdState \<Rightarrow> gps_cmd \<Rightarrow> TdState" where
  "td_thread_cmd E os s c =
     (case c of
        CMD_QUIT \<Rightarrow> s\<lparr>td_continue := False\<rparr>
      | CMD_START \<Rightarrow>
          (if \<not> td_started s
           then td_wakeup os ((td_set_reader (nmea_reader_init E) s)\<lparr>td_started := True, td_init := STATE_START\<rparr>)
           else s)
      | CMD_STOP \<Rightarrow> (if td_started s then s\<lparr>td_init := STATE_INIT\<rparr> else s))"

definition td_thread_step :: "Env \<Rightarrow> 'a Os_scheme \<Rightarrow> TdState \<Rightarrow> TdState" where
  "td_thread_step E os s =
     (case td_control s of
        Some (c # q) \<Rightarrow> if td_continue s then td_thread_cmd E os (s\<lparr>td_control := Some q\<rparr>) c else s
      | _ \<Rightarrow> s)"

definition td_nmea_thread_step :: "Env \<Rightarrow> 'a Os_scheme \<Rightarrow> read_result \<Rightarrow> TdState \<Rightarrow> TdState option" where
  "td_nmea_thread_step E os rd s =
     (if \<not> td_continue s \<or> td_sleep_lock s = 0 then Some s
      else if td_fd s = - 1 then Some (snd (td_opentty os (td_status SESSION_END s)))
      else
        (case rd of
           NoData \<Rightarrow> Some s
         | ReadErr \<Rightarrow> Some (td_status SESSION_END (td_closetty s))
         | Data buf \<Rightarrow> td_reader_addcs E buf s))"

section \<open>Opening and closing\<close>

definition td_zero_reader :: "NmeaReader \<Rightarrow> NmeaReader" where
  "td_zero_reader r =
     r\<lparr>r_pos := 0, r_overflow := False, r_utc_year := 0, r_utc_mon := 0, r_utc_day := 0, r_utc_diff := 0, r_fix := zero_fix,
       r_sv_status := \<lparr>num_svs = 0, sv_list = map (\<lambda>_. zero_sv) (sv_list (r_sv_status r)), used_in_fix_mask = 0\<rparr>,
       r_sv_status_changed := False, r_in := replicate (length (r_in r)) NUL, r_gsa_fixed := False\<rparr>"

text \<open>The control thread, when it runs, takes what is queued; then \<open>memset (s, 0, sizeof (*s))\<close>.\<close>

definition td_join :: "Env \<Rightarrow> 'a Os_scheme \<Rightarrow> TdState \<Rightarrow> TdState" where
  "td_join E os s =
     (case td_control s of
        Some q \<Rightarrow> if td_thread s \<and> td_continue s then foldl (td_thread_cmd E os) s q else s
      | None \<Rightarrow> s)"

definition td_state_done :: "Env \<Rightarrow> 'a Os_scheme \<Rightarrow> TdState \<Rightarrow> TdState" where
  "td_state_done E os s =
     (let s1 = td_join E os (td_sleep os (td_send CMD_QUIT s))
      in s1\<lparr>td_init := STATE_QUIT, td_fd := 0, td_callbacks := zero_callbacks, td_thread := False, td_control := None,
            td_fix_freq := 0, td_first_fix := False, td_reader := td_zero_reader (td_reader s1), td_gpscallback := None\<rparr>)"

definition td_state_init :: "Env \<Rightarrow> Td_Os \<Rightarrow> TdState \<Rightarrow> TdState" where
  "td_state_init E os s0 =
     (let s = s0\<lparr>td_init := STATE_INIT, td_control := None, td_fd := - 1, td_fix_freq := - 1, td_first_fix := False,
                 td_continue := True\<rparr>
      in if \<not> os_sem_ok os then s
         else if \<not> os_socketpair_ok os then td_state_done E os s
         else
           (let s1 = s\<lparr>td_control := Some []\<rparr> in
            if \<not> os_thread_ok os then td_state_done E os s1
            else td_emit CbCapabilities (td_thread_begin os (s1\<lparr>td_thread := True\<rparr>))))"

section \<open>The interface\<close>

definition td3020c_gps_init :: "Env \<Rightarrow> Td_Os \<Rightarrow> GpsCallbacks \<Rightarrow> TdState \<Rightarrow> int \<times> TdState" where
  "td3020c_gps_init E os cbs s =
     (let s1 = s\<lparr>td_callbacks := cbs\<rparr>;
          s2 = (if td_init s1 = STATE_QUIT then td_state_init E os s1 else s1)
      in (0, if td_gpscallback s2 = None then s2\<lparr>td_gpscallback := Some cbs\<rparr> else s2))"

definition td3020c_gps_cleanup :: "Env \<Rightarrow> Td_Os \<Rightarrow> TdState \<Rightarrow> TdState" where
  "td3020c_gps_cleanup E os s = (if td_init s = STATE_QUIT then s else td_state_done E os s)"

definition td_checkstate :: "Env \<Rightarrow> Td_Os \<Rightarrow> TdState \<Rightarrow> int \<times> TdState" where
  "td_checkstate E os s =
     (if td_init s = STATE_QUIT then
        (let s1 = (case td_gpscallback s of None \<Rightarrow> s | Some cbs \<Rightarrow> snd (td3020c_gps_init E os cbs s))
         in if td_init s1 = STATE_QUIT then (- 1, s1) else (0, s1))
      else (0, s))"

definition td3020c_gps_start :: "Env \<Rightarrow> Td_Os \<Rightarrow> TdState \<Rightarrow> int \<times> TdState" where
  "td3020c_gps_start E os s =
     (case td_checkstate E os s of
        (rc, s1) \<Rightarrow> if rc = - 1 then (- 1, s1) else (0, td_status SESSION_BEGIN (td_state_start s1)))"

definition td3020c_gps_stop :: "Env \<Rightarrow> Td_Os \<Rightarrow> TdState \<Rightarrow> int \<times> TdState" where
  "td3020c_gps_stop E os s =
     (case td_checkstate E os s of
        (rc, s1) \<Rightarrow> if rc = - 1 then (- 1, s1) else (0, td_status SESSION_END (td_state_stop s1)))"

text \<open>Every position mode is taken as standalone. The interval is rounded down to seconds.\<close>

definition td3020c_set_position_mode :: "'a Os_scheme \<Rightarrow> u32 \<Rightarrow> TdState \<Rightarrow> int \<times> TdState" where
  "td3020c_set_position_mode os min_interval s =
     (if td_init s = STATE_QUIT then (- 1, s)
      else
        (let f = sint (min_interval div 1000);
             freq = (if f = 0 then 1 else f);
             msg = (if freq = 2 then td_rate_msg ''2000*2D'' else if freq = 3 then td_rate_msg ''3000*2C''
                    else if freq = 4 then td_rate_msg ''4000*2B'' else td_rate_msg ''1000*2E'')
         in (0, td_write os msg (s\<lparr>td_fix_freq := freq\<rparr>))))"

section \<open>Sequences of operations\<close>

datatype td_op = TdInit GpsCallbacks | TdCleanup | TdStart | TdStop | TdMode u32 | TdControl | TdRead read_result

text \<open>Each operation finds the clock and the system as they are at its time.\<close>

fun td_step :: "Env \<times> Td_Os \<times> td_op \<Rightarrow> TdState \<Rightarrow> TdState option" where
  "td_step (E, os, TdInit cbs) s = Some (snd (td3020c_gps_init E os cbs s))"
| "td_step (E, os, TdCleanup) s = Some (td3020c_gps_cleanup E os s)"
| "td_step (E, os, TdStart) s = Some (snd (td3020c_gps_start E os s))"
| "td_step (E, os, TdStop) s = Some (snd (td3020c_gps_stop E os s))"
| "td_step (E, os, TdMode n) s = Some (snd (td3020c_set_position_mode os n s))"
| "td_step (E, os, TdControl) s = Some (td_thread_step E os s)"
| "td_step (E, os, TdRead rd) s = td_nmea_thread_step E os rd s"

definition td_run :: "(Env \<times> Td_Os \<times> td_op) list \<Rightarrow> TdState \<Rightarrow> TdState option" where
  "td_run = foldM td_step"

text \<open>Every command the driver sends carries the checksum of its characters (those of \<open>athr_gps.c\<close> do not).\<close>

lemma td_checksums:
  "gps_dev_calc_nmea_csum TD3020C_GN_MODE = 0x4B \<and> gps_dev_calc_nmea_csum (td_rate_msg ''1000*2E'') = 0x2E \<and>
   gps_dev_calc_nmea_csum (td_rate_msg ''2000*2D'') = 0x2D \<and> gps_dev_calc_nmea_csum (td_rate_msg ''3000*2C'') = 0x2C \<and>
   gps_dev_calc_nmea_csum (td_rate_msg ''4000*2B'') = 0x2B"
  by (simp add: gps_dev_calc_nmea_csum_def TD3020C_GN_MODE_def td_rate_msg_def code_def)

section \<open>Nothing is reported, and the line stays in its buffer\<close>

fun reports :: "gps_event \<Rightarrow> bool" where
  "reports (CbLocation f) = True"
| "reports (CbSvStatus v) = True"
| "reports e = False"

definition td_safe :: "TdState \<Rightarrow> bool" where
  "td_safe s =
     (length (r_in (td_reader s)) = NMEA_MAX_SIZE + 1 \<and> r_pos (td_reader s) \<le> NMEA_MAX_SIZE \<and>
      list_all (\<lambda>e. \<not> reports e) (td_log s))"

lemma td_safe_frame [simp]:
  "td_safe (s\<lparr>td_init := i\<rparr>) = td_safe s" "td_safe (s\<lparr>td_fd := n\<rparr>) = td_safe s" "td_safe (s\<lparr>td_callbacks := cb\<rparr>) = td_safe s"
  "td_safe (s\<lparr>td_thread := x\<rparr>) = td_safe s" "td_safe (s\<lparr>td_control := q\<rparr>) = td_safe s" "td_safe (s\<lparr>td_fix_freq := f\<rparr>) = td_safe s"
  "td_safe (s\<lparr>td_first_fix := x\<rparr>) = td_safe s" "td_safe (s\<lparr>td_sleep_lock := l\<rparr>) = td_safe s" "td_safe (s\<lparr>td_lastcmd := c\<rparr>) = td_safe s"
  "td_safe (s\<lparr>td_started := x\<rparr>) = td_safe s" "td_safe (s\<lparr>td_continue := x\<rparr>) = td_safe s" "td_safe (s\<lparr>td_format := g\<rparr>) = td_safe s"
  "td_safe (s\<lparr>td_gpscallback := o'\<rparr>) = td_safe s"
  by (simp_all add: td_safe_def)

lemma td_emit_safe [simp]: "td_safe (td_emit e s) = (td_safe s \<and> \<not> reports e)"
  by (auto simp: td_safe_def td_emit_def)

lemma td_basic_safe [simp]:
  "td_safe (td_status st s) = td_safe s" "td_safe (td_closetty s) = td_safe s" "td_safe (snd (td_opentty os s)) = td_safe s"
  "td_safe (td_write os m s) = td_safe s" "td_safe (td_send c s) = td_safe s" "td_safe (td_sleep os s) = td_safe s"
  "td_safe (td_wakeup os s) = td_safe s" "td_safe (td_state_start s) = td_safe s" "td_safe (td_state_stop s) = td_safe s"
  by (simp_all add: td_status_def td_closetty_def td_opentty_def td_write_def td_send_def td_sleep_def td_wakeup_def
      td_state_start_def td_state_stop_def Let_def)

lemma reader_init_in: "length (r_in (nmea_reader_init E r)) = NMEA_MAX_SIZE + 1 \<and> r_pos (nmea_reader_init E r) = 0"
  by (simp add: nmea_reader_init_def nmea_reader_update_utc_diff_def Let_def)

lemma td_cmd_safe: "td_safe s \<Longrightarrow> td_safe (td_thread_cmd E os s c)"
proof -
  assume "td_safe s"
  then have "td_safe (td_set_reader (nmea_reader_init E) s)"
    by (simp add: td_safe_def td_set_reader_def reader_init_in)
  then show ?thesis using \<open>td_safe s\<close> by (cases c) (simp_all add: td_thread_cmd_def)
qed

lemma td_cmds_safe: "td_safe s \<Longrightarrow> td_safe (foldl (td_thread_cmd E os) s cs)"
  by (induction cs arbitrary: s) (simp_all add: td_cmd_safe)

lemma td_done_safe: "td_safe s \<Longrightarrow> td_safe (td_state_done E os s)"
proof -
  assume "td_safe s"
  then have "td_safe (td_join E os (td_sleep os (td_send CMD_QUIT s)))"
    by (simp add: td_join_def td_cmds_safe split: option.splits)
  then show ?thesis by (simp add: td_state_done_def Let_def) (simp add: td_safe_def td_zero_reader_def)
qed

lemma td_init_safe: "td_safe s \<Longrightarrow> td_safe (snd (td3020c_gps_init E os cbs s))"
  by (simp add: td3020c_gps_init_def td_state_init_def td_thread_begin_def td_done_safe Let_def)

lemma td_check_safe: "td_safe s \<Longrightarrow> td_safe (snd (td_checkstate E os s))"
  by (simp add: td_checkstate_def td_init_safe Let_def split: option.splits)

lemma td_call_safe:
  assumes "td_safe s"
  shows "td_safe (snd (td3020c_gps_start E os s))" "td_safe (snd (td3020c_gps_stop E os s))"
  using td_check_safe [OF assms, of E os]
  by (auto simp: td3020c_gps_start_def td3020c_gps_stop_def split: prod.splits)

lemma td_dispatch_in: "td_dispatch E tz r = Some r' \<Longrightarrow> r_in r' = r_in r"
  by (auto simp: td_dispatch_def Let_def parse_gsv_in split: if_splits)

lemma td_addc_safe: "td_safe s \<Longrightarrow> td_reader_addc E s c = Some s' \<Longrightarrow> td_safe s'"
  by (auto simp: td_reader_addc_def td_reader_parse_def td_safe_def td_set_reader_def td_emit_def Let_def dest!: td_dispatch_in
      split: if_splits)

interpretation td_line: partial_stepper "\<lambda>c s. td_reader_addc E s c" td_safe for E
  by unfold_locales (rule td_addc_safe)

lemma td_step_safe:
  assumes "td_safe s" and "td_step x s = Some s'"
  shows "td_safe s'"
proof (cases "(x, s)" rule: td_step.cases)
  case (7 E os rd s0)
  then show ?thesis using assms td_line.prun_inv [of s E]
    by (auto simp: td_nmea_thread_step_def td_reader_addcs_def split: if_splits read_result.splits)
qed (use assms in \<open>auto simp: td_init_safe td3020c_gps_cleanup_def td_done_safe td_call_safe td3020c_set_position_mode_def
      td_thread_step_def td_cmd_safe Let_def split: list.splits option.splits\<close>)

interpretation td: partial_stepper td_step td_safe
  by unfold_locales (rule td_step_safe)

text \<open>C23: Whatever happens, the driver never reports a location or satellites: it parses sentences into its reader and
  calls neither callback (there is no timer thread that would). The lines from the receiver stay in the buffer of 84
  characters.\<close>

theorem td_reports_nothing:
  assumes "length (r_in (td_reader s)) = NMEA_MAX_SIZE + 1" and "r_pos (td_reader s) = 0" and "td_log s = []"
    and "td_run xs s = Some s'"
  shows "(\<forall>e \<in> set (td_log s'). \<not> reports e) \<and> r_pos (td_reader s') < length (r_in (td_reader s'))"
proof -
  have "td_safe s" using assms by (simp add: td_safe_def)
  then have "td_safe s'" using assms(4) unfolding td_run_def by (rule td.prun_inv)
  then show ?thesis by (simp add: td_safe_def list_all_iff)
qed

section \<open>A stop that stops nothing\<close>

definition td_on :: "TdState \<Rightarrow> bool" where
  "td_on s = (td_init s \<noteq> STATE_QUIT \<and> td_started s \<and> td_sleep_lock s \<noteq> 0)"

lemma td_on_frame [simp]:
  "td_on (td_emit e s) = td_on s" "td_on (td_set_reader f s) = td_on s" "td_on (td_status st s) = td_on s"
  "td_on (td_closetty s) = td_on s" "td_on (snd (td_opentty os s)) = td_on s" "td_on (td_write os m s) = td_on s"
  "td_on (td_send c s) = td_on s" "td_on (td_state_start s) = td_on s" "td_on (td_state_stop s) = td_on s"
  "td_on (s\<lparr>td_callbacks := cb\<rparr>) = td_on s" "td_on (s\<lparr>td_control := q\<rparr>) = td_on s" "td_on (s\<lparr>td_fix_freq := n\<rparr>) = td_on s"
  "td_on (s\<lparr>td_continue := x\<rparr>) = td_on s" "td_on (s\<lparr>td_format := g\<rparr>) = td_on s" "td_on (s\<lparr>td_gpscallback := o'\<rparr>) = td_on s"
  "td_on (s\<lparr>td_reader := r\<rparr>) = td_on s"
  by (simp_all add: td_on_def td_emit_def td_set_reader_def td_status_def td_closetty_def td_opentty_def td_write_def td_send_def
      td_state_start_def td_state_stop_def Let_def)

lemma td_cmd_on: "td_on s \<Longrightarrow> td_on (td_thread_cmd E os s c)"
  by (cases c) (auto simp: td_thread_cmd_def td_on_def)

lemma td_addc_on: "td_on s \<Longrightarrow> td_reader_addc E s c = Some s' \<Longrightarrow> td_on s'"
  by (auto simp: td_reader_addc_def td_reader_parse_def Let_def split: if_splits)

interpretation td_kept: partial_stepper "\<lambda>c s. td_reader_addc E s c" td_on for E
  by unfold_locales (rule td_addc_on)

lemma td_on_check: "td_on s \<Longrightarrow> td_checkstate E os s = (0, s)"
  by (simp add: td_on_def td_checkstate_def)

lemma td_on_step:
  assumes "td_on s" and "snd (snd x) \<noteq> TdCleanup" and "td_step x s = Some s'"
  shows "td_on s'"
proof (cases "(x, s)" rule: td_step.cases)
  case (1 E os cbs s0)
  then have "td_init (s\<lparr>td_callbacks := cbs\<rparr>) \<noteq> STATE_QUIT" using assms(1) by (simp add: td_on_def)
  then show ?thesis using assms 1 by (auto simp: td3020c_gps_init_def Let_def)
next
  case (7 E os rd s0)
  then show ?thesis using assms td_kept.prun_inv [of s E]
    by (auto simp: td_nmea_thread_step_def td_reader_addcs_def split: if_splits read_result.splits)
qed (use assms in \<open>auto simp: td3020c_gps_start_def td3020c_gps_stop_def td_on_check td3020c_set_position_mode_def td_thread_step_def
      td_cmd_on Let_def split: list.splits option.splits\<close>)

text \<open>C22: Once a start has been carried out, only \<open>cleanup\<close> ends it: after any other operations, stops among them, the
  receiver is awake and the reading thread goes on; and a later start changes nothing, so that the state does not
  return to \<open>STATE_START\<close> after a stop.\<close>

theorem td_stop_stops_nothing:
  assumes "td_init s \<noteq> STATE_QUIT" and "td_started s" and "td_sleep_lock s \<noteq> 0"
    and "TdCleanup \<notin> (snd \<circ> snd) ` set xs" and "td_run xs s = Some s'"
  shows "td_started s' \<and> td_sleep_lock s' \<noteq> 0 \<and> td_thread_cmd E os s' CMD_START = s' \<and>
    td_init (td_thread_cmd E os s' CMD_STOP) = STATE_INIT"
proof -
  have "td_on s \<Longrightarrow> td_on s'"
    using assms(4,5) unfolding td_run_def
  proof (induction xs arbitrary: s)
    case (Cons x xs)
    then obtain t where t: "td_step x s = Some t" "foldM td_step xs t = Some s'" by (auto split: option.splits)
    have "snd (snd x) \<noteq> TdCleanup" using Cons.prems(2) by auto
    then have "td_on t" by (rule td_on_step [OF Cons.prems(1) _ t(1)])
    then show ?case using Cons.IH Cons.prems(2) t(2) by simp
  qed simp
  then have "td_on s'" using assms(1-3) by (simp add: td_on_def)
  then show ?thesis by (simp add: td_on_def td_thread_cmd_def)
qed

text \<open>The two drivers read the same sentences alike, apart from those that the second does not know.\<close>

theorem td_dispatch_agrees:
  "(let tok = nmea_tokenizer_get tz 0 in tok_is (r_in r) tok 2 ''VTG'' \<or> tok_is (r_in r) tok 2 ''ZDA'') \<or>
   td_dispatch E tz r = nmea_dispatch E tz r"
  by (simp add: td_dispatch_def nmea_dispatch_def Let_def)

definition td_demo :: TdState where
  "td_demo = \<lparr>td_init = STATE_START, td_fd = 7,
     td_callbacks = \<lparr>location_cb = True, status_cb = True, sv_status_cb = True, nmea_cb = True\<rparr>,
     td_thread = True, td_control = Some [], td_fix_freq = - 1, td_first_fix = False,
     td_reader = (demo_reader [])\<lparr>r_in := replicate 84 NUL\<rparr>, td_sleep_lock = 1000, td_lastcmd = CMD_START,
     td_started = True, td_continue = True, td_format = GNSS_BD, td_gpscallback = None, td_log = []\<rparr>"

definition td_demo_os :: Td_Os where
  "td_demo_os = \<lparr>os_property = (\<lambda>_. None), os_system = (\<lambda>_. 0), os_open = (\<lambda>_. 7), os_write_ok = True,
     os_time = 1000, os_sem_ok = True, os_socketpair_ok = True, os_thread_ok = True, os_nmea_thread_ok = True\<rparr>"

definition td_demo_ops :: "(Env \<times> Td_Os \<times> td_op) list" where
  "td_demo_ops = map (\<lambda>x. (demo_env, td_demo_os, x)) [TdStop, TdControl, TdRead (Data ''$GP''), TdStart, TdControl]"

lemma td_demo_run:
  "\<exists>s. td_run td_demo_ops td_demo = Some s \<and> td_init s = STATE_INIT \<and> td_log s = [CbStatus SESSION_END, CbStatus SESSION_BEGIN]"
  by (simp add: td_run_def td_demo_ops_def td3020c_gps_stop_def td3020c_gps_start_def td_checkstate_def td_state_stop_def
      td_state_start_def td_send_def td_status_def td_emit_def td_thread_step_def td_thread_cmd_def td_nmea_thread_step_def
      td_reader_addcs_def td_reader_addc_def td_set_reader_def td_demo_def demo_reader_def Let_def)

theorem td_reports_nothing_witness:
  "\<exists>s. td_run td_demo_ops td_demo = Some s \<and> r_pos (td_reader s) < length (r_in (td_reader s))"
proof -
  obtain s where s: "td_run td_demo_ops td_demo = Some s" using td_demo_run by blast
  then show ?thesis
    using td_reports_nothing [OF _ _ _ s] by (simp add: td_demo_def demo_reader_def NMEA_MAX_SIZE_def)
qed

theorem td_stop_stops_nothing_witness:
  "\<exists>s. td_run td_demo_ops td_demo = Some s \<and> td_init s = STATE_INIT \<and> td_started s \<and> td_sleep_lock s \<noteq> 0"
proof -
  obtain s where s: "td_run td_demo_ops td_demo = Some s" "td_init s = STATE_INIT" using td_demo_run by blast
  have "td_started s \<and> td_sleep_lock s \<noteq> 0 \<and> td_thread_cmd demo_env td_demo_os s CMD_START = s \<and>
      td_init (td_thread_cmd demo_env td_demo_os s CMD_STOP) = STATE_INIT"
    by (rule td_stop_stops_nothing [OF _ _ _ _ s(1)]) (simp_all add: td_demo_def td_demo_ops_def)
  then show ?thesis using s by blast
qed

end
