(* ===== verification/Bt_Upio.thy ===== *)
theory Bt_Upio
  imports C_Prelude
begin

text \<open>
  The power switch and the low power lines of the Bluetooth chip (src/libbt-ath3k/src/upio.c): the
  search for the rfkill switch, \<open>upio_set_bluetooth_power\<close>, and \<open>upio_set\<close> with its two proc nodes
  and the timer that holds the wake line. The state is the static variables of the file together
  with the list of what was done on files and timers; the system's answers and the two build flags
  that choose how the wake line is driven are a parameter. The interpretation \<open>pins\<close> of \<open>stepper\<close>
  carries the invariant over any sequence of requests and timeouts.
\<close>

section \<open>State\<close>

datatype pin_op =
    Opened string int
  | Wrote int char
  | Shut int
  | TimerNew int
  | TimerDel
  | TimerArm nat
  | WakeIoctl u32

text \<open>
  The parameter: system properties (an empty value is an unset one), the type files of rfkill as
  \<open>read\<close> finds them (\<open>None\<close> cannot be opened), whether \<open>asprintf\<close> has memory, and the results of
  \<open>open\<close>, \<open>write\<close> and \<open>timer_create\<close>, which may depend on all that was done before.
\<close>

record Bt_Os =
  via_ioctl :: bool
  via_proc :: bool
  bo_prop :: "string \<Rightarrow> string"
  bo_file :: "string \<Rightarrow> string option"
  bo_asprintf :: bool
  bo_open :: "pin_op list \<Rightarrow> string \<Rightarrow> int"
  bo_write :: "pin_op list \<Rightarrow> int \<Rightarrow> char \<Rightarrow> int"
  bo_timer :: "pin_op list \<Rightarrow> int"

record Upio =
  upio_state :: "u8 list"
  rfkill_id :: int
  rfkill_state_path :: "string option"
  bt_emul_enable :: int
  btwrite_active :: bool
  timer_created :: bool
  pin_log :: "pin_op list"

definition UPIO_BT_WAKE :: u8 where "UPIO_BT_WAKE = 0"
definition UPIO_HOST_WAKE :: u8 where "UPIO_HOST_WAKE = 1"
definition UPIO_LPM_MODE :: u8 where "UPIO_LPM_MODE = 2"
definition UPIO_UNKNOWN :: u8 where "UPIO_UNKNOWN = 0"
definition UPIO_DEASSERT :: u8 where "UPIO_DEASSERT = 1"
definition UPIO_ASSERT :: u8 where "UPIO_ASSERT = 2"

lemmas upio_consts =
  UPIO_BT_WAKE_def UPIO_HOST_WAKE_def UPIO_LPM_MODE_def UPIO_UNKNOWN_def UPIO_DEASSERT_def UPIO_ASSERT_def

definition did :: "pin_op \<Rightarrow> 'a Upio_scheme \<Rightarrow> 'a Upio_scheme" where
  "did x s = s\<lparr>pin_log := pin_log s @ [x]\<rparr>"

section \<open>The rfkill switch\<close>

definition bt_property_get :: "Bt_Os \<Rightarrow> string \<Rightarrow> string \<Rightarrow> string" where
  "bt_property_get w k d = (if bo_prop w k = [] then d else bo_prop w k)"

definition is_emulator_context :: "Bt_Os \<Rightarrow> bool" where
  "is_emulator_context w = (bt_property_get w ''ro.kernel.qemu'' ''0'' = ''1'')"

definition is_rfkill_disabled :: "Bt_Os \<Rightarrow> bool" where
  "is_rfkill_disabled w = (bt_property_get w ''ro.rfkilldisabled'' ''0'' = ''1'')"

definition rfkill_node :: "nat \<Rightarrow> string \<Rightarrow> string" where
  "rfkill_node n leaf = ''/sys/class/rfkill/rfkill'' @ show_dec n @ leaf"

text \<open>The first 16 bytes of the type file, of which nine are compared.\<close>

definition is_bt_type :: "string \<Rightarrow> bool" where
  "is_bt_type t = (let buf = take 16 t in 9 \<le> length buf \<and> take 9 buf = ''bluetooth'')"

text \<open>The search has no bound of its own; it ends at the first switch that is Bluetooth's
  (\<open>Some (Some id)\<close>) or whose type cannot be opened (\<open>Some None\<close>).\<close>

partial_function (option) rfkill_search :: "Bt_Os \<Rightarrow> nat \<Rightarrow> nat option option" where
  "rfkill_search w n =
     (case bo_file w (rfkill_node n ''/type'') of
        None \<Rightarrow> Some None
      | Some t \<Rightarrow> if is_bt_type t then Some (Some n) else rfkill_search w (Suc n))"

definition init_rfkill :: "Bt_Os \<Rightarrow> 'a Upio_scheme \<Rightarrow> (int \<times> 'a Upio_scheme) option" where
  "init_rfkill w s =
     (if is_rfkill_disabled w then Some (- 1, s)
      else
        (case rfkill_search w 0 of
           None \<Rightarrow> None
         | Some None \<Rightarrow> Some (- 1, s)
         | Some (Some n) \<Rightarrow>
             Some (0, s\<lparr>rfkill_id := int n,
               rfkill_state_path := (if bo_asprintf w then Some (rfkill_node n ''/state'') else None)\<rparr>)))"

text \<open>\<open>open\<close> of a NULL path fails.\<close>

definition open_path :: "Bt_Os \<Rightarrow> pin_op list \<Rightarrow> string option \<Rightarrow> int" where
  "open_path w l p = (case p of None \<Rightarrow> - 1 | Some q \<Rightarrow> bo_open w l q)"

definition power_char :: "int \<Rightarrow> char" where
  "power_char on = (if on = 1 then CHR ''1'' else CHR ''0'')"

definition write_power :: "Bt_Os \<Rightarrow> int \<Rightarrow> 'a Upio_scheme \<Rightarrow> int \<times> 'a Upio_scheme" where
  "write_power w on s =
     (let fd = open_path w (pin_log s) (rfkill_state_path s);
          s1 = (case rfkill_state_path s of None \<Rightarrow> s | Some p \<Rightarrow> did (Opened p fd) s)
      in if fd < 0 then (- 1, s1)
         else
           (let sz = bo_write w (pin_log s1) fd (power_char on) in
            (if sz < 0 then - 1 else 0, did (Shut fd) (did (Wrote fd (power_char on)) s1))))"

definition upio_set_bluetooth_power ::
    "Bt_Os \<Rightarrow> int \<Rightarrow> 'a Upio_scheme \<Rightarrow> (int \<times> 'a Upio_scheme) option" where
  "upio_set_bluetooth_power w on s =
     (if is_emulator_context w
      then (if bt_emul_enable s = on then Some (- 1, s) else Some (0, s\<lparr>bt_emul_enable := on\<rparr>))
      else if is_rfkill_disabled w then Some (0, s)
      else if rfkill_id s = - 1
      then
        (case init_rfkill w s of
           None \<Rightarrow> None
         | Some (r, s1) \<Rightarrow> if r \<noteq> 0 then Some (- 1, s1) else Some (write_power w on s1))
      else Some (write_power w on s))"

section \<open>The low power lines\<close>

definition VENDOR_LPM_PROC_NODE :: string where "VENDOR_LPM_PROC_NODE = ''/proc/bluetooth/sleep/lpm''"
definition VENDOR_BTWRITE_PROC_NODE :: string where
  "VENDOR_BTWRITE_PROC_NODE = ''/proc/bluetooth/sleep/btwrite''"
definition PROC_BTWRITE_TIMER_TIMEOUT_MS :: nat where "PROC_BTWRITE_TIMER_TIMEOUT_MS = 8000"

definition upio_get :: "u8 \<Rightarrow> 'a Upio_scheme \<Rightarrow> u8" where
  "upio_get pio s = upio_state s ! unat pio"

definition upio_put :: "u8 \<Rightarrow> u8 \<Rightarrow> 'a Upio_scheme \<Rightarrow> 'a Upio_scheme" where
  "upio_put pio a s = s\<lparr>upio_state := (upio_state s)[unat pio := a]\<rparr>"

definition proc_btwrite_timeout :: "'a Upio_scheme \<Rightarrow> 'a Upio_scheme" where
  "proc_btwrite_timeout s = s\<lparr>btwrite_active := False\<rparr>"

definition upio_init :: "Bt_Os \<Rightarrow> 'a Upio_scheme \<Rightarrow> 'a Upio_scheme" where
  "upio_init w s =
     (let s1 = s\<lparr>upio_state := replicate 3 UPIO_UNKNOWN\<rparr> in
      if via_proc w then s1\<lparr>btwrite_active := False, timer_created := False\<rparr> else s1)"

definition delete_timer :: "'a Upio_scheme \<Rightarrow> 'a Upio_scheme" where
  "delete_timer s = (if timer_created s then (did TimerDel s)\<lparr>timer_created := False\<rparr> else s)"

definition upio_cleanup :: "Bt_Os \<Rightarrow> 'a Upio_scheme \<Rightarrow> 'a Upio_scheme" where
  "upio_cleanup w s = (if via_proc w then delete_timer s else s)"

definition create_timer :: "Bt_Os \<Rightarrow> 'a Upio_scheme \<Rightarrow> 'a Upio_scheme" where
  "create_timer w s =
     (if timer_created s then s
      else (let r = bo_timer w (pin_log s) in (did (TimerNew r) s)\<lparr>timer_created := (r = 0)\<rparr>))"

text \<open>The LPM node is written when the mode changes; the timer is made after the write of a \<open>1\<close>
  and deleted before the write of a \<open>0\<close>.\<close>

definition write_lpm :: "Bt_Os \<Rightarrow> u8 \<Rightarrow> 'a Upio_scheme \<Rightarrow> 'a Upio_scheme" where
  "write_lpm w a s =
     (let fd = bo_open w (pin_log s) VENDOR_LPM_PROC_NODE;
          s1 = did (Opened VENDOR_LPM_PROC_NODE fd) s
      in if fd < 0 then s1
         else
           (let on = (a = UPIO_ASSERT);
                c = (if on then CHR ''1'' else CHR ''0'');
                s2 = (if on then s1 else delete_timer s1);
                r = bo_write w (pin_log s2) fd c;
                s3 = did (Wrote fd c) s2;
                s4 = (if 0 \<le> r \<and> on then create_timer w s3 else s3)
            in did (Shut fd) s4))"

definition set_lpm :: "Bt_Os \<Rightarrow> u8 \<Rightarrow> 'a Upio_scheme \<Rightarrow> 'a Upio_scheme" where
  "set_lpm w a s =
     (if upio_get UPIO_LPM_MODE s = a then s
      else
        (let s1 = upio_put UPIO_LPM_MODE a s in
         if via_proc w then write_lpm w a s1 else s1))"

definition kick_btwrite :: "Bt_Os \<Rightarrow> 'a Upio_scheme \<Rightarrow> 'a Upio_scheme" where
  "kick_btwrite w s =
     (let fd = bo_open w (pin_log s) VENDOR_BTWRITE_PROC_NODE;
          s1 = did (Opened VENDOR_BTWRITE_PROC_NODE fd) s
      in if fd < 0 then s1
         else
           (let r = bo_write w (pin_log s1) fd CHR ''1'';
                s2 = did (Wrote fd CHR ''1'') s1;
                s3 = (if r < 0 then s2
                      else if timer_created s2
                           then did (TimerArm PROC_BTWRITE_TIMER_TIMEOUT_MS) (s2\<lparr>btwrite_active := True\<rparr>)
                           else s2\<lparr>btwrite_active := True\<rparr>)
            in did (Shut fd) s3))"

definition USERIAL_IOCTL_BT_WAKE_ASSERT :: u32 where "USERIAL_IOCTL_BT_WAKE_ASSERT = 0x8003"
definition USERIAL_IOCTL_BT_WAKE_DEASSERT :: u32 where "USERIAL_IOCTL_BT_WAKE_DEASSERT = 0x8004"

text \<open>A repeated request is dropped, unless the wake line is held by the proc node and the hold
  has run out.\<close>

definition set_wake :: "Bt_Os \<Rightarrow> u8 \<Rightarrow> 'a Upio_scheme \<Rightarrow> 'a Upio_scheme" where
  "set_wake w a s =
     (if upio_get UPIO_BT_WAKE s = a \<and> (\<not> via_proc w \<or> btwrite_active s) then s
      else
        (let s1 = upio_put UPIO_BT_WAKE a s in
         if via_ioctl w
         then did (WakeIoctl (if a = UPIO_ASSERT then USERIAL_IOCTL_BT_WAKE_ASSERT
                              else USERIAL_IOCTL_BT_WAKE_DEASSERT)) s1
         else if \<not> via_proc w \<or> a = UPIO_DEASSERT then s1 else kick_btwrite w s1))"

definition upio_set :: "Bt_Os \<Rightarrow> u8 \<Rightarrow> u8 \<Rightarrow> 'a Upio_scheme \<Rightarrow> 'a Upio_scheme" where
  "upio_set w pio a s =
     (if pio = UPIO_LPM_MODE then set_lpm w a s
      else if pio = UPIO_BT_WAKE then set_wake w a s else s)"

section \<open>The switch that is found\<close>

definition search_stops :: "Bt_Os \<Rightarrow> nat \<Rightarrow> bool" where
  "search_stops w n = (case bo_file w (rfkill_node n ''/type'') of None \<Rightarrow> True | Some t \<Rightarrow> is_bt_type t)"

lemma rfkill_search_here:
  "search_stops w n \<Longrightarrow>
   rfkill_search w n = Some (if bo_file w (rfkill_node n ''/type'') = None then None else Some n)"
  by (subst rfkill_search.simps) (simp add: search_stops_def split: option.splits)

lemma rfkill_search_further: "\<not> search_stops w n \<Longrightarrow> rfkill_search w n = rfkill_search w (Suc n)"
  by (subst rfkill_search.simps) (simp add: search_stops_def split: option.splits)

lemma rfkill_search_skip:
  "m \<le> n \<Longrightarrow> \<forall>i. m \<le> i \<and> i < n \<longrightarrow> \<not> search_stops w i \<Longrightarrow> rfkill_search w m = rfkill_search w n"
proof (induction n)
  case (Suc n)
  show ?case
  proof (cases "m = Suc n")
    case False
    then have "rfkill_search w m = rfkill_search w n" using Suc by simp
    then show ?thesis using rfkill_search_further [of w n] Suc.prems False by simp
  qed simp
qed simp

lemma rfkill_search_some:
  assumes "rfkill_search w n = Some r"
  shows "\<exists>i. search_stops w i"
proof (rule rfkill_search.raw_induct [OF _ assms, where P = "\<lambda>w n r. \<exists>i. search_stops w i"])
  fix search :: "Bt_Os \<Rightarrow> nat \<Rightarrow> nat option option" and w n r
  assume IH: "\<And>w n r. search w n = Some r \<Longrightarrow> \<exists>i. search_stops w i"
    and r: "(case bo_file w (rfkill_node n ''/type'') of
        None \<Rightarrow> Some None | Some t \<Rightarrow> if is_bt_type t then Some (Some n) else search w (Suc n)) = Some r"
  show "\<exists>i. search_stops w i"
  proof (cases "search_stops w n")
    case False
    then have "search w (Suc n) = Some r" using r by (auto simp: search_stops_def split: option.splits if_splits)
    then show ?thesis by (rule IH)
  qed blast
qed

text \<open>The search ends exactly when some switch stops it.\<close>

lemma rfkill_search_returns: "(rfkill_search w 0 \<noteq> None) = (\<exists>n. search_stops w n)"
proof
  assume "\<exists>n. search_stops w n"
  then have s: "search_stops w (LEAST n. search_stops w n)" by (rule LeastI_ex)
  have "rfkill_search w 0 = rfkill_search w (LEAST n. search_stops w n)"
    by (rule rfkill_search_skip) (auto dest: not_less_Least)
  then show "rfkill_search w 0 \<noteq> None" using rfkill_search_here [OF s] by simp
next
  assume "rfkill_search w 0 \<noteq> None"
  then show "\<exists>n. search_stops w n" using rfkill_search_some by blast
qed

definition first_bt :: "Bt_Os \<Rightarrow> nat \<Rightarrow> bool" where
  "first_bt w n =
     (list_all (\<lambda>i. \<not> search_stops w i) [0..<n] \<and>
      (case bo_file w (rfkill_node n ''/type'') of None \<Rightarrow> False | Some t \<Rightarrow> is_bt_type t))"

lemma rfkill_search_first: "first_bt w n \<Longrightarrow> rfkill_search w 0 = Some (Some n)"
  using rfkill_search_skip [of 0 n w] rfkill_search_here [of w n]
  by (auto simp: first_bt_def search_stops_def list_all_iff split: option.splits)

text \<open>The switch is either not known yet or the first one.\<close>

definition rfkill_ok :: "nat \<Rightarrow> 'a Upio_scheme \<Rightarrow> bool" where
  "rfkill_ok n s =
     (rfkill_id s = - 1 \<or> rfkill_id s = int n \<and> rfkill_state_path s = Some (rfkill_node n ''/state''))"

lemma write_power_known:
  assumes "rfkill_state_path s = Some p" and "bo_open w (pin_log s) p = fd"
    and "bo_write w (pin_log s @ [Opened p fd]) fd (power_char on) = r"
  shows "write_power w on s =
    (if fd < 0 \<or> r < 0 then - 1 else 0,
     s\<lparr>pin_log := pin_log s @ (if fd < 0 then [Opened p fd] else [Opened p fd, Wrote fd (power_char on), Shut fd])\<rparr>)"
  using assms by (auto simp: write_power_def open_path_def did_def Let_def)

text \<open>C34: Switching the power goes to the first Bluetooth switch of the system, in the first call,
  which searches for it, and in every later one, which remembers it: one byte, the digit asked for, is
  written to its state file, the file is closed again, and the result is 0 exactly when it could be
  opened and written. The search ends. A later call goes to the same state file without a search, whatever
  switches the system has by then.\<close>

theorem power_switch:
  assumes "\<not> is_emulator_context w" and "\<not> is_rfkill_disabled w" and "bo_asprintf w"
    and "first_bt w n" and "rfkill_ok n s"
  shows "let p = rfkill_node n ''/state''; fd = bo_open w (pin_log s) p;
             c = (if on = 1 then CHR ''1'' else CHR ''0'');
             r = bo_write w (pin_log s @ [Opened p fd]) fd c
         in case upio_set_bluetooth_power w on s of
              None \<Rightarrow> False
            | Some (ret, s') \<Rightarrow>
                ret = (if fd < 0 \<or> r < 0 then - 1 else 0) \<and> rfkill_ok n s' \<and> rfkill_id s' = int n \<and>
                pin_log s' = pin_log s @ (if fd < 0 then [Opened p fd] else [Opened p fd, Wrote fd c, Shut fd]) \<and>
                (\<forall>v on'. \<not> is_emulator_context v \<and> \<not> is_rfkill_disabled v \<longrightarrow>
                   rfkill_state_path s' = Some p \<and> upio_set_bluetooth_power v on' s' = Some (write_power v on' s'))"
proof -
  let ?s = "s\<lparr>rfkill_id := int n, rfkill_state_path := Some (rfkill_node n ''/state'')\<rparr>"
  have f: "upio_set_bluetooth_power w on s = Some (write_power w on ?s)"
    using assms rfkill_search_first [OF assms(4)]
    by (cases s) (auto simp: upio_set_bluetooth_power_def init_rfkill_def rfkill_ok_def)
  show ?thesis
    unfolding f Let_def
    by (subst write_power_known [OF _ refl refl]) (auto simp: rfkill_ok_def power_char_def upio_set_bluetooth_power_def)
qed

definition demo_bt :: Bt_Os where
  "demo_bt =
     \<lparr>via_ioctl = False, via_proc = True, bo_prop = (\<lambda>k. []),
      bo_file = (\<lambda>p. if p = rfkill_node 0 ''/type'' then Some (''wlan'' @ [NL])
                     else if p = rfkill_node 1 ''/type'' then Some (''bluetooth'' @ [NL]) else None),
      bo_asprintf = True, bo_open = (\<lambda>l p. 7), bo_write = (\<lambda>l fd c. 1), bo_timer = (\<lambda>l. 0)\<rparr>"

definition upio_boot :: Upio where
  "upio_boot =
     \<lparr>upio_state = replicate 3 0, rfkill_id = - 1, rfkill_state_path = None, bt_emul_enable = 0,
      btwrite_active = False, timer_created = False, pin_log = []\<rparr>"

lemma demo_bt_first: "first_bt demo_bt 1"
  by (simp add: first_bt_def search_stops_def demo_bt_def rfkill_node_def is_bt_type_def
      show_dec.simps [of 0] show_dec.simps [of "Suc 0"])

theorem power_switch_witness:
  "case upio_set_bluetooth_power demo_bt 1 upio_boot of
     None \<Rightarrow> False
   | Some (ret, s') \<Rightarrow> ret = 0 \<and> pin_log s' = [Opened (rfkill_node 1 ''/state'') 7, Wrote 7 CHR ''1'', Shut 7] \<and>
       upio_set_bluetooth_power (demo_bt\<lparr>bo_file := (\<lambda>p. None)\<rparr>) 0 s' = Some (write_power (demo_bt\<lparr>bo_file := (\<lambda>p. None)\<rparr>) 0 s')"
  using power_switch [of demo_bt 1 upio_boot 1] demo_bt_first
  by (auto simp: demo_bt_def upio_boot_def rfkill_ok_def is_emulator_context_def is_rfkill_disabled_def
      bt_property_get_def Let_def split: option.splits)

section \<open>Files and timer\<close>

text \<open>
  What a list of file and timer operations must look like: at most one file open at a time, written
  only while open; the timer made only when there is none and deleted or set only when there is one.
  The state is the open file and whether there is a timer.
\<close>

fun discipline :: "pin_op \<Rightarrow> int option \<times> bool \<Rightarrow> (int option \<times> bool) option" where
  "discipline (Opened p fd) (f, t) = (if f = None then Some (if fd < 0 then None else Some fd, t) else None)"
| "discipline (Wrote fd c) (f, t) = (if f = Some fd then Some (f, t) else None)"
| "discipline (Shut fd) (f, t) = (if f = Some fd then Some (None, t) else None)"
| "discipline (TimerNew r) (f, t) = (if t then None else Some (f, r = 0))"
| "discipline TimerDel (f, t) = (if t then Some (f, False) else None)"
| "discipline (TimerArm ms) (f, t) = (if t then Some (f, t) else None)"
| "discipline (WakeIoctl x) (f, t) = Some (f, t)"

definition trace :: "'a Upio_scheme \<Rightarrow> (int option \<times> bool) option" where
  "trace s = foldM discipline (pin_log s) (None, False)"

definition pins_ok :: "'a Upio_scheme \<Rightarrow> bool" where
  "pins_ok s = (length (upio_state s) = 3 \<and> trace s = Some (None, timer_created s))"

lemma trace_did [simp]: "trace (did x s) = (case trace s of None \<Rightarrow> None | Some t \<Rightarrow> discipline x t)"
  by (simp add: trace_def did_def foldM_append split: option.splits)

lemma did_same [simp]:
  "timer_created (did x s) = timer_created s" "upio_state (did x s) = upio_state s"
  by (simp_all add: did_def)

lemma trace_cong [simp]:
  "trace (s\<lparr>timer_created := b\<rparr>) = trace s" "trace (s\<lparr>btwrite_active := b\<rparr>) = trace s"
  "trace (s\<lparr>upio_state := u\<rparr>) = trace s"
  by (simp_all add: trace_def)

lemma delete_timer_trace:
  "trace s = Some (f, timer_created s) \<Longrightarrow>
   trace (delete_timer s) = Some (f, timer_created (delete_timer s)) \<and>
   upio_state (delete_timer s) = upio_state s"
  by (simp add: delete_timer_def)

lemma write_lpm_ok: "pins_ok s \<Longrightarrow> pins_ok (write_lpm w a s)"
  by (simp add: pins_ok_def write_lpm_def create_timer_def delete_timer_def Let_def)

lemma kick_btwrite_ok: "pins_ok s \<Longrightarrow> pins_ok (kick_btwrite w s)"
  by (simp add: pins_ok_def kick_btwrite_def Let_def)

lemma upio_put_ok: "pins_ok s \<Longrightarrow> pins_ok (upio_put p a s)"
  by (simp add: pins_ok_def upio_put_def)

lemma wake_ioctl_ok: "pins_ok s \<Longrightarrow> pins_ok (did (WakeIoctl x) s)"
  by (simp add: pins_ok_def)

lemma upio_set_ok: "pins_ok s \<Longrightarrow> pins_ok (upio_set w pio a s)"
  by (simp add: upio_set_def set_lpm_def set_wake_def Let_def upio_put_ok write_lpm_ok kick_btwrite_ok wake_ioctl_ok)

datatype pin_event = Request u8 u8 | Timeout | Cleanup

fun pin_step :: "Bt_Os \<Rightarrow> Upio \<Rightarrow> pin_event \<Rightarrow> Upio" where
  "pin_step w s (Request pio a) = upio_set w pio a s"
| "pin_step w s Timeout = proc_btwrite_timeout s"
| "pin_step w s Cleanup = upio_cleanup w s"

interpretation pins: stepper "pin_step w" pins_ok for w
proof unfold_locales
  fix s e assume a: "pins_ok (s :: Upio)"
  show "pins_ok (pin_step w s e)"
  proof (cases e)
    case Cleanup
    then show ?thesis using a delete_timer_trace [of s None]
      by (simp add: upio_cleanup_def pins_ok_def)
  qed (use a upio_set_ok in \<open>simp_all add: proc_btwrite_timeout_def pins_ok_def\<close>)
qed

text \<open>C35: from the start of the library, through any sequence of requests, timeouts and cleanups and
  whatever the system answers, the files and the timer are used in order: every opened file is closed
  before the next is opened, nothing is written to a closed one, and the timer is never made twice,
  deleted twice or set without being there; the flag says whether it is.\<close>

theorem pins_disciplined:
  "let s = foldl (pin_step w) upio_boot es
   in foldM discipline (pin_log s) (None, False) = Some (None, timer_created s)"
  using pins.run_inv [of upio_boot w es] by (simp add: pins_ok_def trace_def upio_boot_def)

text \<open>A mode request whose node cannot be opened is lost: the mode counts as set, the timer stays as
  it was, and the same request does nothing from then on, even when the node could be opened.\<close>

lemma lpm_request_lost:
  assumes "via_proc w" and "bo_open w (pin_log s) VENDOR_LPM_PROC_NODE < 0"
    and "upio_get UPIO_LPM_MODE s \<noteq> a" and "length (upio_state s) = 3"
  shows "timer_created (upio_set w UPIO_LPM_MODE a s) = timer_created s"
    and "upio_set w' UPIO_LPM_MODE a (upio_set w UPIO_LPM_MODE a s) = upio_set w UPIO_LPM_MODE a s"
  using assms
  by (simp_all add: upio_set_def set_lpm_def write_lpm_def upio_put_def upio_get_def did_def UPIO_LPM_MODE_def Let_def)

text \<open>An asserted wake line is kicked again once its hold ran out, and only then.\<close>

lemma wake_kicked_again:
  assumes "via_proc w" and "\<not> via_ioctl w" and "upio_get UPIO_BT_WAKE s = UPIO_ASSERT"
  shows "upio_set w UPIO_BT_WAKE UPIO_ASSERT s =
    (if btwrite_active s then s else kick_btwrite w (upio_put UPIO_BT_WAKE UPIO_ASSERT s))"
  using assms by (simp add: upio_set_def set_wake_def upio_consts)

end
