(* ===== verification/Hci_Uart.thy ===== *)
theory Hci_Uart
  imports C_Prelude
begin

text \<open>
  The serial line to the Bluetooth controller (src/libbt-ath3k/src/hardware_QCA3002.c): the bytes
  the line delivers, in the pieces in which \<open>read\<close> returns them, \<open>read_hci_event\<close> that reassembles an
  event from them, the HCI command header, and the command channel \<open>send_hci_cmd_sync\<close> /
  \<open>read_ps_event\<close> / \<open>write_cmd\<close>. The log of a device holds every operation on its descriptor.
  The locale \<open>byte_source\<close> is what the reassembly needs of \<open>read\<close>: short reads are allowed, a read
  returns bytes of the pending stream in order, at least one.
\<close>

section \<open>The device and its environment\<close>

datatype dev_op =
    Wr "u8 list"
  | Speed int
  | Line bool
  | Modem int
  | Flush
  | Break
  | UartFlags u32

record Dev =
  d_rx :: "u8 list list"
  d_log :: "dev_op list"

text \<open>
  The parameters: the result of \<open>write\<close>, \<open>malloc\<close> and the terminal and modem calls, each a
  function of what happened on the descriptor so far; the contents of stack memory that was not
  initialized; the files; and the firmware directory of the build configuration.
\<close>

record Host =
  h_write :: "dev_op list \<Rightarrow> u8 list \<Rightarrow> int"
  h_malloc :: "dev_op list \<Rightarrow> nat \<Rightarrow> u8 list option"
  h_stack :: "nat \<Rightarrow> u8"
  h_speed :: "dev_op list \<Rightarrow> int \<Rightarrow> nat"
  h_tio :: "dev_op list \<Rightarrow> bool"
  h_modem :: "dev_op list \<Rightarrow> int option"
  h_ioctl :: "dev_op list \<Rightarrow> dev_op \<Rightarrow> int"
  h_open :: "string \<Rightarrow> int"
  h_file :: "string \<Rightarrow> string option"
  h_fwdir :: string

definition EILSEQ :: int where "EILSEQ = 84"
definition ETIMEDOUT :: int where "ETIMEDOUT = 110"
definition PS_EVENT_LEN :: int where "PS_EVENT_LEN = 100"
definition HCI_MAX_EVENT_SIZE :: int where "HCI_MAX_EVENT_SIZE = 260"
definition HCI_MAX_CMD_SIZE :: nat where "HCI_MAX_CMD_SIZE = 260"
definition HCI_PS_CMD_HDR_LEN :: nat where "HCI_PS_CMD_HDR_LEN = 7"
definition HCI_VENDOR_CMD_OGF :: u16 where "HCI_VENDOR_CMD_OGF = 0x3F"
definition HCI_PS_CMD_OCF :: u16 where "HCI_PS_CMD_OCF = 0x0B"

lemmas hci_consts = EILSEQ_def ENOMEM_def ETIMEDOUT_def PS_EVENT_LEN_def HCI_MAX_EVENT_SIZE_def
  HCI_MAX_CMD_SIZE_def HCI_PS_CMD_HDR_LEN_def HCI_VENDOR_CMD_OGF_def HCI_PS_CMD_OCF_def

text \<open>\<open>read\<close> returns at most n bytes of the first piece; no bytes stand for a result of 0 or less.\<close>

fun dev_read :: "nat \<Rightarrow> Dev \<Rightarrow> u8 list \<times> Dev" where
  "dev_read n d =
     (case d_rx d of
        [] \<Rightarrow> ([], d)
      | c # cs \<Rightarrow> (take n c, d\<lparr>d_rx := (if length c \<le> n then cs else drop n c # cs)\<rparr>))"

definition log_op :: "dev_op \<Rightarrow> Dev \<Rightarrow> Dev" where
  "log_op x d = d\<lparr>d_log := d_log d @ [x]\<rparr>"

definition dev_write :: "Host \<Rightarrow> u8 list \<Rightarrow> Dev \<Rightarrow> int \<times> Dev" where
  "dev_write h bs d = (h_write h (d_log d) bs, log_op (Wr bs) d)"

lemma log_op_simps [simp]: "d_rx (log_op x d) = d_rx d" "d_log (log_op x d) = d_log d @ [x]"
  by (simp_all add: log_op_def)

section \<open>Reading an event\<close>

text \<open>The inner loops of \<open>read_hci_event\<close>: read until the array holds \<open>tgt\<close> bytes. The read
  function is an argument, so that the lemmas hold for any source of bytes.\<close>

function read_until ::
    "(nat \<Rightarrow> 's \<Rightarrow> 'b list \<times> 's) \<Rightarrow> nat \<Rightarrow> nat \<Rightarrow> 'b list \<Rightarrow> 's \<Rightarrow> bool \<times> 'b list \<times> 's" where
  "read_until rd tgt cnt buf s =
     (if cnt < tgt then
        (let (bs, s') = rd (tgt - cnt) s in
         if bs = [] then (False, buf, s')
         else read_until rd tgt (cnt + length bs) (put_at cnt bs buf) s')
      else (True, buf, s))"
  by pat_completeness auto
termination
  by (relation "measure (\<lambda>(rd, tgt, cnt, buf, s). tgt - cnt)")
     (auto intro!: diff_less_mono2 simp flip: length_greater_0_conv)

declare read_until.simps [simp del]

text \<open>Skipping to the byte 0x04 that starts an event, one byte at a time.\<close>

definition rx_size :: "Dev \<Rightarrow> nat" where
  "rx_size d = sum_list (map (\<lambda>c. Suc (length c)) (d_rx d))"

function sync_event :: "u8 list \<Rightarrow> Dev \<Rightarrow> bool \<times> u8 list \<times> Dev" where
  "sync_event buf d =
     (let (bs, d') = dev_read 1 d in
      if bs = [] then (False, buf, d')
      else if hd bs = 0x04 then (True, put_at 0 bs buf, d')
      else sync_event (put_at 0 bs buf) d')"
  by pat_completeness auto
termination
  by (relation "measure (\<lambda>(buf, d). rx_size d)")
     (auto simp: rx_size_def split: list.splits if_splits)

declare sync_event.simps [simp del]

definition read_hci_event :: "int \<Rightarrow> u8 list \<Rightarrow> Dev \<Rightarrow> int \<times> u8 list \<times> Dev" where
  "read_hci_event sz buf d =
     (if sz \<le> 0 then (- 1, buf, d)
      else
        (case sync_event buf d of
           (False, b1, d1) \<Rightarrow> (- 1, b1, d1)
         | (True, b1, d1) \<Rightarrow>
             (case read_until dev_read 3 1 b1 d1 of
                (False, b2, d2) \<Rightarrow> (- 1, b2, d2)
              | (True, b2, d2) \<Rightarrow>
                  (let remain = (if int (unat (b2 ! 2)) < sz - 3 then int (unat (b2 ! 2)) else sz - 3);
                       total = nat (3 + remain)
                   in case read_until dev_read total 3 b2 d2 of
                        (False, b3, d3) \<Rightarrow> (- 1, b3, d3)
                      | (True, b3, d3) \<Rightarrow> (int (max 3 total), b3, d3)))))"

section \<open>Commands\<close>

definition cmd_opcode_pack :: "u16 \<Rightarrow> u16 \<Rightarrow> u16" where
  "cmd_opcode_pack ogf ocf = (ocf AND 0x03ff) OR push_bit 10 ogf"

definition low_byte :: "'a::len word \<Rightarrow> u8" where
  "low_byte w = ucast w"

definition high_byte :: "u16 \<Rightarrow> u8" where
  "high_byte w = ucast (drop_bit 8 w)"

text \<open>The opcode and the length of a command, stored in the first three bytes.\<close>

definition hci_hdr :: "u16 \<Rightarrow> u16 \<Rightarrow> u8 \<Rightarrow> u8 list" where
  "hci_hdr ogf ocf plen =
     (let opcode = cmd_opcode_pack ogf ocf in [low_byte opcode, high_byte opcode, plen])"

definition load_hci_ps_hdr :: "u8 \<Rightarrow> int \<Rightarrow> int \<Rightarrow> u8 list \<Rightarrow> u8 list" where
  "load_hci_ps_hdr ps_op len index cmd =
     put_at 0 (hci_hdr HCI_VENDOR_CMD_OGF HCI_PS_CMD_OCF (word_of_int (len + 4)) @
       [ps_op, word_of_int index, word_of_int (index div 256), word_of_int len]) cmd"

text \<open>
  \<open>send_hci_cmd_sync\<close>: the packet type, the command, then the event that answers. The event is in
  a fresh array of 100 bytes; what \<open>read_hci_event\<close> does not fill stays as \<open>malloc\<close> left it.
\<close>

definition send_hci_cmd_sync :: "Host \<Rightarrow> u8 list \<Rightarrow> nat \<Rightarrow> Dev \<Rightarrow> int \<times> u8 list option \<times> Dev" where
  "send_hci_cmd_sync h cmd len d =
     (if len = 0 then (0, None, d)
      else
        (let (r1, d1) = dev_write h [0x01] d in
         if r1 \<noteq> 1 then (- EILSEQ, None, d1)
         else
           (let (r2, d2) = dev_write h (take len cmd) d1 in
            if r2 \<noteq> int len then (- EILSEQ, None, d2)
            else
              (case h_malloc h (d_log d2) (nat PS_EVENT_LEN) of
                 None \<Rightarrow> (- ENOMEM, None, d2)
               | Some ev \<Rightarrow>
                   (let (err, ev', d3) = read_hci_event PS_EVENT_LEN ev d2 in
                    if err > 0 then (int len, Some ev', d3) else (- EILSEQ, None, d3))))))"

definition read_ps_event :: "u8 list \<Rightarrow> u16 \<Rightarrow> int" where
  "read_ps_event event ocf =
     (let opcode = cmd_opcode_pack HCI_VENDOR_CMD_OGF ocf in
      if event ! 1 = 0x0E then
        (if ucast (event ! 4) OR push_bit 8 (ucast (event ! 5)) = opcode \<and> event ! 6 = 0 then 0
         else - EILSEQ)
      else - EILSEQ)"

text \<open>The commands that only look at the status: send, check the answer, free it. A command of
  no bytes would leave the event pointer unset; no caller sends one.\<close>

definition sync_status :: "Host \<Rightarrow> u8 list \<Rightarrow> nat \<Rightarrow> u16 \<Rightarrow> Dev \<Rightarrow> int \<times> Dev" where
  "sync_status h cmd len ocf d =
     (case send_hci_cmd_sync h cmd len d of
        (err, ev, d1) \<Rightarrow>
          if err < 0 then (err, d1)
          else (case ev of None \<Rightarrow> (- EILSEQ, d1) | Some e \<Rightarrow> (read_ps_event e ocf, d1)))"

definition write_cmd :: "Host \<Rightarrow> u8 list \<Rightarrow> nat \<Rightarrow> Dev \<Rightarrow> int \<times> Dev" where
  "write_cmd h buffer len d = sync_status h buffer len HCI_PS_CMD_OCF d"

section \<open>Sources of bytes\<close>

text \<open>No read returns more than it was asked for; that is all the array's safety rests on.\<close>

locale short_reads =
  fixes rd :: "nat \<Rightarrow> 's \<Rightarrow> 'b list \<times> 's"
  assumes read_le: "length (fst (rd n s)) \<le> n"
begin

lemma read_until_length:
  "cnt \<le> tgt \<Longrightarrow> tgt \<le> length buf \<Longrightarrow> length (fst (snd (read_until rd tgt cnt buf s))) = length buf"
proof (induction "tgt - cnt" arbitrary: cnt buf s rule: less_induct)
  case less
  obtain bs s' where r: "rd (tgt - cnt) s = (bs, s')" by fastforce
  have l: "length bs \<le> tgt - cnt" using read_le [of "tgt - cnt" s] r by simp
  show ?case
  proof (cases "cnt < tgt \<and> bs \<noteq> []")
    case True
    have "length (fst (snd (read_until rd tgt (cnt + length bs) (put_at cnt bs buf) s'))) =
        length (put_at cnt bs buf)"
      using less.prems l True by (intro less.hyps) (auto simp: diff_less_mono2)
    then show ?thesis using r l True less.prems by (subst read_until.simps) simp
  next
    case False
    then show ?thesis using r by (subst read_until.simps) auto
  qed
qed

end

locale byte_source = short_reads rd
  for rd :: "nat \<Rightarrow> 's \<Rightarrow> 'b list \<times> 's" +
  fixes pending :: "'s \<Rightarrow> 'b list"
    and live :: "'s \<Rightarrow> bool"
  assumes read_some: "live s \<Longrightarrow> 0 < n \<Longrightarrow> pending s \<noteq> [] \<Longrightarrow> rd n s = (bs, s') \<Longrightarrow>
      bs \<noteq> [] \<and> pending s = bs @ pending s' \<and> live s'"
    and read_none: "live s \<Longrightarrow> pending s = [] \<Longrightarrow> fst (rd n s) = []"
begin

lemma read_until_enough:
  "live s \<Longrightarrow> cnt \<le> tgt \<Longrightarrow> tgt \<le> length buf \<Longrightarrow> tgt - cnt \<le> length (pending s) \<Longrightarrow>
   (case read_until rd tgt cnt buf s of (ok, b, s') \<Rightarrow>
      ok \<and> b = put_at cnt (take (tgt - cnt) (pending s)) buf \<and>
      live s' \<and> pending s' = drop (tgt - cnt) (pending s))"
proof (induction "tgt - cnt" arbitrary: cnt buf s rule: less_induct)
  case less
  show ?case
  proof (cases "cnt < tgt")
    case False
    then show ?thesis using less.prems by (subst read_until.simps) simp
  next
    case True
    obtain bs s' where r: "rd (tgt - cnt) s = (bs, s')" by fastforce
    have ne: "pending s \<noteq> []" using less.prems True by auto
    from read_some [OF less.prems(1) _ ne r] read_le [of "tgt - cnt" s] r True
    have b: "bs \<noteq> []" "length bs \<le> tgt - cnt" "pending s = bs @ pending s'" "live s'" by auto
    let ?c = "cnt + length bs"
    have ih: "case read_until rd tgt ?c (put_at cnt bs buf) s' of (ok, x, t) \<Rightarrow>
        ok \<and> x = put_at ?c (take (tgt - ?c) (pending s')) (put_at cnt bs buf) \<and>
        live t \<and> pending t = drop (tgt - ?c) (pending s')"
      using less.prems b True by (intro less.hyps) (auto simp: diff_less_mono2)
    have k: "tgt - cnt = length bs + (tgt - ?c)" using b True by simp
    have tk: "take (tgt - cnt) (pending s) = bs @ take (tgt - ?c) (pending s')"
      and dr: "drop (tgt - cnt) (pending s) = drop (tgt - ?c) (pending s')"
      unfolding k by (simp_all add: b(3))
    have "put_at ?c (take (tgt - ?c) (pending s')) (put_at cnt bs buf) =
        put_at cnt (take (tgt - cnt) (pending s)) buf"
      unfolding tk using less.prems b True by (intro put_at_put_at) simp
    then show ?thesis using ih True r b(1) dr by (subst read_until.simps) auto
  qed
qed

lemma read_until_short:
  "live s \<Longrightarrow> cnt \<le> tgt \<Longrightarrow> length (pending s) < tgt - cnt \<Longrightarrow> \<not> fst (read_until rd tgt cnt buf s)"
proof (induction "tgt - cnt" arbitrary: cnt buf s rule: less_induct)
  case less
  obtain bs s' where r: "rd (tgt - cnt) s = (bs, s')" by fastforce
  show ?case
  proof (cases "pending s = []")
    case True
    then have "bs = []" using read_none [OF less.prems(1) True, of "tgt - cnt"] r by simp
    then show ?thesis using r less.prems by (subst read_until.simps) simp
  next
    case False
    from read_some [OF less.prems(1) _ False r] read_le [of "tgt - cnt" s] r less.prems
    have b: "bs \<noteq> []" "length bs \<le> tgt - cnt" "pending s = bs @ pending s'" "live s'" by auto
    have "\<not> fst (read_until rd tgt (cnt + length bs) (put_at cnt bs buf) s')"
      using less.prems b by (intro less.hyps) (auto simp: diff_less_mono2)
    then show ?thesis using r b less.prems by (subst read_until.simps) simp
  qed
qed

end

text \<open>The serial line is such a source while no read fails: its stream is the concatenation of the
  pieces, whatever the pieces are. The log is kept.\<close>

definition rx_stream :: "Dev \<Rightarrow> u8 list" where
  "rx_stream d = concat (d_rx d)"

definition rx_live :: "dev_op list \<Rightarrow> Dev \<Rightarrow> bool" where
  "rx_live L d = ([] \<notin> set (d_rx d) \<and> d_log d = L)"

interpretation line: byte_source dev_read rx_stream "rx_live L" for L
proof
  fix n s
  show "length (fst (dev_read n s)) \<le> n" by (simp split: list.splits)
next
  fix s n bs s'
  assume "rx_live L s" and n: "(0::nat) < n" and "rx_stream s \<noteq> []" and r: "dev_read n s = (bs, s')"
  then obtain c cs where c: "d_rx s = c # cs" "c \<noteq> []" "[] \<notin> set cs" "d_log s = L"
    by (cases "d_rx s") (auto simp: rx_stream_def rx_live_def)
  then show "bs \<noteq> [] \<and> rx_stream s = bs @ rx_stream s' \<and> rx_live L s'"
    using r n by (auto simp: rx_stream_def rx_live_def split: if_splits)
next
  fix s n
  assume "rx_live L s" and "rx_stream s = []"
  then show "fst (dev_read n s) = []"
    by (cases "d_rx s") (auto simp: rx_stream_def rx_live_def)
qed

declare dev_read.simps [simp del]

section \<open>Events do not depend on how the line delivers them\<close>

text \<open>An event read off the stream itself: bytes before 0x04 are skipped, then code and length,
  then as many parameters as the array holds. The second component is what is left.\<close>

definition event_of_stream :: "nat \<Rightarrow> u8 list \<Rightarrow> (u8 list \<times> u8 list) option" where
  "event_of_stream n st =
     (let ev = dropWhile (\<lambda>b. b \<noteq> 0x04) st in
      if length ev < 3 then None
      else (let k = 3 + min (unat (ev ! 2)) (n - 3) in
            if length ev < k then None else Some (take k ev, drop k ev)))"

lemma read_one:
  assumes "rx_live L d"
  shows "case rx_stream d of
      [] \<Rightarrow> fst (dev_read 1 d) = []
    | b # bs \<Rightarrow> fst (dev_read 1 d) = [b] \<and> rx_stream (snd (dev_read 1 d)) = bs \<and>
        rx_live L (snd (dev_read 1 d))"
proof (cases "rx_stream d")
  case Nil
  then show ?thesis using line.read_none [OF assms] by simp
next
  case (Cons b bs)
  obtain x d' where r: "dev_read 1 d = (x, d')" by fastforce
  from line.read_some [OF assms _ _ r] line.read_le [of 1 d] r Cons
  have "x \<noteq> []" "length x \<le> 1" "b # bs = x @ rx_stream d'" "rx_live L d'" by auto
  then show ?thesis using Cons r by (cases x) auto
qed

lemma sync_finds:
  "rx_live L d \<Longrightarrow> dropWhile (\<lambda>b. b \<noteq> 0x04) (rx_stream d) = b # rest \<Longrightarrow> buf \<noteq> [] \<Longrightarrow>
   (case sync_event buf d of (ok, b1, d1) \<Rightarrow>
      ok \<and> b1 = put_at 0 [0x04] buf \<and> rx_live L d1 \<and> rx_stream d1 = rest)"
proof (induction buf d rule: sync_event.induct)
  case (1 buf d)
  obtain c cs where s: "rx_stream d = c # cs" using "1.prems"(2) by (cases "rx_stream d") auto
  obtain x d' where r: "dev_read 1 d = (x, d')" by fastforce
  have x: "x = [c]" "rx_stream d' = cs" "rx_live L d'"
    using read_one [OF "1.prems"(1)] s r by simp_all
  show ?case
  proof (cases "c = 0x04")
    case True
    then show ?thesis using "1.prems" s r x by (subst sync_event.simps) simp
  next
    case False
    have p: "put_at 0 [0x04] (put_at 0 [c] buf) = put_at 0 [0x04] buf" "put_at 0 [c] buf \<noteq> []"
      using "1.prems"(3) by (simp_all add: put_at_def)
    have "case sync_event (put_at 0 [c] buf) d' of (ok, b1, d1) \<Rightarrow>
        ok \<and> b1 = put_at 0 [0x04] (put_at 0 [c] buf) \<and> rx_live L d1 \<and> rx_stream d1 = rest"
      using "1.IH" [of "(x, d')" x d'] "1.prems" False s r x p by simp
    then show ?thesis using False r x p by (subst sync_event.simps) simp
  qed
qed

lemma sync_fails:
  "rx_live L d \<Longrightarrow> dropWhile (\<lambda>b. b \<noteq> 0x04) (rx_stream d) = [] \<Longrightarrow> \<not> fst (sync_event buf d)"
proof (induction buf d rule: sync_event.induct)
  case (1 buf d)
  obtain x d' where r: "dev_read 1 d = (x, d')" by fastforce
  show ?case
  proof (cases "rx_stream d")
    case Nil
    then show ?thesis using read_one [OF "1.prems"(1)] r by (subst sync_event.simps) simp
  next
    case (Cons c cs)
    have x: "x = [c]" "rx_stream d' = cs" "rx_live L d'"
      using read_one [OF "1.prems"(1)] Cons r by simp_all
    have c: "c \<noteq> 0x04" using "1.prems"(2) Cons by (auto split: if_splits)
    have "\<not> fst (sync_event (put_at 0 [c] buf) d')"
      using "1.IH" [of "(x, d')" x d'] "1.prems" Cons c r x by simp
    then show ?thesis using c r x by (subst sync_event.simps) simp
  qed
qed

lemma dropWhile_head: "dropWhile P xs = y # ys \<Longrightarrow> \<not> P y"
  by (metis hd_dropWhile list.distinct(1) list.sel(1))

lemma header_read:
  assumes "rx_live L d" and "dropWhile (\<lambda>b. b \<noteq> 0x04) (rx_stream d) = 0x04 # rest" and "3 \<le> length buf"
  obtains b1 d1 where "sync_event buf d = (True, b1, d1)"
    and "if length rest < 2 then \<not> fst (read_until dev_read 3 1 b1 d1) else
      (case read_until dev_read 3 1 b1 d1 of (ok, b2, d2) \<Rightarrow>
        ok \<and> b2 = put_at 0 (take 3 (0x04 # rest)) buf \<and> rx_live L d2 \<and> rx_stream d2 = drop 2 rest)"
proof -
  obtain ok b1 d1 where s: "sync_event buf d = (ok, b1, d1)" by (metis prod_cases3)
  have b: "buf \<noteq> []" using assms(3) by auto
  from sync_finds [OF assms(1,2) b] s
  have 1: "ok" "b1 = put_at 0 [0x04] buf" "rx_live L d1" "rx_stream d1 = rest" by simp_all
  have l: "length b1 = length buf" using 1 assms(3) by simp
  have e: "put_at 1 (take 2 rest) b1 = put_at 0 (take 3 (0x04 # rest)) buf" if "2 \<le> length rest"
    using put_at_put_at [of 0 "[0x04]" "take 2 rest" buf] 1 assms(3) that
    by (simp add: numeral_3_eq_3 numeral_2_eq_2)
  show ?thesis
  proof (rule that [of b1 d1])
    show "sync_event buf d = (True, b1, d1)" using s 1 by simp
    show "if length rest < 2 then \<not> fst (read_until dev_read 3 1 b1 d1) else
      (case read_until dev_read 3 1 b1 d1 of (ok, b2, d2) \<Rightarrow>
        ok \<and> b2 = put_at 0 (take 3 (0x04 # rest)) buf \<and> rx_live L d2 \<and> rx_stream d2 = drop 2 rest)"
    proof (cases "length rest < 2")
      case True
      then show ?thesis using line.read_until_short [OF 1(3), of 1 3 b1] 1(4) by simp
    next
      case False
      then show ?thesis
        using line.read_until_enough [OF 1(3), of 1 3 b1] 1(4) l assms(3) e
        by (auto split: prod.splits)
    qed
  qed
qed

lemma read_hci_event_eq:
  assumes "sync_event buf d = (True, b1, d1)" and "read_until dev_read 3 1 b1 d1 = (True, b2, d2)"
    and "3 \<le> n" and "k = unat (b2 ! 2)"
    and "read_until dev_read (3 + min k (n - 3)) 3 b2 d2 = (ok, b3, d3)"
  shows "read_hci_event (int n) buf d = (if ok then int (3 + min k (n - 3)) else - 1, b3, d3)"
proof -
  have "nat (3 + (if int k < int n - 3 then int k else int n - 3)) = 3 + min k (n - 3)"
    using assms(3) by (auto simp: min_def)
  then show ?thesis
    using assms(3,5) unfolding read_hci_event_def assms(1,2) assms(4) [symmetric] prod.case bool.case Let_def
    by (cases ok) simp_all
qed

lemma event_reassembly:
  assumes "[] \<notin> set (d_rx d)" and "3 \<le> n" and "n \<le> length buf"
  shows "case event_of_stream n (rx_stream d) of
      None \<Rightarrow> fst (read_hci_event (int n) buf d) = - 1
    | Some (ev, rest) \<Rightarrow>
        (case read_hci_event (int n) buf d of (r, b, d') \<Rightarrow>
           r = int (length ev) \<and> b = put_at 0 ev buf \<and> rx_stream d' = rest \<and>
           d_log d' = d_log d \<and> [] \<notin> set (d_rx d'))"
proof (cases "dropWhile (\<lambda>b. b \<noteq> 0x04) (rx_stream d)")
  case Nil
  have "\<not> fst (sync_event buf d)"
    using sync_fails [of "d_log d" d buf] Nil assms(1) by (simp add: rx_live_def)
  then have "fst (read_hci_event (int n) buf d) = - 1"
    using assms(2) by (auto simp: read_hci_event_def split: prod.splits bool.splits)
  moreover have "event_of_stream n (rx_stream d) = None"
    unfolding event_of_stream_def Nil Let_def by simp
  ultimately show ?thesis by simp
next
  case (Cons x rest)
  have x: "x = 0x04" using dropWhile_head [OF Cons] by simp
  have live: "rx_live (d_log d) d" using assms(1) by (simp add: rx_live_def)
  have b: "3 \<le> length buf" using assms by simp
  obtain b1 d1 where s: "sync_event buf d = (True, b1, d1)"
    and hdr: "if length rest < 2 then \<not> fst (read_until dev_read 3 1 b1 d1) else
      (case read_until dev_read 3 1 b1 d1 of (ok, b2, d2) \<Rightarrow>
        ok \<and> b2 = put_at 0 (take 3 (0x04 # rest)) buf \<and> rx_live (d_log d) d2 \<and> rx_stream d2 = drop 2 rest)"
    by (rule header_read [OF live Cons [unfolded x] b])
  show ?thesis
  proof (cases "length rest < 2")
    case True
    then obtain b2 d2 where "read_until dev_read 3 1 b1 d1 = (False, b2, d2)"
      using hdr by (cases "read_until dev_read 3 1 b1 d1") auto
    then have "fst (read_hci_event (int n) buf d) = - 1"
      using s assms(2) by (simp add: read_hci_event_def)
    moreover have "event_of_stream n (rx_stream d) = None"
      unfolding event_of_stream_def Cons Let_def using True by simp
    ultimately show ?thesis by simp
  next
    case False
    then obtain d2 where r: "read_until dev_read 3 1 b1 d1 = (True, put_at 0 (take 3 (0x04 # rest)) buf, d2)"
      and d2: "rx_live (d_log d) d2" "rx_stream d2 = drop 2 rest"
      using hdr by (auto split: prod.splits)
    let ?b2 = "put_at 0 (take 3 (0x04 # rest)) buf"
    let ?m = "min (unat (rest ! 1)) (n - 3)"
    have p: "?b2 ! 2 = rest ! 1" "length ?b2 = length buf"
      using nth_put_at [of 0 "take 3 (0x04 # rest)" buf 2] False b by (simp_all add: numeral_eq_Suc)
    obtain ok b3 d3 where q: "read_until dev_read (3 + ?m) 3 ?b2 d2 = (ok, b3, d3)" by (metis prod_cases3)
    have res: "read_hci_event (int n) buf d = (if ok then int (3 + ?m) else - 1, b3, d3)"
      using read_hci_event_eq [OF s r assms(2), of "unat (rest ! 1)" ok b3 d3] q p by simp
    show ?thesis
    proof (cases "?m \<le> length rest - 2")
      case True
      have "ok \<and> b3 = put_at 3 (take ?m (drop 2 rest)) ?b2 \<and> rx_live (d_log d) d3 \<and>
          rx_stream d3 = drop ?m (drop 2 rest)"
        using line.read_until_enough [OF d2(1), of 3 "3 + ?m" ?b2] q d2(2) p True assms(2,3) by simp
      moreover have "put_at 3 (take ?m (drop 2 rest)) ?b2 = put_at 0 (take (3 + ?m) (0x04 # rest)) buf"
        using put_at_put_at [of 0 "take 3 (0x04 # rest)" "take ?m (drop 2 rest)" buf] False True assms(2,3)
        unfolding take_add by simp
      ultimately show ?thesis using Cons x res False True
        by (auto simp: event_of_stream_def Let_def rx_live_def numeral_3_eq_3 numeral_2_eq_2)
    next
      case f: False
      have "\<not> ok"
        using line.read_until_short [OF d2(1), of 3 "3 + ?m" ?b2] q d2(2) f by (simp add: not_le)
      then show ?thesis using Cons x res False f
        by (auto simp: event_of_stream_def Let_def numeral_3_eq_3 numeral_2_eq_2)
    qed
  qed
qed

text \<open>C5: an event is reassembled from the bytes of the line alone: whatever the lengths of the
  pieces in which they arrive, \<open>read_hci_event\<close> skips to the start byte, returns the event (cut to
  the array) with its length, leaves the rest of the array alone and the rest of the stream unread;
  it fails exactly when the stream ends inside the event.\<close>

theorem hci_event_reassembly:
  assumes "[] \<notin> set (d_rx d)" and "3 \<le> n" and "n \<le> length buf"
  shows "case event_of_stream n (rx_stream d) of
      None \<Rightarrow> fst (read_hci_event (int n) buf d) = - 1
    | Some (ev, rest) \<Rightarrow>
        (case read_hci_event (int n) buf d of (r, b, d') \<Rightarrow>
           r = int (length ev) \<and> b = put_at 0 ev buf \<and> rx_stream d' = rest \<and>
           d_log d' = d_log d \<and> [] \<notin> set (d_rx d'))"
  using assms by (rule event_reassembly)

theorem hci_event_reassembly_witness:
  "fst (read_hci_event 100 (replicate 100 0)
     \<lparr>d_rx = [[0xAA, 0x04], [0x0E], [0x02, 0x01, 0x00], [0x77]], d_log = []\<rparr>) = 5"
  using hci_event_reassembly [of "\<lparr>d_rx = [[0xAA, 0x04], [0x0E], [0x02, 0x01, 0x00], [0x77]], d_log = []\<rparr>"
      100 "replicate 100 0"]
  by (simp add: event_of_stream_def rx_stream_def split: prod.splits)

section \<open>The array of the event is safe\<close>

lemma dev_read_log [simp]: "d_log (snd (dev_read n d)) = d_log d"
  by (simp add: dev_read.simps split: list.splits)

lemma sync_event_frame:
  "buf \<noteq> [] \<Longrightarrow> (case sync_event buf d of (ok, b, d') \<Rightarrow> length b = length buf \<and> d_log d' = d_log d)"
proof (induction buf d rule: sync_event.induct)
  case (1 buf d)
  obtain x d' where r: "dev_read 1 d = (x, d')" by fastforce
  have l: "length x \<le> 1" "d_log d' = d_log d"
    using line.read_le [of 1 d] dev_read_log [of 1 d] unfolding r by simp_all
  show ?case
  proof (cases "x = [] \<or> hd x = 0x04")
    case True
    then show ?thesis using r l "1.prems" by (subst sync_event.simps) (cases buf; auto)
  next
    case False
    have n: "put_at 0 x buf \<noteq> []" "length (put_at 0 x buf) = length buf"
      using l "1.prems" False by (cases buf; simp add: put_at_def)+
    have "case sync_event (put_at 0 x buf) d' of (ok, b, e) \<Rightarrow>
        length b = length (put_at 0 x buf) \<and> d_log e = d_log d'"
      using "1.IH" [of "(x, d')" x d'] False r n by simp
    then show ?thesis using r l n False by (subst sync_event.simps) simp
  qed
qed

lemma read_until_log [simp]: "d_log (snd (snd (read_until dev_read tgt cnt buf d))) = d_log d"
proof (induction "tgt - cnt" arbitrary: cnt buf d rule: less_induct)
  case less
  obtain bs d' where r: "dev_read (tgt - cnt) d = (bs, d')" by fastforce
  have l: "d_log d' = d_log d" using dev_read_log [of "tgt - cnt" d] unfolding r by simp
  show ?case
  proof (cases "cnt < tgt \<and> bs \<noteq> []")
    case True
    then have "d_log (snd (snd (read_until dev_read tgt (cnt + length bs) (put_at cnt bs buf) d'))) = d_log d'"
      by (intro less.hyps) (auto intro!: diff_less_mono2 simp flip: length_greater_0_conv)
    then show ?thesis using r l True by (subst read_until.simps) simp
  next
    case False
    then show ?thesis using r l by (subst read_until.simps) auto
  qed
qed

lemma read_until_frame:
  assumes "read_until dev_read tgt cnt buf d = (ok, b, d')"
  shows "d_log d' = d_log d" and "cnt \<le> tgt \<Longrightarrow> tgt \<le> length buf \<Longrightarrow> length b = length buf"
  using read_until_log [of tgt cnt buf d] line.read_until_length [of cnt tgt buf d]
  unfolding assms by simp_all

text \<open>Whatever the line delivers, failing reads and events longer than the array included, an
  event is stored inside the array: its size does not change, the count returned is the header's
  three bytes at least and the array's size at most, or -1. Nothing is written to the line.\<close>

theorem hci_event_in_array:
  assumes "3 \<le> n" and "n \<le> length buf"
  shows "case read_hci_event (int n) buf d of (r, b, d') \<Rightarrow>
    (r = - 1 \<or> 3 \<le> r) \<and> r \<le> int n \<and> length b = length buf \<and> d_log d' = d_log d"
proof -
  obtain ok1 b1 d1 where s: "sync_event buf d = (ok1, b1, d1)" by (metis prod_cases3)
  obtain ok2 b2 d2 where r: "read_until dev_read 3 1 b1 d1 = (ok2, b2, d2)" by (metis prod_cases3)
  let ?k = "unat (b2 ! 2)"
  obtain ok3 b3 d3 where q: "read_until dev_read (3 + min ?k (n - 3)) 3 b2 d2 = (ok3, b3, d3)"
    by (metis prod_cases3)
  have 1: "length b1 = length buf" "d_log d1 = d_log d"
    using sync_event_frame [of buf d] s assms by (cases buf; simp)+
  have 2: "length b2 = length buf" "d_log d2 = d_log d"
    using read_until_frame [OF r] 1 assms by simp_all
  have 3: "length b3 = length buf" "d_log d3 = d_log d"
    using read_until_frame [OF q] 2 assms by simp_all
  show ?thesis
  proof (cases "ok1 \<and> ok2")
    case True
    then show ?thesis
      using read_hci_event_eq [of buf d b1 d1 b2 d2 n ?k ok3 b3 d3] s r q 3 assms by auto
  next
    case False
    then show ?thesis using s r 1 2 assms by (cases ok1; cases ok2) (auto simp: read_hci_event_def)
  qed
qed

theorem hci_event_in_array_witness:
  "length (fst (snd (read_hci_event 4 [0, 0, 0, 0] \<lparr>d_rx = [[4, 1, 200], [], [9, 9]], d_log = []\<rparr>))) = 4"
  using hci_event_in_array [of 4 "[0, 0, 0, 0]" "\<lparr>d_rx = [[4, 1, 200], [], [9, 9]], d_log = []\<rparr>"]
  by (simp split: prod.splits)

section \<open>The command channel\<close>

text \<open>What a command exchange needs of its environment: both writes are complete and the event
  array is there.\<close>

definition channel_ok :: "Host \<Rightarrow> u8 list \<Rightarrow> Dev \<Rightarrow> bool" where
  "channel_ok h frame d =
     (h_write h (d_log d) [0x01] = 1 \<and>
      h_write h (d_log d @ [Wr [0x01]]) frame = int (length frame) \<and>
      (case h_malloc h (d_log d @ [Wr [0x01], Wr frame]) 100 of
         None \<Rightarrow> False | Some ev \<Rightarrow> length ev = 100))"

text \<open>An event that reports the success of the vendor command \<open>ocf\<close>.\<close>

definition success_event :: "u16 \<Rightarrow> u8 list \<Rightarrow> bool" where
  "success_event ocf ev =
     (7 \<le> length ev \<and> ev ! 1 = 0x0E \<and>
      ev ! 4 = low_byte (cmd_opcode_pack HCI_VENDOR_CMD_OGF ocf) \<and>
      ev ! 5 = high_byte (cmd_opcode_pack HCI_VENDOR_CMD_OGF ocf) \<and> ev ! 6 = 0)"

lemma split_u16: "(ucast (a :: u8) OR push_bit 8 (ucast (b :: u8)) = (w :: u16)) = (a = low_byte w \<and> b = high_byte w)"
proof
  assume w: "ucast a OR push_bit 8 (ucast b) = w"
  have no: "\<not> bit a (8 + k)" for k using bit_imp_le_length [of a "8 + k"] by auto
  show "a = low_byte w \<and> b = high_byte w"
    unfolding w [symmetric] low_byte_def high_byte_def
    by (auto intro!: bit_word_eqI simp: bit_simps no)
next
  assume w: "a = low_byte w \<and> b = high_byte w"
  show "ucast a OR push_bit 8 (ucast b) = w"
    using w unfolding low_byte_def high_byte_def
    by (auto intro!: bit_word_eqI simp: bit_simps)
qed

lemma sync_exchange:
  assumes "[] \<notin> set (d_rx d)" and "channel_ok h (take len cmd) d" and "0 < len" and "len \<le> length cmd"
    and "event_of_stream 100 (rx_stream d) = Some (ev, rest)"
  shows "case send_hci_cmd_sync h cmd len d of (r, e, d') \<Rightarrow>
    r = int len \<and> (case e of None \<Rightarrow> False | Some x \<Rightarrow> length x = 100 \<and> take (length ev) x = ev) \<and>
    rx_stream d' = rest \<and> d_log d' = d_log d @ [Wr [0x01], Wr (take len cmd)] \<and> [] \<notin> set (d_rx d')"
proof -
  let ?d2 = "log_op (Wr (take len cmd)) (log_op (Wr [0x01]) d)"
  obtain e where e: "h_malloc h (d_log d @ [Wr [0x01], Wr (take len cmd)]) 100 = Some e" "length e = 100"
    using assms(2) by (auto simp: channel_ok_def split: option.splits)
  have st: "rx_stream ?d2 = rx_stream d" "[] \<notin> set (d_rx ?d2)"
    using assms(1) by (simp_all add: rx_stream_def)
  have lev: "length ev \<le> 100" "3 \<le> length ev"
    using assms(5) by (auto simp: event_of_stream_def Let_def split: if_splits)
  have "case read_hci_event (int 100) e ?d2 of (r, b, d') \<Rightarrow>
      r = int (length ev) \<and> b = put_at 0 ev e \<and> rx_stream d' = rest \<and>
      d_log d' = d_log ?d2 \<and> [] \<notin> set (d_rx d')"
    using event_reassembly [of ?d2 100 e] st e assms(5) by simp
  then show ?thesis
    using assms(2,3,4) e lev
    by (auto simp: send_hci_cmd_sync_def dev_write_def Let_def channel_ok_def PS_EVENT_LEN_def
        put_at_def split: prod.splits)
qed

lemma sync_event_log [simp]: "d_log (snd (snd (sync_event buf d))) = d_log d"
proof (induction buf d rule: sync_event.induct)
  case (1 buf d)
  obtain x d' where r: "dev_read 1 d = (x, d')" by fastforce
  have l: "d_log d' = d_log d" using dev_read_log [of 1 d] unfolding r by simp
  show ?case
  proof (cases "x = [] \<or> hd x = 0x04")
    case True
    then show ?thesis using r l by (subst sync_event.simps) auto
  next
    case False
    then have "d_log (snd (snd (sync_event (put_at 0 x buf) d'))) = d_log d'"
      using "1.IH" [of "(x, d')" x d'] r by simp
    then show ?thesis using r l False by (subst sync_event.simps) simp
  qed
qed

lemma read_hci_event_log: "read_hci_event n buf d = (r, b, d') \<Longrightarrow> d_log d' = d_log d"
proof -
  assume a: "read_hci_event n buf d = (r, b, d')"
  obtain ok1 b1 d1 where s: "sync_event buf d = (ok1, b1, d1)" by (metis prod_cases3)
  obtain ok2 b2 d2 where t: "read_until dev_read 3 1 b1 d1 = (ok2, b2, d2)" by (metis prod_cases3)
  have l1: "d_log d1 = d_log d" using sync_event_log [of buf d] unfolding s by simp
  have l2: "d_log d2 = d_log d" using read_until_log [of 3 1 b1 d1] l1 unfolding t by simp
  show ?thesis
    using a s t l1 l2
    by (auto simp: read_hci_event_def Let_def dest: read_until_frame(1)
        split: if_splits prod.splits bool.splits)
qed

text \<open>Any exchange, successful or not, puts at most the two writes of its command on the line, in
  order; a result of 0 or more means both are there.\<close>

definition exchange_log :: "u8 list \<Rightarrow> bool \<Rightarrow> dev_op list \<Rightarrow> dev_op list \<Rightarrow> bool" where
  "exchange_log frame good l l' =
     (if good then l' = l @ [Wr [0x01], Wr frame]
      else (l' = l @ [Wr [0x01]] \<or> l' = l @ [Wr [0x01], Wr frame]))"

lemma send_log:
  "0 < len \<Longrightarrow> send_hci_cmd_sync h cmd len d = (r, e, d') \<Longrightarrow>
   exchange_log (take len cmd) (0 \<le> r) (d_log d) (d_log d')"
  by (auto simp: send_hci_cmd_sync_def exchange_log_def dev_write_def Let_def hci_consts
      dest: read_hci_event_log split: if_splits option.splits prod.splits)

lemma sync_status_log:
  "0 < len \<Longrightarrow> sync_status h cmd len ocf d = (r, d') \<Longrightarrow>
   exchange_log (take len cmd) (0 \<le> r) (d_log d) (d_log d')"
  by (auto simp: sync_status_def exchange_log_def dest: send_log split: if_splits option.splits prod.splits)

lemma success_event_iff:
  assumes "take (length ev) x = ev" and "7 \<le> length ev"
  shows "(read_ps_event x ocf = 0) = success_event ocf ev"
proof -
  have n: "x ! i = ev ! i" if "i < 7" for i
    using that assms nth_take [of i "length ev" x] by simp
  show ?thesis
    using assms(2) by (simp add: read_ps_event_def success_event_def n Let_def split_u16 hci_consts)
qed

text \<open>When the line works, a command is sent as its packet type and its bytes, the answer is
  the next event of the stream, and the command counts as done exactly when that event is the
  success of a vendor command of the same opcode; nothing else is read or written.\<close>

theorem write_cmd_accepts:
  assumes "[] \<notin> set (d_rx d)" and "channel_ok h (take len cmd) d" and "0 < len" and "len \<le> length cmd"
    and "event_of_stream 100 (rx_stream d) = Some (ev, rest)" and "7 \<le> length ev"
  shows "case write_cmd h cmd len d of (r, d') \<Rightarrow>
    (r = 0) = success_event HCI_PS_CMD_OCF ev \<and> rx_stream d' = rest \<and>
    d_log d' = d_log d @ [Wr [0x01], Wr (take len cmd)]"
  using sync_exchange [OF assms(1-5)] assms(3,6) success_event_iff [OF _ assms(6)]
  by (auto simp: write_cmd_def sync_status_def split: prod.splits option.splits)

definition demo_host :: "(string \<Rightarrow> string option) \<Rightarrow> Host" where
  "demo_host fs =
     \<lparr>h_write = \<lambda>l bs. int (length bs), h_malloc = \<lambda>l n. Some (replicate n 0), h_stack = \<lambda>i. 0xCC,
      h_speed = \<lambda>l v. 0, h_tio = \<lambda>l. True, h_modem = \<lambda>l. Some 0, h_ioctl = \<lambda>l x. 0,
      h_open = \<lambda>p. 3, h_file = fs, h_fwdir = ''/fw/''\<rparr>"

definition ps_ack :: "u8 list" where
  "ps_ack = [0x04, 0x0E, 0x04, 0x01, 0x0B, 0xFC, 0x00]"

theorem write_cmd_accepts_witness:
  "fst (write_cmd (demo_host (\<lambda>p. None)) [0x0B, 0xFC, 0x04, 0x0B, 0, 0, 0] 7
     \<lparr>d_rx = [ps_ack], d_log = []\<rparr>) = 0"
  using write_cmd_accepts [of "\<lparr>d_rx = [ps_ack], d_log = []\<rparr>" "demo_host (\<lambda>p. None)" 7
      "[0x0B, 0xFC, 0x04, 0x0B, 0, 0, 0]" ps_ack "[]"]
  by (simp add: channel_ok_def demo_host_def ps_ack_def event_of_stream_def rx_stream_def success_event_def
      low_byte_def high_byte_def cmd_opcode_pack_def hci_consts split: prod.splits)

end
