(* ===== verification/Ps_Config.thy ===== *)
theory Ps_Config
  imports C_Prelude
begin

text \<open>
  The parser of the controller's persistent settings (\<open>ath_parse_ps\<close> and its helpers in
  src/libbt-ath3k/src/hardware_QCA3002.c). A file is a sequence of entries: a line that starts with
  #, a line with the id, a line with the length, then the bytes as pairs of hexadecimal digits, 16 to
  a line. A state is what the C function keeps between two lines, the line buffer with its old
  contents included; \<open>ps_line\<close> is the body of its loop. Writing outside an array or through NULL
  is the result \<open>Crash\<close>, so that the properties can say when it happens.
\<close>

section \<open>Data\<close>

datatype ps_section = PS_UNDEF | PS_ID | PS_LEN | PS_DATA

text \<open>The sections in the order of their numbers in the source.\<close>

primrec section_no :: "ps_section \<Rightarrow> nat" where
  "section_no PS_UNDEF = 0"
| "section_no PS_ID = 1"
| "section_no PS_LEN = 2"
| "section_no PS_DATA = 3"

instantiation ps_section :: linorder
begin

definition less_eq_ps_section :: "ps_section \<Rightarrow> ps_section \<Rightarrow> bool" where
  "less_eq_ps_section a b = (section_no a \<le> section_no b)"

definition less_ps_section :: "ps_section \<Rightarrow> ps_section \<Rightarrow> bool" where
  "less_ps_section a b = (section_no a < section_no b)"

instance
proof
  fix x y :: ps_section
  show "x \<le> y \<Longrightarrow> y \<le> x \<Longrightarrow> x = y"
    by (cases x; cases y) (simp_all add: less_eq_ps_section_def)
qed (auto simp: less_eq_ps_section_def less_ps_section_def)

end

datatype ps_number = PS_HEX | PS_DEC

record ps_entry_type =
  pt_type :: ps_number
  pt_array :: bool

record tag_info =
  ti_section :: ps_section
  line_count :: nat
  char_cnt :: nat
  byte_count :: nat

text \<open>An entry of \<open>ps_list\<close>; the data is the array that \<open>malloc\<close> returned, \<open>None\<close> for NULL.\<close>

record ps_cfg_entry =
  pe_id :: u32
  pe_len :: u32
  pe_data :: "u8 list option"

record PsState =
  ps_buf :: string
  tag_cnt :: nat
  ps_bytes :: int
  ps_format :: ps_entry_type
  ps_status :: tag_info
  ps_tags :: "ps_cfg_entry list"

datatype ps_out = Go PsState | Stop int "ps_cfg_entry list" | Crash

definition MAX_TAGS :: nat where "MAX_TAGS = 50"
definition PS_MAX_LEN :: int where "PS_MAX_LEN = 500"
definition LINE_SIZE_MAX :: nat where "LINE_SIZE_MAX = 1000"
definition ENTRY_PER_LINE :: int where "ENTRY_PER_LINE = 16"
definition UNDEFINED :: u32 where "UNDEFINED = 0xFFFF"
definition PS_EILSEQ :: int where "PS_EILSEQ = 84"

lemmas ps_consts = MAX_TAGS_def PS_MAX_LEN_def LINE_SIZE_MAX_def ENTRY_PER_LINE_def UNDEFINED_def
  PS_EILSEQ_def

definition no_status :: tag_info where
  "no_status = \<lparr>ti_section = PS_UNDEF, line_count = 0, char_cnt = 0, byte_count = 0\<rparr>"

section \<open>One line\<close>

text \<open>The body of the loop of \<open>get_ps_type\<close>: letters before the colon give the type, letters after
  it the subtype, the last one of each wins.\<close>

definition ps_type_step :: "string \<Rightarrow> bool \<times> char \<times> char \<Rightarrow> nat \<Rightarrow> bool \<times> char \<times> char" where
  "ps_type_step str st i =
     (case st of
        (delim, ty, sub) \<Rightarrow>
          (let c = byte_at str i in
           if c = CHR '':'' then (True, ty, sub)
           else if isalpha c then (if delim then (delim, ty, toupper c) else (delim, toupper c, sub))
           else st))"

definition get_ps_type :: "string \<Rightarrow> nat \<Rightarrow> (char \<times> char) option" where
  "get_ps_type str index =
     (if index > 4 then None
      else Some (snd (foldl (ps_type_step str) (False, NUL, NUL) [1..<index])))"

text \<open>The position of the first closing bracket.\<close>

definition bracket_end :: "string \<Rightarrow> nat option" where
  "bracket_end str =
     (if CHR '']'' \<in> set str then Some (length (takeWhile (\<lambda>c. c \<noteq> CHR '']'') str)) else None)"

definition starts_with :: "char \<Rightarrow> string \<Rightarrow> bool" where
  "starts_with c str = (case str of [] \<Rightarrow> False | x # xs \<Rightarrow> x = c)"

definition get_input_format :: "string \<Rightarrow> ps_entry_type option" where
  "get_input_format str =
     (if \<not> starts_with (CHR ''['') str then Some \<lparr>pt_type = PS_HEX, pt_array = True\<rparr>
      else
        (case bracket_end str of
           None \<Rightarrow> None
         | Some i \<Rightarrow>
             (case get_ps_type str i of
                None \<Rightarrow> None
              | Some (ty, sub) \<Rightarrow>
                  Some \<lparr>pt_type = (if ty = CHR ''D'' \<or> ty = CHR ''B'' then PS_DEC else PS_HEX),
                        pt_array = \<not> (ty = CHR ''S'' \<or> sub = CHR ''S'')\<rparr>)))"

definition read_data_in_section :: "string \<Rightarrow> ps_entry_type \<Rightarrow> u32" where
  "read_data_in_section str ty =
     (case (if starts_with (CHR ''['') str then map_option Suc (bracket_end str) else Some 0) of
        None \<Rightarrow> UNDEFINED
      | Some i \<Rightarrow>
          if pt_type ty = PS_HEX \<and> \<not> pt_array ty then word_of_int (strtol16 (drop i str))
          else UNDEFINED)"

text \<open>Two characters of the array as a byte, and its store; the buffer is the whole array, so that
  characters after the end of the line are what older lines left there.\<close>

definition hex_pair :: "string \<Rightarrow> nat \<Rightarrow> u8" where
  "hex_pair a i = word_of_int (strtol16 (cstr [byte_at a i, byte_at a (Suc i)]))"

definition tag_put :: "nat \<Rightarrow> u8 \<Rightarrow> u8 list option \<Rightarrow> u8 list option option" where
  "tag_put i v dat =
     (case dat of None \<Rightarrow> None | Some d \<Rightarrow> if i < length d then Some (Some (d[i := v])) else None)"

definition update_tag_data :: "string \<Rightarrow> tag_info \<times> u8 list option \<Rightarrow> (tag_info \<times> u8 list option) option" where
  "update_tag_data a x =
     (case x of
        (info, d0) \<Rightarrow>
          (case tag_put (byte_count info) (hex_pair a (char_cnt info)) d0 of
             None \<Rightarrow> None
           | Some d1 \<Rightarrow>
               (let i1 = info\<lparr>char_cnt := char_cnt info + 3, byte_count := byte_count info + 1\<rparr> in
                case tag_put (byte_count i1) (hex_pair a (char_cnt i1)) d1 of
                  None \<Rightarrow> None
                | Some d2 \<Rightarrow>
                    Some (i1\<lparr>char_cnt := char_cnt i1 + 3, byte_count := byte_count i1 + 1\<rparr>, d2))))"

function fill_tag :: "string \<Rightarrow> int \<Rightarrow> tag_info \<times> u8 list option \<Rightarrow> (tag_info \<times> u8 list option) option" where
  "fill_tag a read_count x =
     (if read_count > 0 then
        (case update_tag_data a x of None \<Rightarrow> None | Some y \<Rightarrow> fill_tag a (read_count - 2) y)
      else Some x)"
  by pat_completeness auto
termination by (relation "measure (\<lambda>(a, rc, x). nat rc)") auto

declare fill_tag.simps [simp del]

definition update_char_count :: "string \<Rightarrow> nat" where
  "update_char_count str =
     (if starts_with (CHR ''['') str then (case bracket_end str of None \<Rightarrow> 0 | Some i \<Rightarrow> i + 1) else 0)"

definition skip_space :: "string \<Rightarrow> nat \<Rightarrow> nat" where
  "skip_space buf p = p + length (takeWhile (\<lambda>c. c = CHR '' '') (drop p buf))"

section \<open>The parser\<close>

definition set_tag :: "(ps_cfg_entry \<Rightarrow> ps_cfg_entry) \<Rightarrow> PsState \<Rightarrow> PsState" where
  "set_tag f s = s\<lparr>ps_tags := (ps_tags s)[tag_cnt s := f (ps_tags s ! tag_cnt s)]\<rparr>"

definition set_section :: "ps_section \<Rightarrow> PsState \<Rightarrow> PsState" where
  "set_section x s = s\<lparr>ps_status := (ps_status s)\<lparr>ti_section := x\<rparr>\<rparr>"

definition ps_id_line :: "string \<Rightarrow> PsState \<Rightarrow> ps_out" where
  "ps_id_line str s =
     (case get_input_format str of
        None \<Rightarrow> Stop (- PS_EILSEQ) (ps_tags s)
      | Some f \<Rightarrow>
          Go (set_section PS_LEN (set_tag (\<lambda>t. t\<lparr>pe_id := read_data_in_section str f\<rparr>) (s\<lparr>ps_format := f\<rparr>))))"

text \<open>The length is an \<open>int16_t\<close>; \<open>malloc\<close> takes it as a \<open>size_t\<close>, so that a negative length asks
  for more memory than there is and gives NULL.\<close>

definition ps_malloc :: "(nat \<Rightarrow> u8 list option) \<Rightarrow> int \<Rightarrow> u8 list option" where
  "ps_malloc m n = (if n < 0 then None else m (nat n))"

definition ps_len_line :: "(nat \<Rightarrow> u8 list option) \<Rightarrow> string \<Rightarrow> PsState \<Rightarrow> ps_out" where
  "ps_len_line m str s =
     (case get_input_format str of
        None \<Rightarrow> Stop (- PS_EILSEQ) (ps_tags s)
      | Some f \<Rightarrow>
          (let n = wrap16 (uint (read_data_in_section str f)) in
           if n > PS_MAX_LEN then Stop (- PS_EILSEQ) (ps_tags s)
           else
             (let s1 = set_tag (\<lambda>t. t\<lparr>pe_len := word_of_int n, pe_data := ps_malloc m n\<rparr>)
                         (s\<lparr>ps_format := f, ps_bytes := n\<rparr>)
              in Go (s1\<lparr>ps_status := (ps_status s1)\<lparr>ti_section := PS_DATA, line_count := 0\<rparr>\<rparr>))))"

text \<open>The end of a data line: the entry is complete when no bytes are left.\<close>

definition ps_data_end :: "PsState \<Rightarrow> ps_out" where
  "ps_data_end s =
     (let st = (ps_status s)\<lparr>line_count := line_count (ps_status s) + 1\<rparr>;
          s1 = s\<lparr>ps_status := (if ps_bytes s = 0 then no_status else st)\<rparr>;
          s2 = (if ti_section (ps_status s1) = PS_UNDEF then s1\<lparr>tag_cnt := tag_cnt s1 + 1\<rparr> else s1)
      in if tag_cnt s2 = MAX_TAGS then Stop (- PS_EILSEQ) (ps_tags s2) else Go s2)"

definition ps_data_line :: "nat \<Rightarrow> PsState \<Rightarrow> ps_out" where
  "ps_data_line p s =
     (case (if line_count (ps_status s) = 0 then get_input_format (cstr (drop p (ps_buf s)))
            else Some (ps_format s)) of
        None \<Rightarrow> Stop (- PS_EILSEQ) (ps_tags s)
      | Some f \<Rightarrow>
          (let a = drop (skip_space (ps_buf s) p) (ps_buf s);
               st = (ps_status s)\<lparr>char_cnt := update_char_count (cstr a)\<rparr>;
               n = ps_bytes s;
               read_count = (if n > ENTRY_PER_LINE then ENTRY_PER_LINE else n)
           in if pt_type f = PS_HEX \<and> pt_array f then
                (case fill_tag a read_count (st, pe_data (ps_tags s ! tag_cnt s)) of
                   None \<Rightarrow> Crash
                 | Some (st', d') \<Rightarrow>
                     ps_data_end (set_tag (\<lambda>t. t\<lparr>pe_data := d'\<rparr>)
                       (s\<lparr>ps_format := f, ps_status := st',
                          ps_bytes := (if n > ENTRY_PER_LINE then n - ENTRY_PER_LINE else 0)\<rparr>)))
              else ps_data_end (s\<lparr>ps_format := f, ps_status := st\<rparr>)))"

definition ps_line :: "(nat \<Rightarrow> u8 list option) \<Rightarrow> PsState \<Rightarrow> ps_out" where
  "ps_line m s =
     (let buf = ps_buf s; p = skip_space buf 0; str = cstr (drop p buf) in
      if byte_at buf p = CHR ''/'' \<and> byte_at buf (Suc p) = CHR ''/'' then Go s
      else if starts_with (CHR ''#'') str then
        (if ti_section (ps_status s) \<noteq> PS_UNDEF then Stop (- PS_EILSEQ) (ps_tags s)
         else Go (set_section PS_ID s))
      else
        (case ti_section (ps_status s) of
           PS_UNDEF \<Rightarrow> Go s
         | PS_ID \<Rightarrow> ps_id_line str s
         | PS_LEN \<Rightarrow> ps_len_line m str s
         | PS_DATA \<Rightarrow> ps_data_line p s))"

text \<open>The loop over the lines; \<open>None\<close> when one of them crashes.\<close>

function ps_loop :: "(nat \<Rightarrow> u8 list option) \<Rightarrow> string \<Rightarrow> PsState \<Rightarrow> (int \<times> ps_cfg_entry list) option" where
  "ps_loop m st s =
     (case fgets LINE_SIZE_MAX st of
        None \<Rightarrow> Some (int (tag_cnt s), ps_tags s)
      | Some (l, st') \<Rightarrow>
          (case ps_line m (s\<lparr>ps_buf := overwrite (ps_buf s) (l @ [NUL])\<rparr>) of
             Go s' \<Rightarrow> ps_loop m st' s'
           | Stop r tags \<Rightarrow> Some (r, tags)
           | Crash \<Rightarrow> None))"
  by pat_completeness auto
termination
  by (relation "measure (\<lambda>(m, st, s). length st)") (auto dest: fgets_progress simp: LINE_SIZE_MAX_def)

declare ps_loop.simps [simp del]

definition ps_start :: "string \<Rightarrow> ps_cfg_entry list \<Rightarrow> PsState" where
  "ps_start junk tags =
     \<lparr>ps_buf = junk, tag_cnt = 0, ps_bytes = 0,
      ps_format = \<lparr>pt_type = PS_HEX, pt_array = True\<rparr>, ps_status = no_status, ps_tags = tags\<rparr>"

definition ath_parse_ps ::
    "(nat \<Rightarrow> u8 list option) \<Rightarrow> string \<Rightarrow> ps_cfg_entry list \<Rightarrow> string \<Rightarrow> (int \<times> ps_cfg_entry list) option" where
  "ath_parse_ps m junk tags stream = ps_loop m stream (ps_start junk tags)"

section \<open>Numbers in hexadecimal text\<close>

definition hexdig :: "nat \<Rightarrow> char" where
  "hexdig n = char_of (if n < 10 then 48 + n else 55 + n)"

primrec hex_digits :: "nat \<Rightarrow> nat \<Rightarrow> string" where
  "hex_digits 0 n = []"
| "hex_digits (Suc w) n = hex_digits w (n div 16) @ [hexdig (n mod 16)]"

lemma code_hexdig: "n < 16 \<Longrightarrow> code (hexdig n) = (if n < 10 then 48 + n else 55 + n)"
  by (auto simp: code_def hexdig_def)

lemma hexdig_facts:
  assumes "n < 16"
  shows "hexval (hexdig n) = Some (int n)" and "\<not> isspace (hexdig n)"
    and "hexdig n \<notin> {NUL, NL, CHR ''+'', CHR ''-'', CHR '' '', CHR ''x'', CHR ''X'', CHR ''['', CHR '']'', CHR ''#'', CHR ''/''}"
proof -
  have c: "code (hexdig n) = (if n < 10 then 48 + n else 55 + n)" using assms by (rule code_hexdig)
  then show "hexval (hexdig n) = Some (int n)" "\<not> isspace (hexdig n)"
    using assms by (auto simp: hexval_def isspace_def)
  have "code (hexdig n) \<notin> code ` {NUL, NL, CHR ''+'', CHR ''-'', CHR '' '', CHR ''x'', CHR ''X'', CHR ''['', CHR '']'', CHR ''#'', CHR ''/''}"
    using assms unfolding c by (auto simp: code_def)
  then show "hexdig n \<notin> {NUL, NL, CHR ''+'', CHR ''-'', CHR '' '', CHR ''x'', CHR ''X'', CHR ''['', CHR '']'', CHR ''#'', CHR ''/''}"
    by blast
qed

definition hex_text :: "string \<Rightarrow> bool" where
  "hex_text s = (\<forall>c\<in>set s. \<exists>n<16. c = hexdig n)"

lemma length_hex_digits [simp]: "length (hex_digits w n) = w"
  by (induction w arbitrary: n) simp_all

lemma hex_text_simps [simp]:
  "hex_text []" "hex_text (c # s) = ((\<exists>n<16. c = hexdig n) \<and> hex_text s)"
  "hex_text (s @ t) = (hex_text s \<and> hex_text t)"
  by (auto simp: hex_text_def)

lemma hex_text_digits [simp]: "hex_text (hex_digits w n)"
proof (induction w arbitrary: n)
  case (Suc w)
  have "\<exists>k<16. hexdig (n mod 16) = hexdig k" by (rule exI [of _ "n mod 16"]) simp
  then show ?case using Suc by simp
qed simp

lemma hex_text_char:
  "hex_text s \<Longrightarrow> c \<in> set s \<Longrightarrow>
   c \<notin> {NUL, NL, CHR ''+'', CHR ''-'', CHR '' '', CHR ''x'', CHR ''X'', CHR ''['', CHR '']'', CHR ''#'', CHR ''/''}"
  using hexdig_facts(3) unfolding hex_text_def by metis

lemma hex_acc_append: "hex_text s \<Longrightarrow> hex_acc a (s @ t) = hex_acc (hex_acc a s) t"
  by (induction s arbitrary: a) (auto simp: hexdig_facts)

lemma hex_acc_digits: "hex_acc a (hex_digits w n) = a * 16 ^ w + int (n mod 16 ^ w)"
proof (induction w arbitrary: a n)
  case (Suc w)
  have "hex_acc a (hex_digits (Suc w) n) = 16 * (a * 16 ^ w + int (n div 16 mod 16 ^ w)) + int (n mod 16)"
    by (simp add: hex_acc_append Suc hexdig_facts)
  moreover have "n mod 16 ^ Suc w = 16 * (n div 16 mod 16 ^ w) + n mod 16"
    by (simp add: mod_mult2_eq)
  ultimately show ?case by (simp add: algebra_simps)
qed simp

text \<open>A number followed by the end of the text or of the line reads back.\<close>

definition ends_number :: "string \<Rightarrow> bool" where
  "ends_number t = (case t of [] \<Rightarrow> True | c # u \<Rightarrow> c = NL \<or> c = CHR '':'')"

lemma hex_acc_stop: "ends_number t \<Longrightarrow> hex_acc a t = a"
  by (cases t) (auto simp: ends_number_def hexval_def code_def)

lemma strtol16_digits:
  assumes "0 < w" and "n < 16 ^ w" and "n < 2147483648" and "ends_number t" and "NUL \<notin> set t"
  shows "strtol16 (hex_digits w n @ t) = int n"
proof -
  let ?s = "hex_digits w n"
  have nul: "NUL \<notin> set ?s"
    using hex_text_char [OF hex_text_digits] by blast
  have c: "cstr (?s @ t) = ?s @ t"
    using nul assms(5) unfolding cstr_def by (subst takeWhile_eq_all_conv) auto
  obtain x xs where s: "?s = x # xs" using assms(1) by (cases ?s) (auto dest: arg_cong [where f = length])
  obtain k where x: "k < 16" "x = hexdig k"
    using hex_text_digits [of w n] unfolding s by auto
  have d: "dropWhile isspace (?s @ t) = ?s @ t" using hexdig_facts(2) [OF x(1)] x(2) s by simp
  have g: "sign_split (?s @ t) = (1, ?s @ t)" using hexdig_facts(3) [OF x(1)] x(2) s by simp
  have h: "strip0x (?s @ t) = ?s @ t"
  proof (cases xs)
    case Nil
    then show ?thesis using s assms(4) by (cases t rule: strip0x.cases) (auto simp: ends_number_def)
  next
    case (Cons y ys)
    then have "\<exists>j<16. y = hexdig j" using hex_text_digits [of w n] unfolding s by auto
    then have "y \<noteq> CHR ''x''" "y \<noteq> CHR ''X''" using hexdig_facts(3) by auto
    then show ?thesis using s Cons by (cases ys; cases t) simp_all
  qed
  have "hex_acc 0 (?s @ t) = int n"
    using assms(2) by (simp add: hex_acc_append hex_acc_digits hex_acc_stop [OF assms(4)])
  then show ?thesis
    unfolding strtol16_def c d g h using assms(3) by (simp add: h clamp_long_def)
qed

section \<open>The bytes of a data line\<close>

definition data_text :: "u8 list \<Rightarrow> string" where
  "data_text bs = concat (map (\<lambda>b. hex_digits 2 (unat b) @ '' '') bs)"

lemma data_text_simps [simp]:
  "data_text [] = []" "data_text (b # bs) = hex_digits 2 (unat b) @ CHR '' '' # data_text bs"
  "length (data_text bs) = 3 * length bs"
  by (induction bs) (simp_all add: data_text_def)

lemma data_text_chars: "c \<in> set (data_text bs) \<Longrightarrow> c \<notin> {NUL, NL, CHR ''['', CHR ''#'', CHR ''/''}"
proof -
  assume "c \<in> set (data_text bs)"
  then have "(\<exists>n. c \<in> set (hex_digits 2 n)) \<or> c = CHR '' ''"
    by (induction bs) (auto simp del: hex_digits.simps)
  then show ?thesis
  proof
    assume "\<exists>n. c \<in> set (hex_digits 2 n)"
    then obtain n where "c \<in> set (hex_digits 2 n)" ..
    from hex_text_char [OF hex_text_digits this] show ?thesis by simp
  qed simp
qed

lemma hex_pair_digits: "hex_pair (hex_digits 2 (unat b) @ post) 0 = b"
proof -
  let ?s = "hex_digits 2 (unat b)"
  have "[byte_at (?s @ post) 0, byte_at (?s @ post) (Suc 0)] = ?s"
    by (rule nth_equalityI) (auto simp: less_Suc_eq numeral_2_eq_2 simp del: hex_digits.simps)
  moreover have "cstr ?s = ?s"
    unfolding cstr_def takeWhile_eq_all_conv using hex_text_char [OF hex_text_digits] by blast
  moreover have "strtol16 (?s @ []) = int (unat b)"
    using unsigned_less [of b] by (intro strtol16_digits) (auto simp: ends_number_def)
  ultimately show ?thesis by (simp add: hex_pair_def)
qed

lemma hex_pair_shift: "hex_pair (xs @ a) (length xs + i) = hex_pair a i"
  by (simp add: hex_pair_def byte_at_def nth_append)

lemma hex_pair_data: "i < length bs \<Longrightarrow> hex_pair (data_text bs @ post) (3 * i) = bs ! i"
proof (induction bs arbitrary: i)
  case (Cons b bs)
  show ?case
  proof (cases i)
    case 0
    then show ?thesis using hex_pair_digits [of b "CHR '' '' # data_text bs @ post"] by simp
  next
    case (Suc j)
    let ?h = "hex_digits 2 (unat b) @ '' ''"
    have "hex_pair (?h @ (data_text bs @ post)) (length ?h + 3 * j) = bs ! j"
      unfolding hex_pair_shift using Cons Suc by simp
    then show ?thesis using Suc by (simp add: algebra_simps numeral_3_eq_3)
  qed
qed simp

lemma put_at_two:
  "p + Suc (Suc (length bs)) \<le> length d \<Longrightarrow>
   put_at (Suc (Suc p)) bs (d[p := x, Suc p := y]) = put_at p (x # y # bs) d"
  by (rule nth_equalityI) (auto simp: put_at_def nth_append nth_list_update nth_Cons')

lemma fill_tag_bytes:
  "even (length bs) \<Longrightarrow> (\<And>i. i < length bs \<Longrightarrow> hex_pair a (char_cnt st + 3 * i) = bs ! i) \<Longrightarrow>
   byte_count st + length bs \<le> length d \<Longrightarrow>
   fill_tag a (int (length bs)) (st, Some d) =
     Some (st\<lparr>char_cnt := char_cnt st + 3 * length bs, byte_count := byte_count st + length bs\<rparr>,
           Some (put_at (byte_count st) bs d))"
proof (induction bs arbitrary: st d rule: induct_list012)
  case 1
  then show ?case by (subst fill_tag.simps) (simp add: put_at_def)
next
  case (2 x)
  then show ?case by simp
next
  case (3 x y bs)
  let ?st = "st\<lparr>char_cnt := char_cnt st + 6, byte_count := byte_count st + 2\<rparr>"
  let ?d = "d[byte_count st := x, Suc (byte_count st) := y]"
  have xy: "hex_pair a (char_cnt st) = x" "hex_pair a (char_cnt st + 3) = y"
    using "3.prems"(2) [of 0] "3.prems"(2) [of 1] by simp_all
  have u: "update_tag_data a (st, Some d) = Some (?st, Some ?d)"
    using "3.prems"(3) by (simp add: update_tag_data_def tag_put_def xy)
  have h: "hex_pair a (char_cnt ?st + 3 * i) = bs ! i" if "i < length bs" for i
    using "3.prems"(2) [of "Suc (Suc i)"] that by (simp add: algebra_simps)
  have "fill_tag a (int (length bs)) (?st, Some ?d) =
      Some (?st\<lparr>char_cnt := char_cnt ?st + 3 * length bs, byte_count := byte_count ?st + length bs\<rparr>,
            Some (put_at (byte_count ?st) bs ?d))"
    using "3.prems" h by (intro "3.IH") auto
  moreover have "fill_tag a (int (length (x # y # bs))) (st, Some d) = fill_tag a (int (length bs)) (?st, Some ?d)"
    by (subst fill_tag.simps) (simp add: u)
  moreover have "put_at (byte_count ?st) bs ?d = put_at (byte_count st) (x # y # bs) d"
    using put_at_two [of "byte_count st" bs d x y] "3.prems"(3) by simp
  ultimately show ?case by simp
qed

section \<open>Lines as the file holds them\<close>

lemma fgets_line:
  "NL \<notin> set l \<Longrightarrow> length l + 2 \<le> n \<Longrightarrow> fgets n (l @ NL # rest) = Some (l @ [NL], rest)"
proof -
  assume a: "NL \<notin> set l" and b: "length l + 2 \<le> n"
  obtain k where k: "n - 1 = Suc (length l + k)" using b by (metis Suc_diff_le add_Suc_right diff_Suc_1 le_Suc_ex nat_arith.rule0 numeral_2_eq_2 One_nat_def add.commute)
  have t: "take (n - 1) (l @ NL # rest) = l @ NL # take k rest" unfolding k by simp
  have w: "takeWhile (\<lambda>c. c \<noteq> NL) (l @ NL # take k rest) = l"
    using a by (subst takeWhile_append2) auto
  show ?thesis unfolding fgets_def t by (simp add: w)
qed

text \<open>The buffer after a line of the file: the line, its newline, NUL, older characters.\<close>

definition holds :: "PsState \<Rightarrow> string \<Rightarrow> bool" where
  "holds s l = (length (ps_buf s) = Suc LINE_SIZE_MAX \<and> take (length l + 2) (ps_buf s) = l @ [NL, NUL] \<and>
     NUL \<notin> set l \<and> \<not> starts_with (CHR '' '') l)"

definition feed :: "string \<Rightarrow> PsState \<Rightarrow> PsState" where
  "feed l s = s\<lparr>ps_buf := overwrite (ps_buf s) (l @ [NL, NUL])\<rparr>"

lemma feed_simps [simp]:
  "tag_cnt (feed l s) = tag_cnt s" "ps_bytes (feed l s) = ps_bytes s" "ps_format (feed l s) = ps_format s"
  "ps_status (feed l s) = ps_status s" "ps_tags (feed l s) = ps_tags s"
  "length (ps_buf (feed l s)) = length (ps_buf s)"
  by (simp_all add: feed_def)

lemma feed_holds:
  "length (ps_buf s) = Suc LINE_SIZE_MAX \<Longrightarrow> length l \<le> 998 \<Longrightarrow> NUL \<notin> set l \<Longrightarrow>
   \<not> starts_with (CHR '' '') l \<Longrightarrow> holds (feed l s) l"
  by (simp add: holds_def feed_def overwrite_def LINE_SIZE_MAX_def min_def)

lemma ps_loop_line:
  "NL \<notin> set l \<Longrightarrow> length l \<le> 998 \<Longrightarrow>
   ps_loop m (l @ NL # rest) s =
     (case ps_line m (feed l s) of
        Go s' \<Rightarrow> ps_loop m rest s' | Stop r tags \<Rightarrow> Some (r, tags) | Crash \<Rightarrow> None)"
  by (subst ps_loop.simps) (simp add: fgets_line LINE_SIZE_MAX_def feed_def)

lemma holds_buf:
  assumes "holds s l"
  obtains tl where "ps_buf s = l @ NL # NUL # tl"
proof -
  have "take (length l + 2) (ps_buf s) = l @ [NL, NUL]" using assms by (simp only: holds_def)
  then have "ps_buf s = l @ NL # NUL # drop (length l + 2) (ps_buf s)"
    using append_take_drop_id [of "length l + 2" "ps_buf s"] by simp
  then show ?thesis by (rule that)
qed

lemma holds_line:
  assumes "holds s l"
  shows "skip_space (ps_buf s) 0 = 0" and "cstr (ps_buf s) = l @ [NL]"
proof -
  obtain tl where b: "ps_buf s = l @ NL # NUL # tl" using holds_buf [OF assms] .
  show "skip_space (ps_buf s) 0 = 0"
    using assms by (cases l) (auto simp: b skip_space_def holds_def starts_with_def)
  have "takeWhile (\<lambda>c. c \<noteq> NUL) (l @ NL # NUL # tl) = l @ [NL]"
    using assms by (subst takeWhile_append2) (auto simp: holds_def)
  then show "cstr (ps_buf s) = l @ [NL]" by (simp add: b cstr_def)
qed

lemma holds_not_comment:
  assumes "holds s l" and "\<not> starts_with (CHR ''/'') l"
  shows "byte_at (ps_buf s) 0 \<noteq> CHR ''/''"
proof -
  obtain tl where "ps_buf s = l @ NL # NUL # tl" using holds_buf [OF assms(1)] .
  then show ?thesis using assms(2) by (cases l) (auto simp: byte_at_def starts_with_def)
qed

lemma ps_line_holds:
  assumes "holds s l" and "\<not> starts_with (CHR ''/'') l"
  shows "ps_line m s =
    (if starts_with (CHR ''#'') l then
       (if ti_section (ps_status s) \<noteq> PS_UNDEF then Stop (- PS_EILSEQ) (ps_tags s)
        else Go (set_section PS_ID s))
     else
       (case ti_section (ps_status s) of
          PS_UNDEF \<Rightarrow> Go s
        | PS_ID \<Rightarrow> ps_id_line (l @ [NL]) s
        | PS_LEN \<Rightarrow> ps_len_line m (l @ [NL]) s
        | PS_DATA \<Rightarrow> ps_data_line 0 s))"
proof -
  have "starts_with (CHR ''#'') (l @ [NL]) = starts_with (CHR ''#'') l"
    by (cases l) (simp_all add: starts_with_def)
  then show ?thesis
    unfolding ps_line_def Let_def holds_line(1) [OF assms(1)] drop_0 holds_line(2) [OF assms(1)]
    using holds_not_comment [OF assms] by simp
qed

section \<open>Numbers and bytes of an entry\<close>

definition num_line :: "nat \<Rightarrow> string" where
  "num_line n = ''[S]'' @ hex_digits 4 n"

definition scalar :: ps_entry_type where
  "scalar = \<lparr>pt_type = PS_HEX, pt_array = False\<rparr>"

definition hex_array :: ps_entry_type where
  "hex_array = \<lparr>pt_type = PS_HEX, pt_array = True\<rparr>"

lemma bracket_num: "bracket_end (num_line n @ [NL]) = Some 2"
  by (simp add: bracket_end_def num_line_def)

lemma num_line_format: "get_input_format (num_line n @ [NL]) = Some scalar"
  unfolding get_input_format_def bracket_num scalar_def
  by (simp add: starts_with_def num_line_def get_ps_type_def ps_type_step_def byte_at_def numeral_2_eq_2
      isalpha_def toupper_def code_def del: hex_digits.simps)

lemma num_line_value: "n < 65536 \<Longrightarrow> read_data_in_section (num_line n @ [NL]) scalar = word_of_nat n"
  unfolding read_data_in_section_def bracket_num
  using strtol16_digits [of 4 n "[NL]"]
  by (simp add: starts_with_def num_line_def scalar_def ends_number_def del: hex_digits.simps)

lemma num_line_chars: "NL \<notin> set (num_line n)" "NUL \<notin> set (num_line n)" "length (num_line n) = 7"
  "\<not> starts_with c (num_line n) \<or> c = CHR ''[''"
  using hex_text_char [OF hex_text_digits [of 4 n]] by (auto simp: num_line_def starts_with_def)

lemma set_tag_simps [simp]:
  "tag_cnt (set_tag f s) = tag_cnt s" "ps_bytes (set_tag f s) = ps_bytes s"
  "ps_format (set_tag f s) = ps_format s" "ps_status (set_tag f s) = ps_status s"
  "ps_buf (set_tag f s) = ps_buf s" "length (ps_tags (set_tag f s)) = length (ps_tags s)"
  by (simp_all add: set_tag_def)

text \<open>A heap that can serve every length the parser accepts.\<close>

definition heap_ok :: "(nat \<Rightarrow> u8 list option) \<Rightarrow> bool" where
  "heap_ok m = list_all (\<lambda>n. case m n of None \<Rightarrow> False | Some d \<Rightarrow> length d = n) [0..<501]"

lemma heap_okD: "heap_ok m \<Longrightarrow> n \<le> 500 \<Longrightarrow> \<exists>d. m n = Some d \<and> length d = n"
proof -
  assume "heap_ok m" and "n \<le> 500"
  then have "case m n of None \<Rightarrow> False | Some d \<Rightarrow> length d = n"
    unfolding heap_ok_def list_all_iff by auto
  then show ?thesis by (cases "m n") auto
qed

lemma line_hash:
  assumes "holds s ''#''" and "ti_section (ps_status s) = PS_UNDEF"
  shows "ps_line m s = Go (set_section PS_ID s)"
  using ps_line_holds [OF assms(1)] assms(2) by (simp add: starts_with_def)

lemma line_id:
  assumes "holds s (num_line n)" and "n < 65536" and "ti_section (ps_status s) = PS_ID"
  shows "ps_line m s =
    Go (set_section PS_LEN (set_tag (\<lambda>t. t\<lparr>pe_id := word_of_nat n\<rparr>) (s\<lparr>ps_format := scalar\<rparr>)))"
  using ps_line_holds [OF assms(1), of m] num_line_chars(4) [of "CHR ''/''" n] num_line_chars(4) [of "CHR ''#''" n]
    assms(2,3)
  by (simp add: ps_id_line_def num_line_format num_line_value)

lemma wrap16_small: "n \<le> 500 \<Longrightarrow> wrap16 (uint (word_of_nat n :: u32)) = int n"
  by (subst wrap16_id) (simp_all add: uint_nat unat_of_nat)

lemma line_len:
  assumes "holds s (num_line n)" and "n \<le> 500" and "ti_section (ps_status s) = PS_LEN" and "m n = Some d"
  shows "ps_line m s =
    Go (let s1 = set_tag (\<lambda>t. t\<lparr>pe_len := word_of_nat n, pe_data := Some d\<rparr>)
              (s\<lparr>ps_format := scalar, ps_bytes := int n\<rparr>)
        in s1\<lparr>ps_status := (ps_status s1)\<lparr>ti_section := PS_DATA, line_count := 0\<rparr>\<rparr>)"
  using ps_line_holds [OF assms(1), of m] num_line_chars(4) [of "CHR ''/''" n] num_line_chars(4) [of "CHR ''#''" n]
    assms(2,3,4)
  by (simp add: ps_len_line_def num_line_format num_line_value wrap16_small ps_malloc_def PS_MAX_LEN_def)

lemma data_line_start: "bs \<noteq> [] \<Longrightarrow> starts_with c (data_text bs) \<Longrightarrow> \<exists>n<16. c = hexdig n"
proof -
  assume "bs \<noteq> []" and s: "starts_with c (data_text bs)"
  then obtain b r where b: "bs = b # r" by (cases bs) auto
  obtain x y where h: "hex_digits 2 (unat b) = [x, y]" by (simp add: numeral_2_eq_2)
  then have "hex_text [x, y]" using hex_text_digits [of 2 "unat b"] by simp
  then show ?thesis using s b h by (auto simp: starts_with_def)
qed

lemma data_line_plain:
  assumes "bs \<noteq> []"
  shows "\<not> starts_with (CHR ''/'') (data_text bs)" "\<not> starts_with (CHR ''#'') (data_text bs)"
    "\<not> starts_with (CHR ''['') (data_text bs)" "\<not> starts_with (CHR '' '') (data_text bs)"
  using data_line_start [OF assms] hexdig_facts(3) by (metis insertCI)+

lemma line_data:
  assumes h: "holds s (data_text bs)" and bs: "bs \<noteq> []" "even (length bs)"
    and sec: "ti_section (ps_status s) = PS_DATA"
    and fm: "line_count (ps_status s) = 0 \<or> ps_format s = hex_array"
    and n: "ps_bytes s = int n" "length bs = min 16 n"
    and d: "pe_data (ps_tags s ! tag_cnt s) = Some d" "byte_count (ps_status s) + length bs \<le> length d"
  shows "ps_line m s =
    ps_data_end (set_tag (\<lambda>t. t\<lparr>pe_data := Some (put_at (byte_count (ps_status s)) bs d)\<rparr>)
      (s\<lparr>ps_format := hex_array,
         ps_status := (ps_status s)\<lparr>char_cnt := 3 * length bs, byte_count := byte_count (ps_status s) + length bs\<rparr>,
         ps_bytes := int (n - length bs)\<rparr>))"
proof -
  obtain tl where b: "ps_buf s = data_text bs @ NL # NUL # tl" using holds_buf [OF h] .
  have np: "\<not> starts_with (CHR ''['') (data_text bs @ [NL])"
    using data_line_plain(3) [OF bs(1)] bs(1) by (cases "data_text bs") (simp_all add: starts_with_def)
  have f: "(if line_count (ps_status s) = 0 then get_input_format (cstr (ps_buf s)) else Some (ps_format s))
      = Some hex_array"
    using fm np holds_line(2) [OF h] by (auto simp: get_input_format_def hex_array_def)
  have u: "update_char_count (cstr (ps_buf s)) = 0"
    unfolding holds_line(2) [OF h] using np by (simp add: update_char_count_def)
  have rc: "(if int n > ENTRY_PER_LINE then ENTRY_PER_LINE else int n) = int (length bs)"
    using n by (simp add: ENTRY_PER_LINE_def min_def)
  have rest: "(if int n > ENTRY_PER_LINE then int n - ENTRY_PER_LINE else 0) = int (n - length bs)"
    using n by (simp add: ENTRY_PER_LINE_def min_def)
  have ft: "fill_tag (ps_buf s) (int (length bs)) ((ps_status s)\<lparr>char_cnt := 0\<rparr>, Some d) =
      Some ((ps_status s)\<lparr>char_cnt := 3 * length bs, byte_count := byte_count (ps_status s) + length bs\<rparr>,
        Some (put_at (byte_count (ps_status s)) bs d))"
    using fill_tag_bytes [of bs "ps_buf s" "(ps_status s)\<lparr>char_cnt := 0\<rparr>" d] bs(2) d(2) hex_pair_data [of _ bs]
    by (simp add: b)
  have "ps_line m s = ps_data_line 0 s"
    using ps_line_holds [OF h data_line_plain(1) [OF bs(1)]] data_line_plain(2) [OF bs(1)] sec by simp
  also have "\<dots> = ps_data_end (set_tag (\<lambda>t. t\<lparr>pe_data := Some (put_at (byte_count (ps_status s)) bs d)\<rparr>)
      (s\<lparr>ps_format := hex_array,
         ps_status := (ps_status s)\<lparr>char_cnt := 3 * length bs, byte_count := byte_count (ps_status s) + length bs\<rparr>,
         ps_bytes := int (n - length bs)\<rparr>))"
    unfolding ps_data_line_def f option.case Let_def holds_line(1) [OF h] drop_0 u n(1) rc rest d(1) ft
    by (simp add: hex_array_def)
  finally show ?thesis .
qed

function data_lines :: "u8 list \<Rightarrow> string" where
  "data_lines bs = (if bs = [] then [] else data_text (take 16 bs) @ NL # data_lines (drop 16 bs))"
  by pat_completeness auto
termination by (relation "measure length") auto

declare data_lines.simps [simp del]

lemma data_lines_feed:
  assumes "bs \<noteq> []" and "length (ps_buf s) = Suc LINE_SIZE_MAX"
  shows "holds (feed (data_text (take 16 bs)) s) (data_text (take 16 bs))"
    and "ps_loop m (data_lines bs @ rest) s =
      (case ps_line m (feed (data_text (take 16 bs)) s) of
         Go s' \<Rightarrow> ps_loop m (data_lines (drop 16 bs) @ rest) s' | Stop r tags \<Rightarrow> Some (r, tags) | Crash \<Rightarrow> None)"
proof -
  have c: "NUL \<notin> set (data_text (take 16 bs))" "NL \<notin> set (data_text (take 16 bs))"
    using data_text_chars by fast+
  have l: "length (data_text (take 16 bs)) \<le> 998" by simp
  show "holds (feed (data_text (take 16 bs)) s) (data_text (take 16 bs))"
    using assms c l data_line_plain(4) [of "take 16 bs"] by (intro feed_holds) auto
  show "ps_loop m (data_lines bs @ rest) s =
      (case ps_line m (feed (data_text (take 16 bs)) s) of
         Go s' \<Rightarrow> ps_loop m (data_lines (drop 16 bs) @ rest) s' | Stop r tags \<Rightarrow> Some (r, tags) | Crash \<Rightarrow> None)"
    using ps_loop_line [OF c(2) l, of m "data_lines (drop 16 bs) @ rest" s] assms(1)
    by (subst data_lines.simps) simp
qed

text \<open>The state after an entry is complete.\<close>

definition entry_done :: "PsState \<Rightarrow> u8 list \<Rightarrow> PsState \<Rightarrow> bool" where
  "entry_done s dat s' =
     (tag_cnt s' = Suc (tag_cnt s) \<and> ps_status s' = no_status \<and> length (ps_buf s') = Suc LINE_SIZE_MAX \<and>
      ps_tags s' = (ps_tags s)[tag_cnt s := (ps_tags s ! tag_cnt s)\<lparr>pe_data := Some dat\<rparr>])"

definition in_data :: "PsState \<Rightarrow> u8 list \<Rightarrow> u8 list \<Rightarrow> bool" where
  "in_data s bs d =
     (ti_section (ps_status s) = PS_DATA \<and> (line_count (ps_status s) = 0 \<or> ps_format s = hex_array) \<and>
      ps_bytes s = int (length bs) \<and> pe_data (ps_tags s ! tag_cnt s) = Some d \<and>
      byte_count (ps_status s) + length bs = length d \<and> tag_cnt s < 49 \<and>
      length (ps_tags s) = 50 \<and> length (ps_buf s) = Suc LINE_SIZE_MAX)"

lemma put_at_step:
  "p + length xs + length ys = length d \<Longrightarrow>
   take (p + length xs) (put_at p xs d) @ ys = take p d @ xs @ ys \<and>
   length (put_at p xs d) = length d"
  by (cases xs) (auto simp: put_at_def min_def)

lemma data_lines_parse:
  "bs \<noteq> [] \<Longrightarrow> even (length bs) \<Longrightarrow> in_data s bs d \<Longrightarrow>
   \<exists>s'. ps_loop m (data_lines bs @ rest) s = ps_loop m rest s' \<and>
     entry_done s (take (byte_count (ps_status s)) d @ bs) s'"
proof (induction bs arbitrary: s d rule: data_lines.induct)
  case (1 bs)
  let ?l = "data_text (take 16 bs)" and ?p = "byte_count (ps_status s)"
  let ?s = "feed ?l s"
  let ?t = "set_tag (\<lambda>t. t\<lparr>pe_data := Some (put_at ?p (take 16 bs) d)\<rparr>)
      (?s\<lparr>ps_format := hex_array,
         ps_status := (ps_status s)\<lparr>char_cnt := 3 * length (take 16 bs), byte_count := ?p + length (take 16 bs)\<rparr>,
         ps_bytes := int (length bs - length (take 16 bs))\<rparr>)"
  have buf: "length (ps_buf s) = Suc LINE_SIZE_MAX" using "1.prems" by (simp add: in_data_def)
  have n: "length (take 16 bs) = min 16 (length bs)" by simp
  have "ps_line m ?s = ps_data_end ?t"
    using line_data [OF data_lines_feed(1) [OF "1.prems"(1) buf], of "length bs" d m] "1.prems" n
    by (auto simp: in_data_def min_def)
  then have step: "ps_loop m (data_lines bs @ rest) s =
      (case ps_data_end ?t of
         Go s' \<Rightarrow> ps_loop m (data_lines (drop 16 bs) @ rest) s' | Stop r tags \<Rightarrow> Some (r, tags) | Crash \<Rightarrow> None)"
    using data_lines_feed(2) [OF "1.prems"(1) buf, of m rest] by simp
  show ?case
  proof (cases "drop 16 bs = []")
    case True
    then have all: "take 16 bs = bs" "length bs \<le> 16" by simp_all
    let ?u = "?t\<lparr>ps_status := no_status, tag_cnt := Suc (tag_cnt s)\<rparr>"
    have "ps_data_end ?t = Go ?u"
      using "1.prems" all by (simp add: ps_data_end_def in_data_def no_status_def MAX_TAGS_def Let_def)
    moreover have "entry_done s (take ?p d @ bs) ?u"
      using "1.prems" all by (simp add: entry_done_def in_data_def set_tag_def put_at_def)
    ultimately show ?thesis using step True by (auto simp: data_lines.simps)
  next
    case False
    let ?u = "?t\<lparr>ps_status := (ps_status ?t)\<lparr>line_count := line_count (ps_status s) + 1\<rparr>\<rparr>"
    let ?d = "put_at ?p (take 16 bs) d"
    have pd: "ps_data_end ?t = Go ?u"
      using "1.prems" False by (simp add: ps_data_end_def in_data_def MAX_TAGS_def Let_def)
    have l: "?p + length (take 16 bs) + length (drop 16 bs) = length d" "length ?d = length d"
      using "1.prems" by (auto simp: in_data_def put_at_def)
    have i: "in_data ?u (drop 16 bs) ?d"
      using "1.prems" False l by (auto simp: in_data_def set_tag_def)
    have e: "even (length (drop 16 bs))" using "1.prems" False by simp
    obtain s' where s': "ps_loop m (data_lines (drop 16 bs) @ rest) ?u = ps_loop m rest s'"
      "entry_done ?u (take (byte_count (ps_status ?u)) ?d @ drop 16 bs) s'"
      using "1.IH" [OF "1.prems"(1) False e i] by blast
    have "take (byte_count (ps_status ?u)) ?d @ drop 16 bs = take ?p d @ bs"
      using put_at_step [of ?p "take 16 bs" "drop 16 bs" d] l by simp
    then have "entry_done s (take ?p d @ bs) s'"
      using s'(2) "1.prems" by (simp add: entry_done_def set_tag_def in_data_def)
    then show ?thesis using step pd s'(1) by auto
  qed
qed

section \<open>Settings files read back\<close>

definition entry_text :: "nat \<times> u8 list \<Rightarrow> string" where
  "entry_text e = ''#'' @ NL # num_line (fst e) @ NL # num_line (length (snd e)) @ NL # data_lines (snd e)"

definition entry_value :: "nat \<times> u8 list \<Rightarrow> ps_cfg_entry" where
  "entry_value e = \<lparr>pe_id = word_of_nat (fst e), pe_len = word_of_nat (length (snd e)), pe_data = Some (snd e)\<rparr>"

definition entry_fits :: "nat \<times> u8 list \<Rightarrow> bool" where
  "entry_fits e = (fst e < 65536 \<and> snd e \<noteq> [] \<and> even (length (snd e)) \<and> length (snd e) \<le> 500)"

definition between_entries :: "PsState \<Rightarrow> bool" where
  "between_entries s = (ps_status s = no_status \<and> length (ps_buf s) = Suc LINE_SIZE_MAX \<and> length (ps_tags s) = 50)"

lemma set_section_simps [simp]:
  "tag_cnt (set_section x s) = tag_cnt s" "ps_buf (set_section x s) = ps_buf s"
  "ps_tags (set_section x s) = ps_tags s" "ps_status (set_section x s) = (ps_status s)\<lparr>ti_section := x\<rparr>"
  by (simp_all add: set_section_def)

lemma num_line_fed: "length (ps_buf s) = Suc LINE_SIZE_MAX \<Longrightarrow> holds (feed (num_line n) s) (num_line n)"
  using num_line_chars [where n = n] num_line_chars(4) [of "CHR '' ''" n] by (intro feed_holds) auto

lemma entry_record: "t\<lparr>pe_id := i, pe_len := n, pe_data := x\<rparr> = \<lparr>pe_id = i, pe_len = n, pe_data = x\<rparr>"
  by (cases t) simp

lemma entry_parse:
  assumes "heap_ok m" and "between_entries s" and "tag_cnt s < 49" and "entry_fits e"
  shows "\<exists>s'. ps_loop m (entry_text e @ rest) s = ps_loop m rest s' \<and> between_entries s' \<and>
    tag_cnt s' = Suc (tag_cnt s) \<and> ps_tags s' = (ps_tags s)[tag_cnt s := entry_value e]"
proof -
  obtain i dat where e: "e = (i, dat)" by fastforce
  have fits: "i < 65536" "dat \<noteq> []" "even (length dat)" "length dat \<le> 500"
    using assms(4) e by (simp_all add: entry_fits_def)
  obtain d where d: "m (length dat) = Some d" "length d = length dat"
    using heap_okD [OF assms(1) fits(4)] by blast
  have st: "ps_status s = no_status" and buf: "length (ps_buf s) = Suc LINE_SIZE_MAX"
    and len: "length (ps_tags s) = 50"
    using assms(2) by (simp_all add: between_entries_def)
  let ?s1 = "set_section PS_ID (feed ''#'' s)"
  let ?t2 = "feed (num_line i) ?s1"
  let ?s2 = "set_section PS_LEN (set_tag (\<lambda>t. t\<lparr>pe_id := word_of_nat i\<rparr>) (?t2\<lparr>ps_format := scalar\<rparr>))"
  let ?t3 = "feed (num_line (length dat)) ?s2"
  let ?u3 = "set_tag (\<lambda>t. t\<lparr>pe_len := word_of_nat (length dat), pe_data := Some d\<rparr>)
              (?t3\<lparr>ps_format := scalar, ps_bytes := int (length dat)\<rparr>)"
  let ?s3 = "?u3\<lparr>ps_status := (ps_status ?u3)\<lparr>ti_section := PS_DATA, line_count := 0\<rparr>\<rparr>"
  have h1: "holds (feed ''#'' s) ''#''" using buf by (intro feed_holds) (auto simp: starts_with_def)
  have 1: "ps_line m (feed ''#'' s) = Go ?s1"
    using line_hash [OF h1] st by (simp add: no_status_def)
  have 2: "ps_line m ?t2 = Go ?s2"
    by (rule line_id) (use buf fits in \<open>auto intro!: num_line_fed\<close>)
  have 3: "ps_line m ?t3 = Go ?s3"
    using line_len [of ?t3 "length dat" m d] num_line_fed [of ?s2 "length dat"] buf fits d by (simp add: Let_def)
  let ?tg = "\<lparr>pe_id = word_of_nat i, pe_len = word_of_nat (length dat), pe_data = Some d\<rparr>"
  have t3: "ps_tags ?s3 = (ps_tags s)[tag_cnt s := ?tg]"
    using len assms(3) by (simp add: set_tag_def entry_record)
  have i3: "in_data ?s3 dat d"
    using st buf len assms(3) d t3 by (simp add: in_data_def no_status_def)
  obtain s' where s': "ps_loop m (data_lines dat @ rest) ?s3 = ps_loop m rest s'"
    "entry_done ?s3 (take (byte_count (ps_status ?s3)) d @ dat) s'"
    using data_lines_parse [OF fits(2,3) i3] by blast
  have "ps_loop m (entry_text e @ rest) s = ps_loop m (data_lines dat @ rest) ?s3"
    unfolding entry_text_def e fst_conv snd_conv append_Cons append_Nil append_assoc
    using ps_loop_line [of "''#''" m "num_line i @ NL # num_line (length dat) @ NL # data_lines dat @ rest" s]
      ps_loop_line [of "num_line i" m "num_line (length dat) @ NL # data_lines dat @ rest" ?s1]
      ps_loop_line [of "num_line (length dat)" m "data_lines dat @ rest" ?s2] 1 2 3 num_line_chars
    by simp
  moreover have "ps_tags s' = (ps_tags s)[tag_cnt s := entry_value e] \<and> tag_cnt s' = Suc (tag_cnt s) \<and>
      between_entries s'"
    using s'(2) t3 st len assms(3) by (simp add: entry_done_def between_entries_def entry_value_def e no_status_def)
  ultimately show ?thesis using s'(1) by auto
qed

lemma entries_parse:
  "heap_ok m \<Longrightarrow> between_entries s \<Longrightarrow> tag_cnt s + length es \<le> 49 \<Longrightarrow> list_all entry_fits es \<Longrightarrow>
   ps_loop m (concat (map entry_text es)) s =
     Some (int (tag_cnt s + length es), put_at (tag_cnt s) (map entry_value es) (ps_tags s))"
proof (induction es arbitrary: s)
  case Nil
  then show ?case by (subst ps_loop.simps) (simp add: fgets_def)
next
  case (Cons e es)
  obtain s' where s': "ps_loop m (entry_text e @ concat (map entry_text es)) s = ps_loop m (concat (map entry_text es)) s'"
    "between_entries s'" "tag_cnt s' = Suc (tag_cnt s)" "ps_tags s' = (ps_tags s)[tag_cnt s := entry_value e]"
    using entry_parse [of m s e "concat (map entry_text es)"] Cons.prems by auto
  have "ps_loop m (concat (map entry_text es)) s' =
      Some (int (tag_cnt s' + length es), put_at (tag_cnt s') (map entry_value es) (ps_tags s'))"
    using Cons.prems s' by (intro Cons.IH) auto
  moreover have "put_at (Suc (tag_cnt s)) (map entry_value es) ((ps_tags s)[tag_cnt s := entry_value e]) =
      put_at (tag_cnt s) (map entry_value (e # es)) (ps_tags s)"
    using Cons.prems by (simp add: put_at_def take_Suc_conv_app_nth between_entries_def)
  ultimately show ?case using s' by simp
qed

text \<open>C3: a settings file reads back: the text that writes up to 49 entries, each an id and an even
  number of bytes up to 500, parses to exactly these entries, in order, in the first slots of the
  array; the others are left alone. What the array of the line and the heap held before does not
  matter.\<close>

theorem ps_file_roundtrip:
  assumes "heap_ok m" and "length junk = 1001" and "length tags = 50"
    and "length es \<le> 49" and "list_all entry_fits es"
  shows "ath_parse_ps m junk tags (concat (map entry_text es)) =
    Some (int (length es), map entry_value es @ drop (length es) tags)"
  using entries_parse [of m "ps_start junk tags" es] assms
  by (simp add: ath_parse_ps_def ps_start_def between_entries_def LINE_SIZE_MAX_def put_at_def)

definition no_tag :: ps_cfg_entry where
  "no_tag = \<lparr>pe_id = 0, pe_len = 0, pe_data = None\<rparr>"

definition zero_heap :: "nat \<Rightarrow> u8 list option" where
  "zero_heap n = Some (replicate n 0)"

lemma zero_heap_ok: "heap_ok zero_heap"
  by (simp add: heap_ok_def zero_heap_def list_all_iff)

theorem ps_file_roundtrip_witness:
  "ath_parse_ps zero_heap (replicate 1001 (CHR ''x'')) (replicate 50 no_tag)
     (concat (map entry_text [(1, [0xAA, 0xBB]), (300, replicate 18 0x5F)])) =
   Some (2, map entry_value [(1, [0xAA, 0xBB]), (300, replicate 18 0x5F)] @ replicate 48 no_tag)"
  using ps_file_roundtrip [OF zero_heap_ok, of "replicate 1001 (CHR ''x'')" "replicate 50 no_tag"
      "[(1, [0xAA, 0xBB]), (300, replicate 18 0x5F)]"]
  by (simp add: entry_fits_def)

section \<open>What every file leaves in the array\<close>

text \<open>An entry whose array, if there is one, has exactly the bytes its length says, at most 500.\<close>

definition entry_sized :: "ps_cfg_entry \<Rightarrow> bool" where
  "entry_sized e = (case pe_data e of None \<Rightarrow> True | Some d \<Rightarrow> length d = unat (pe_len e) \<and> length d \<le> 500)"

definition ps_inv :: "PsState \<Rightarrow> bool" where
  "ps_inv s =
     (length (ps_tags s) = 50 \<and> tag_cnt s \<le> 49 \<and> list_all entry_sized (take (tag_cnt s) (ps_tags s)) \<and>
      (if ti_section (ps_status s) = PS_DATA then entry_sized (ps_tags s ! tag_cnt s) else True))"

definition out_ok :: "ps_out \<Rightarrow> bool" where
  "out_ok r = (case r of Go s \<Rightarrow> ps_inv s | Stop n ts \<Rightarrow> n = - 84 \<and> length ts = 50 | Crash \<Rightarrow> True)"

lemma tag_put_length:
  "tag_put i v x = Some y \<Longrightarrow> map_option length y = map_option length x"
  by (auto simp: tag_put_def split: option.splits if_splits)

lemma update_tag_length:
  "update_tag_data a x = Some y \<Longrightarrow>
   map_option length (snd y) = map_option length (snd x) \<and> ti_section (fst y) = ti_section (fst x)"
  by (auto simp: update_tag_data_def Let_def dest!: tag_put_length split: option.splits prod.splits)

lemma fill_tag_length:
  "fill_tag a n x = Some y \<Longrightarrow>
   map_option length (snd y) = map_option length (snd x) \<and> ti_section (fst y) = ti_section (fst x)"
proof (induction a n x rule: fill_tag.induct)
  case (1 a n x)
  show ?case
  proof (cases "n > 0")
    case True
    with "1.prems" obtain z where z: "update_tag_data a x = Some z" "fill_tag a (n - 2) z = Some y"
      by (subst (asm) fill_tag.simps) (auto split: option.splits)
    from "1.IH" [OF True z] update_tag_length [OF z(1)] show ?thesis by simp
  next
    case False
    then show ?thesis using "1.prems" by (subst (asm) fill_tag.simps) simp
  qed
qed

lemma entry_sized_data:
  "map_option length x = map_option length (pe_data e) \<Longrightarrow> entry_sized e \<Longrightarrow> entry_sized (e\<lparr>pe_data := x\<rparr>)"
  by (auto simp: entry_sized_def split: option.splits)

lemma set_tag_inv:
  assumes "ps_inv s" and "ti_section (ps_status s) = PS_DATA" and "entry_sized (f (ps_tags s ! tag_cnt s))"
  shows "ps_inv (set_tag f s)"
  using assms by (auto simp: ps_inv_def set_tag_def list_all_length nth_list_update)

lemma data_end_ok: "ps_inv s \<Longrightarrow> ti_section (ps_status s) = PS_DATA \<Longrightarrow> out_ok (ps_data_end s)"
  by (auto simp: ps_data_end_def out_ok_def ps_inv_def no_status_def MAX_TAGS_def PS_EILSEQ_def Let_def
      take_Suc_conv_app_nth)

lemma ps_inv_cong:
  "ps_tags s' = ps_tags s \<Longrightarrow> tag_cnt s' = tag_cnt s \<Longrightarrow>
   ti_section (ps_status s') = ti_section (ps_status s) \<Longrightarrow> ps_inv s' = ps_inv s"
  by (simp add: ps_inv_def)

lemma data_line_ok:
  assumes inv: "ps_inv s" and sec: "ti_section (ps_status s) = PS_DATA"
  shows "out_ok (ps_data_line p s)"
proof (cases "if line_count (ps_status s) = 0 then get_input_format (cstr (drop p (ps_buf s))) else Some (ps_format s)")
  case None
  then show ?thesis using inv by (simp add: ps_data_line_def out_ok_def PS_EILSEQ_def ps_inv_def)
next
  case fm: (Some f)
  let ?a = "drop (skip_space (ps_buf s) p) (ps_buf s)"
  let ?st = "(ps_status s)\<lparr>char_cnt := update_char_count (cstr ?a)\<rparr>"
  let ?rc = "if ps_bytes s > ENTRY_PER_LINE then ENTRY_PER_LINE else ps_bytes s"
  let ?nb = "if ps_bytes s > ENTRY_PER_LINE then ps_bytes s - ENTRY_PER_LINE else 0"
  have cur: "entry_sized (ps_tags s ! tag_cnt s)" using inv sec by (simp add: ps_inv_def)
  show ?thesis
  proof (cases "pt_type f = PS_HEX \<and> pt_array f")
    case False
    have "ps_inv (s\<lparr>ps_format := f, ps_status := ?st\<rparr>)" using inv by (subst ps_inv_cong [of _ s]) simp_all
    then show ?thesis
      unfolding ps_data_line_def fm option.case Let_def if_not_P [OF False]
      using sec by (intro data_end_ok) simp_all
  next
    case True
    show ?thesis
    proof (cases "fill_tag ?a ?rc (?st, pe_data (ps_tags s ! tag_cnt s))")
      case None
      then show ?thesis
        unfolding ps_data_line_def fm option.case Let_def if_P [OF True] by (simp add: out_ok_def)
    next
      case (Some y)
      obtain st' d' where y: "y = (st', d')" by fastforce
      have l: "map_option length d' = map_option length (pe_data (ps_tags s ! tag_cnt s))"
        "ti_section st' = PS_DATA"
        using fill_tag_length [OF Some] sec y by simp_all
      let ?s = "s\<lparr>ps_format := f, ps_status := st', ps_bytes := ?nb\<rparr>"
      have "ps_inv ?s" using inv l sec by (subst ps_inv_cong [of _ s]) simp_all
      then have "ps_inv (set_tag (\<lambda>t. t\<lparr>pe_data := d'\<rparr>) ?s)"
        using l entry_sized_data [OF l(1) cur] by (intro set_tag_inv) simp_all
      then have "out_ok (ps_data_end (set_tag (\<lambda>t. t\<lparr>pe_data := d'\<rparr>) ?s))"
        using l by (intro data_end_ok) simp_all
      then show ?thesis
        unfolding ps_data_line_def fm option.case Let_def if_P [OF True] Some y prod.case .
    qed
  qed
qed

definition malloc_law :: "(nat \<Rightarrow> u8 list option) \<Rightarrow> bool" where
  "malloc_law m = (\<forall>n d. m n = Some d \<longrightarrow> length d = n)"

lemma ps_inv_ids: "ps_inv s \<Longrightarrow> ti_section (ps_status s) \<noteq> PS_DATA \<Longrightarrow> x \<noteq> PS_DATA \<Longrightarrow>
   ps_inv (set_section x (set_tag f (s\<lparr>ps_format := g\<rparr>)))"
  by (auto simp: ps_inv_def set_tag_def list_all_length nth_list_update)

lemma len_line_ok:
  assumes "malloc_law m" and inv: "ps_inv s" and sec: "ti_section (ps_status s) = PS_LEN"
  shows "out_ok (ps_len_line m str s)"
proof (cases "get_input_format str")
  case None
  then show ?thesis using inv by (simp add: ps_len_line_def out_ok_def PS_EILSEQ_def ps_inv_def)
next
  case (Some f)
  let ?n = "wrap16 (uint (read_data_in_section str f))"
  show ?thesis
  proof (cases "?n > PS_MAX_LEN")
    case True
    then show ?thesis using Some inv by (simp add: ps_len_line_def out_ok_def PS_EILSEQ_def ps_inv_def)
  next
    case False
    have sz: "entry_sized (t\<lparr>pe_len := word_of_int ?n, pe_data := ps_malloc m ?n\<rparr>)" for t
    proof (cases "ps_malloc m ?n")
      case (Some d)
      then have "0 \<le> ?n" "m (nat ?n) = Some d" by (auto simp: ps_malloc_def split: if_splits)
      moreover then have "length d = nat ?n" using assms(1) by (auto simp: malloc_law_def)
      moreover have "unat (word_of_int ?n :: u32) = nat ?n"
        using False \<open>0 \<le> ?n\<close> by (simp add: unsigned_of_int PS_MAX_LEN_def take_bit_int_eq_self)
      ultimately show ?thesis using False Some by (simp add: entry_sized_def PS_MAX_LEN_def)
    qed (simp add: entry_sized_def)
    let ?f = "\<lambda>t. t\<lparr>pe_len := word_of_int ?n, pe_data := ps_malloc m ?n\<rparr>"
    let ?s = "set_tag ?f (s\<lparr>ps_format := f, ps_bytes := ?n\<rparr>)"
    have "ps_inv (?s\<lparr>ps_status := (ps_status ?s)\<lparr>ti_section := PS_DATA, line_count := 0\<rparr>\<rparr>)"
      using inv sec sz by (auto simp: ps_inv_def set_tag_def list_all_length nth_list_update)
    then show ?thesis using False Some by (simp add: ps_len_line_def Let_def out_ok_def)
  qed
qed

lemma ps_line_ok: "malloc_law m \<Longrightarrow> ps_inv s \<Longrightarrow> out_ok (ps_line m s)"
proof -
  assume m: "malloc_law m" and inv: "ps_inv s"
  have id: "out_ok (ps_id_line str s)" if "ti_section (ps_status s) = PS_ID" for str
    using that inv ps_inv_ids [OF inv]
    by (auto simp: ps_id_line_def out_ok_def PS_EILSEQ_def ps_inv_def split: option.splits)
  have hash: "out_ok (Go (set_section PS_ID s))" if "ti_section (ps_status s) = PS_UNDEF"
    using that inv by (simp add: out_ok_def ps_inv_def)
  have keep: "out_ok (Go s)" "out_ok (Stop (- PS_EILSEQ) (ps_tags s))"
    using inv by (simp_all add: out_ok_def PS_EILSEQ_def ps_inv_def)
  show ?thesis
    unfolding ps_line_def Let_def
    using id hash keep len_line_ok [OF m inv] data_line_ok [OF inv]
    by (auto split: ps_section.splits)
qed

lemma ps_loop_ok:
  "malloc_law m \<Longrightarrow> ps_inv s \<Longrightarrow>
   (case ps_loop m st s of
      None \<Rightarrow> True
    | Some (r, ts) \<Rightarrow> length ts = 50 \<and> (r = - 84 \<or> 0 \<le> r) \<and> r \<le> 49 \<and> list_all entry_sized (take (nat r) ts))"
proof (induction m st s rule: ps_loop.induct)
  case (1 m st s)
  show ?case
  proof (cases "fgets LINE_SIZE_MAX st")
    case None
    then show ?thesis using "1.prems" by (subst ps_loop.simps) (simp add: ps_inv_def)
  next
    case (Some x)
    obtain l st' where x: "x = (l, st')" by fastforce
    let ?s = "s\<lparr>ps_buf := overwrite (ps_buf s) (l @ [NUL])\<rparr>"
    have inv: "ps_inv ?s" using "1.prems"(2) by (subst ps_inv_cong [of _ s]) simp_all
    have ok: "out_ok (ps_line m ?s)" using ps_line_ok [OF "1.prems"(1) inv] .
    show ?thesis
    proof (cases "ps_line m ?s")
      case (Go s')
      have "ps_inv s'" using ok Go by (simp add: out_ok_def)
      from "1.IH" [OF Some x [symmetric] _ "1.prems"(1) this] Go Some x
      show ?thesis by (subst ps_loop.simps) simp
    qed (use ok Some x in \<open>subst ps_loop.simps; simp add: out_ok_def\<close>)+
  qed
qed

text \<open>Whatever a settings file holds, the parser never counts more than 49 entries (the array
  has 50), and every entry it counts that has an array has one of exactly the length recorded, at
  most 500 bytes, so that a reader of the length stays inside it. The error is -EILSEQ only.\<close>

theorem ps_entries_sized:
  assumes "malloc_law m" and "length tags = 50"
  shows "case ath_parse_ps m junk tags stream of
      None \<Rightarrow> True
    | Some (r, ts) \<Rightarrow> length ts = 50 \<and> (r = - 84 \<or> 0 \<le> r) \<and> r \<le> 49 \<and> list_all entry_sized (take (nat r) ts)"
  unfolding ath_parse_ps_def using assms
  by (intro ps_loop_ok) (simp_all add: ps_inv_def ps_start_def no_status_def)

lemma zero_heap_law: "malloc_law zero_heap"
  by (simp add: malloc_law_def zero_heap_def)

theorem ps_entries_sized_witness:
  "case ath_parse_ps zero_heap [] (replicate 50 no_tag) ''#'' of
     None \<Rightarrow> True | Some (r, ts) \<Rightarrow> length ts = 50 \<and> (r = - 84 \<or> 0 \<le> r) \<and> r \<le> 49 \<and> list_all entry_sized (take (nat r) ts)"
  using ps_entries_sized [OF zero_heap_law, of "replicate 50 no_tag" "[]" "''#''"] by simp

section \<open>Lengths that break the parser\<close>

lemma fill_tag_odd:
  "odd k \<Longrightarrow> byte_count st + k = length d \<Longrightarrow> fill_tag a (int k) (st, Some d) = None"
proof (induction k arbitrary: st d rule: less_induct)
  case (less k)
  have pos: "0 < k" using less.prems by (cases k) auto
  show ?case
  proof (cases "k = 1")
    case True
    then have "update_tag_data a (st, Some d) = None"
      using less.prems by (simp add: update_tag_data_def tag_put_def Let_def)
    then show ?thesis using True by (subst fill_tag.simps) simp
  next
    case False
    then have k: "2 < k" "k - 2 < k" "odd (k - 2)" using less.prems pos by (cases "k = 2"; auto)+
    have "update_tag_data a (st, Some d) =
        Some (st\<lparr>char_cnt := char_cnt st + 6, byte_count := byte_count st + 2\<rparr>,
          Some (d[byte_count st := hex_pair a (char_cnt st), Suc (byte_count st) := hex_pair a (char_cnt st + 3)]))"
      using less.prems k by (simp add: update_tag_data_def tag_put_def Let_def)
    moreover have "fill_tag a (int (k - 2))
        (st\<lparr>char_cnt := char_cnt st + 6, byte_count := byte_count st + 2\<rparr>,
          Some (d[byte_count st := hex_pair a (char_cnt st), Suc (byte_count st) := hex_pair a (char_cnt st + 3)])) = None"
      using less.prems k by (intro less.IH) auto
    ultimately show ?thesis using k pos by (subst fill_tag.simps) (simp add: of_nat_diff)
  qed
qed

text \<open>Bytes are stored in pairs: when the last line of an entry has an odd number of them left,
  up to 15, the parser writes one byte past the array it allocated, whatever the line says.\<close>

theorem ps_odd_length_overflows:
  assumes "ti_section (ps_status s) = PS_DATA" and "0 < line_count (ps_status s)" and "ps_format s = hex_array"
    and "odd k" and "k < 16" and "ps_bytes s = int k" and "pe_data (ps_tags s ! tag_cnt s) = Some d"
    and "byte_count (ps_status s) + k = length d"
  shows "ps_data_line p s = Crash"
  using fill_tag_odd [OF assms(4), of _ d] assms
  by (simp add: ps_data_line_def hex_array_def ENTRY_PER_LINE_def Let_def)

theorem ps_odd_length_overflows_witness:
  "ps_data_line 0 \<lparr>ps_buf = ''AB'', tag_cnt = 0, ps_bytes = 1, ps_format = hex_array,
     ps_status = \<lparr>ti_section = PS_DATA, line_count = 1, char_cnt = 0, byte_count = 16\<rparr>,
     ps_tags = [\<lparr>pe_id = 1, pe_len = 17, pe_data = Some (replicate 17 0)\<rparr>]\<rparr> = Crash"
  using ps_odd_length_overflows [of "\<lparr>ps_buf = ''AB'', tag_cnt = 0, ps_bytes = 1, ps_format = hex_array,
     ps_status = \<lparr>ti_section = PS_DATA, line_count = 1, char_cnt = 0, byte_count = 16\<rparr>,
     ps_tags = [\<lparr>pe_id = 1, pe_len = 17, pe_data = Some (replicate 17 0)\<rparr>]\<rparr>" 1 "replicate 17 0" 0]
  by simp

text \<open>A length line without the [S] tag is read as the number 0xFFFF, which is -1 as an
  \<open>int16_t\<close> and passes the check against the maximum: the entry gets the length 0xFFFFFFFF and no
  array.\<close>

theorem ps_untagged_length:
  assumes "\<not> starts_with (CHR ''['') str"
  shows "case ps_len_line m str s of
      Go s' \<Rightarrow> ps_bytes s' = - 1 \<and> ps_tags s' = (ps_tags s)[tag_cnt s := (ps_tags s ! tag_cnt s)\<lparr>pe_len := - 1, pe_data := None\<rparr>]
    | Stop r ts \<Rightarrow> False | Crash \<Rightarrow> False"
proof -
  have "wrap16 65535 = - 1" by (simp add: wrap16_def signed_take_bit_eq_take_bit_shift)
  then show ?thesis
    using assms
    by (simp add: ps_len_line_def get_input_format_def read_data_in_section_def UNDEFINED_def PS_MAX_LEN_def
        ps_malloc_def set_tag_def Let_def)
qed

theorem ps_untagged_length_witness:
  "ps_len_line zero_heap ''0010'' (ps_start [] [no_tag]) \<noteq> Crash"
  using ps_untagged_length [where str = "''0010''" and m = zero_heap and s = "ps_start [] [no_tag]"]
  by (auto simp: starts_with_def)

end
