(* ===== verification/Ath3k_Load.thy ===== *)
theory Ath3k_Load
  imports Hci_Uart Ps_Config
begin

text \<open>
  Loading the Bluetooth controller (src/libbt-ath3k/src/hardware_QCA3002.c): the vendor commands that
  write the persistent settings (\<open>write_ps_cmd\<close>), the patch (\<open>ps_patch_download\<close>) and the device
  address, the queries for the device type, the version and the checksum, and the address
  conversions. A function that can write outside an array returns an option, \<open>None\<close> when it does.
  The locale \<open>command_channel\<close> is what a loader needs of the way its commands are sent: an accepted
  command is on the line once, a refused one ends the sequence.
\<close>

section \<open>Commands\<close>

definition stack_bytes :: "Host \<Rightarrow> nat \<Rightarrow> u8 list" where
  "stack_bytes h n = map (h_stack h) [0..<n]"

definition stack_chars :: "Host \<Rightarrow> nat \<Rightarrow> string" where
  "stack_chars h n = map (\<lambda>i. char_of (unat (h_stack h i))) [0..<n]"

lemma length_stack [simp]: "length (stack_bytes h n) = n" "length (stack_chars h n) = n"
  by (simp_all add: stack_bytes_def stack_chars_def)

definition PS_WRITE :: u8 where "PS_WRITE = 1"
definition PS_RESET :: u8 where "PS_RESET = 2"
definition WRITE_PATCH :: u8 where "WRITE_PATCH = 8"
definition VERIFY_CRC :: u8 where "VERIFY_CRC = 9"
definition ENABLE_PATCH :: u8 where "ENABLE_PATCH = 11"
definition SET_PATCH_RAM_ID :: u8 where "SET_PATCH_RAM_ID = 13"
definition MAX_PATCH_CMD :: int where "MAX_PATCH_CMD = 244"

lemmas ps_ops = PS_WRITE_def PS_RESET_def WRITE_PATCH_def VERIFY_CRC_def ENABLE_PATCH_def
  SET_PATCH_RAM_ID_def MAX_PATCH_CMD_def

text \<open>Copying an entry's bytes into the command; the length is the one recorded in the entry.\<close>

definition copy_entry :: "ps_cfg_entry \<Rightarrow> u8 list \<Rightarrow> u8 list option" where
  "copy_entry e cmd =
     (let n = unat (pe_len e) in
      if n = 0 then Some cmd
      else if length cmd < HCI_PS_CMD_HDR_LEN + n then None
      else
        (case pe_data e of
           None \<Rightarrow> None
         | Some d \<Rightarrow> if length d < n then None else Some (put_at HCI_PS_CMD_HDR_LEN (take n d) cmd)))"

fun ps_write_loop :: "Host \<Rightarrow> u8 list \<Rightarrow> ps_cfg_entry list \<Rightarrow> Dev \<Rightarrow> (int \<times> Dev) option" where
  "ps_write_loop h cmd [] d = Some (0, d)"
| "ps_write_loop h cmd (e # es) d =
     (case copy_entry e (load_hci_ps_hdr PS_WRITE (uint (pe_len e)) (uint (pe_id e)) cmd) of
        None \<Rightarrow> None
      | Some cmd' \<Rightarrow>
          (case write_cmd h cmd' (unat (pe_len e) + HCI_PS_CMD_HDR_LEN) d of
             (r, d') \<Rightarrow> if r < 0 then Some (- EILSEQ, d') else ps_write_loop h cmd' es d'))"

definition enable_patch :: "Host \<Rightarrow> Dev \<Rightarrow> int \<times> Dev" where
  "enable_patch h d =
     (case write_cmd h (load_hci_ps_hdr ENABLE_PATCH 0 0 (stack_bytes h HCI_MAX_CMD_SIZE)) HCI_PS_CMD_HDR_LEN d of
        (r, d') \<Rightarrow> (if r < 0 then - EILSEQ else 0, d'))"

definition write_ps_cmd :: "Host \<Rightarrow> u8 \<Rightarrow> u32 \<Rightarrow> ps_cfg_entry list \<Rightarrow> Dev \<Rightarrow> (int \<times> Dev) option" where
  "write_ps_cmd h opcode ps_param ps_list d =
     (let cmd = stack_bytes h HCI_MAX_CMD_SIZE in
      if opcode = ENABLE_PATCH then Some (enable_patch h d)
      else if opcode = PS_RESET then
        (let c = (load_hci_ps_hdr opcode 6 0 cmd)
                   [7 := 0, 11 := ucast (ps_param AND 0xFF), 12 := ucast (drop_bit 8 ps_param AND 0xFF)]
         in case write_cmd h c 13 d of (r, d') \<Rightarrow> Some (if r < 0 then - EILSEQ else 0, d'))
      else if opcode = PS_WRITE then ps_write_loop h cmd (take (unat ps_param) ps_list) d
      else Some (0, d))"

definition ps_config_download :: "Host \<Rightarrow> int \<Rightarrow> ps_cfg_entry list \<Rightarrow> Dev \<Rightarrow> (int \<times> Dev) option" where
  "ps_config_download h tag_count ps_list d =
     (case write_ps_cmd h PS_RESET 2048 ps_list d of
        None \<Rightarrow> None
      | Some (r, d1) \<Rightarrow>
          if r < 0 then Some (- 1, d1)
          else if tag_count > 0 then
            (case write_ps_cmd h PS_WRITE (word_of_int tag_count) ps_list d1 of
               None \<Rightarrow> None
             | Some (r2, d2) \<Rightarrow> Some (if r2 < 0 then - 1 else 0, d2))
          else Some (0, d1))"

section \<open>The patch\<close>

text \<open>Where the patch goes: four bytes, most significant first in the text, last in the command.\<close>

definition set_patch_ram :: "Host \<Rightarrow> string \<Rightarrow> Dev \<Rightarrow> int \<times> Dev" where
  "set_patch_ram h patch_loc d =
     (let cmd = load_hci_ps_hdr SET_PATCH_RAM_ID 4 0 (stack_bytes h 20);
          c = cmd[10 := hex_pair patch_loc 0, 9 := hex_pair patch_loc 2,
                  8 := hex_pair patch_loc 4, 7 := hex_pair patch_loc 6]
      in sync_status h c 11 HCI_PS_CMD_OCF d)"

text \<open>The lines before the patch. The result is the line buffer at the end of the loop, the text not
  read yet and the device; \<open>None\<close> is the error return.\<close>

definition is_loc_line :: "string \<Rightarrow> bool" where
  "is_loc_line str = (take 3 str = ''DA:'')"

function patch_lines :: "Host \<Rightarrow> string \<Rightarrow> string \<Rightarrow> Dev \<Rightarrow> (string \<times> string) option \<times> Dev" where
  "patch_lines h ptr st d =
     (case fgets (nat MAX_PATCH_CMD) st of
        None \<Rightarrow> (Some (ptr, st), d)
      | Some (l, st') \<Rightarrow>
          (let p = overwrite ptr (l @ [NUL]); str = cstr p in
           if length str \<le> 1 then patch_lines h p st' d
           else if is_loc_line str then
             (case set_patch_ram h (take 8 (drop 3 str)) d of
                (r, d') \<Rightarrow> if r < 0 then (None, d') else patch_lines h p st' d')
           else if isxdigit (byte_at p 0) then (Some (p, st'), d)
           else (None, d)))"
  by pat_completeness auto
termination
  by (relation "measure (\<lambda>(h, ptr, st, d). length st)") (auto dest: fgets_progress simp: MAX_PATCH_CMD_def)

declare patch_lines.simps [simp del]

text \<open>The bytes of one patch command, two characters each.\<close>

fun read_patch :: "nat \<Rightarrow> string \<Rightarrow> (u8 list \<times> string) option" where
  "read_patch 0 st = Some ([], st)"
| "read_patch (Suc n) st =
     (case fgets 3 st of
        None \<Rightarrow> None
      | Some (l, st') \<Rightarrow>
          (case read_patch n st' of
             None \<Rightarrow> None
           | Some (bs, st'') \<Rightarrow> Some (word_of_int (strtol16 l) # bs, st'')))"

function patch_loop :: "Host \<Rightarrow> int \<Rightarrow> int \<Rightarrow> string \<Rightarrow> Dev \<Rightarrow> int \<times> Dev" where
  "patch_loop h byte_cnt patch_count st d =
     (if byte_cnt > 0 then
        (let len = (if byte_cnt > MAX_PATCH_CMD then MAX_PATCH_CMD else byte_cnt) in
         case read_patch (nat len) st of
           None \<Rightarrow> (- 1, d)
         | Some (bs, st') \<Rightarrow>
             (let cmd = put_at HCI_PS_CMD_HDR_LEN bs
                          (load_hci_ps_hdr WRITE_PATCH len patch_count (stack_bytes h HCI_MAX_CMD_SIZE))
              in case write_cmd h cmd (nat len + HCI_PS_CMD_HDR_LEN) d of
                   (r, d') \<Rightarrow>
                     if r < 0 then (- 1, d')
                     else patch_loop h (byte_cnt - MAX_PATCH_CMD) (patch_count + 1) st' d'))
      else (patch_count, d))"
  by pat_completeness auto
termination
  by (relation "measure (\<lambda>(h, bc, pc, st, d). nat bc)") (auto simp: MAX_PATCH_CMD_def)

declare patch_loop.simps [simp del]

definition ps_patch_download :: "Host \<Rightarrow> string \<Rightarrow> Dev \<Rightarrow> int \<times> Dev" where
  "ps_patch_download h stream d =
     (case patch_lines h (stack_chars h 245) stream d of
        (None, d1) \<Rightarrow> (- 1, d1)
      | (Some (ptr, st), d1) \<Rightarrow>
          (case patch_loop h (strtol16 (cstr ptr)) 0 st d1 of
             (count, d2) \<Rightarrow>
               if count < 0 then (- 1, d2)
               else (case enable_patch h d2 of (r, d3) \<Rightarrow> (if r < 0 then - 1 else count, d3))))"

section \<open>Addresses\<close>

definition convert_bdaddr :: "string \<Rightarrow> u8 list" where
  "convert_bdaddr str =
     (let step = (if CHR '':'' \<in> set (cstr str) then 3 else 2)
      in rev (map (\<lambda>i. hex_pair str (step * i)) [0..<6]))"

primrec str2ba_bytes :: "nat \<Rightarrow> string \<Rightarrow> u8 list" where
  "str2ba_bytes 0 str = []"
| "str2ba_bytes (Suc n) str =
     word_of_int (strtol16 str) #
     (if n = 0 then []
      else str2ba_bytes n
        (case dropWhile (\<lambda>c. c \<noteq> CHR '':'') (cstr str) of
           [] \<Rightarrow> ''00:00:00:00:00'' | c # r \<Rightarrow> r))"

definition baswap :: "u8 list \<Rightarrow> u8 list" where
  "baswap src = map (\<lambda>i. src ! (5 - i)) [0..<6]"

definition str2ba :: "string \<Rightarrow> u8 list" where
  "str2ba str = baswap (str2ba_bytes 6 str)"

definition write_bdaddr :: "Host \<Rightarrow> string \<Rightarrow> Dev \<Rightarrow> int \<times> Dev" where
  "write_bdaddr h bdaddr d =
     (let cmd = hci_hdr HCI_VENDOR_CMD_OGF HCI_PS_CMD_OCF 10 @ [0x01, 0x01, 0x00, 0x06] @ convert_bdaddr bdaddr
      in sync_status h cmd 13 HCI_PS_CMD_OCF d)"

section \<open>Queries\<close>

text \<open>Four bytes of an event, least significant first.\<close>

definition le32 :: "u8 list \<Rightarrow> nat \<Rightarrow> u32" where
  "le32 ev i =
     push_bit 8 (push_bit 8 (push_bit 8 (ucast (ev ! (i + 3))) OR ucast (ev ! (i + 2))) OR ucast (ev ! (i + 1)))
       OR ucast (ev ! i)"

text \<open>The address of the register is cut to its low byte before it is shifted: the other bytes of the
  command are zero.\<close>

definition get_device_type :: "Host \<Rightarrow> u32 \<Rightarrow> Dev \<Rightarrow> int \<times> u32 \<times> Dev" where
  "get_device_type h old d =
     (let reg = (ucast (0x4FFC :: u32) :: u8);
          cmd = hci_hdr HCI_VENDOR_CMD_OGF 0x05 5 @
            [reg, drop_bit 8 reg, drop_bit 16 reg, drop_bit 24 reg, 0x04]
      in case send_hci_cmd_sync h cmd 8 d of
           (err, ev, d1) \<Rightarrow>
             if err < 0 then (err, old, d1)
             else
               (case ev of
                  None \<Rightarrow> (- EILSEQ, old, d1)
                | Some e \<Rightarrow>
                    (let r = read_ps_event e 0x05 in if r < 0 then (r, old, d1) else (r, le32 e 7, d1))))"

definition read_ath3k_version :: "Host \<Rightarrow> u32 \<times> u32 \<Rightarrow> Dev \<Rightarrow> int \<times> (u32 \<times> u32) \<times> Dev" where
  "read_ath3k_version h old d =
     (case send_hci_cmd_sync h (hci_hdr HCI_VENDOR_CMD_OGF 0x1E 0) 3 d of
        (err, ev, d1) \<Rightarrow>
          if err < 0 then (err, old, d1)
          else
            (case ev of
               None \<Rightarrow> (- EILSEQ, old, d1)
             | Some e \<Rightarrow>
                 (let r = read_ps_event e 0x1E in
                  if r < 0 then (r, old, d1) else (r, (le32 e 7, le32 e 11), d1))))"

text \<open>The answer is inverted: an error is a checksum that passes.\<close>

definition get_ath3k_crc :: "Host \<Rightarrow> Dev \<Rightarrow> int \<times> Dev" where
  "get_ath3k_crc h d =
     (case send_hci_cmd_sync h (load_hci_ps_hdr VERIFY_CRC 0 3 (stack_bytes h 7)) 7 d of
        (err, ev, d1) \<Rightarrow>
          if err < 0 then (err, d1)
          else
            (case ev of
               None \<Rightarrow> (err, d1)
             | Some e \<Rightarrow> (if read_ps_event e HCI_PS_CMD_OCF \<ge> 0 then - EILSEQ else err, d1)))"

section \<open>Sequences of commands\<close>

fun send_all :: "(u8 list \<Rightarrow> 's \<Rightarrow> int \<times> 's) \<Rightarrow> u8 list list \<Rightarrow> 's \<Rightarrow> int \<times> 's" where
  "send_all send [] s = (0, s)"
| "send_all send (f # fs) s =
     (case send f s of (r, s') \<Rightarrow> if r < 0 then (- 1, s') else send_all send fs s')"

definition exchange :: "u8 list \<Rightarrow> dev_op list" where
  "exchange f = [Wr [0x01], Wr f]"

text \<open>All commands are on the line, or a prefix of them and the start of the one that failed.\<close>

definition delivered :: "u8 list list \<Rightarrow> bool \<Rightarrow> dev_op list \<Rightarrow> dev_op list \<Rightarrow> bool" where
  "delivered fs good l l' =
     (if good then l' = l @ concat (map exchange fs)
      else (\<exists>k<length fs. exchange_log (fs ! k) False (l @ concat (map exchange (take k fs))) l'))"

lemma delivered_Cons_good: "delivered fs g (l @ exchange f) l' \<Longrightarrow> delivered (f # fs) g l l'"
proof (cases g)
  case False
  assume "delivered fs g (l @ exchange f) l'"
  then obtain k where "k < length fs"
    "exchange_log (fs ! k) False ((l @ exchange f) @ concat (map exchange (take k fs))) l'"
    using False by (auto simp: delivered_def)
  then show ?thesis using False by (auto simp: delivered_def intro!: exI [of _ "Suc k"])
qed (simp add: delivered_def)

lemma delivered_Cons_bad: "exchange_log f False l l' \<Longrightarrow> delivered (f # fs) False l l'"
  by (auto simp: delivered_def intro!: exI [of _ 0])

locale command_channel =
  fixes send :: "u8 list \<Rightarrow> 's \<Rightarrow> int \<times> 's"
    and trace :: "'s \<Rightarrow> dev_op list"
  assumes sent: "frame \<noteq> [] \<Longrightarrow> send frame s = (r, s') \<Longrightarrow> exchange_log frame (0 \<le> r) (trace s) (trace s')"
begin

lemma send_all_trace:
  "list_all (\<lambda>f. f \<noteq> []) fs \<Longrightarrow> send_all send fs s = (r, s') \<Longrightarrow>
   delivered fs (r = 0) (trace s) (trace s') \<and> (r = 0 \<or> r = - 1)"
proof (induction fs arbitrary: s)
  case Nil
  then show ?case by (simp add: delivered_def)
next
  case (Cons f fs)
  obtain q t where q: "send f s = (q, t)" by fastforce
  have f: "exchange_log f (0 \<le> q) (trace s) (trace t)" using sent [OF _ q] Cons.prems(1) by simp
  show ?case
  proof (cases "q < 0")
    case True
    then show ?thesis using q f Cons.prems(2) delivered_Cons_bad [of f "trace s" "trace t" fs] by simp
  next
    case False
    then have "trace t = trace s @ exchange f" using f by (simp add: exchange_log_def exchange_def)
    moreover have "delivered fs (r = 0) (trace t) (trace s') \<and> (r = 0 \<or> r = - 1)"
      using Cons.IH [of t] Cons.prems q False by simp
    ultimately show ?thesis using delivered_Cons_good [of fs "r = 0" "trace s" f "trace s'"] by simp
  qed
qed

lemma send_all_append:
  "send_all send (fs @ gs) s =
     (case send_all send fs s of (r, s') \<Rightarrow> if r < 0 then (- 1, s') else send_all send gs s')"
  by (induction fs arbitrary: s) (auto split: prod.splits)

end

text \<open>A frame sent as the first bytes of a larger command buffer.\<close>

definition send_frame :: "Host \<Rightarrow> u8 list \<Rightarrow> Dev \<Rightarrow> int \<times> Dev" where
  "send_frame h f d = write_cmd h f (length f) d"

interpretation vendor: command_channel "send_frame h" d_log for h
proof
  fix frame :: "u8 list" and s s' r
  assume "frame \<noteq> []" and "send_frame h frame s = (r, s')"
  then show "exchange_log frame (0 \<le> r) (d_log s) (d_log s')"
    using sync_status_log [of "length frame" h frame HCI_PS_CMD_OCF s r s']
    by (simp add: send_frame_def write_cmd_def)
qed

lemma write_cmd_take: "n \<le> length buf \<Longrightarrow> write_cmd h buf n d = send_frame h (take n buf) d"
proof -
  assume "n \<le> length buf"
  then have n: "length (take n buf) = n" by simp
  show ?thesis
    unfolding send_frame_def n write_cmd_def sync_status_def send_hci_cmd_sync_def take_take min.idem ..
qed

definition ps_header :: "u8 \<Rightarrow> int \<Rightarrow> int \<Rightarrow> u8 list" where
  "ps_header op len index =
     hci_hdr HCI_VENDOR_CMD_OGF HCI_PS_CMD_OCF (word_of_int (len + 4)) @
     [op, word_of_int index, word_of_int (index div 256), word_of_int len]"

definition ps_frame :: "u8 \<Rightarrow> int \<Rightarrow> u8 list \<Rightarrow> u8 list" where
  "ps_frame op index dat = ps_header op (int (length dat)) index @ dat"

lemma length_ps_header [simp]: "length (ps_header op len index) = 7"
  by (simp add: ps_header_def hci_hdr_def Let_def)

lemma ps_frame_not_nil [simp]: "ps_frame op index dat \<noteq> []" "[] \<noteq> ps_frame op index dat"
  using length_ps_header by (auto simp: ps_frame_def dest: arg_cong [where f = length])

lemma load_hdr_frame:
  assumes "7 + length dat \<le> length cmd"
  shows "take (7 + length dat) (put_at 7 dat (load_hci_ps_hdr op (int (length dat)) index cmd)) = ps_frame op index dat"
    and "length (put_at 7 dat (load_hci_ps_hdr op (int (length dat)) index cmd)) = length cmd"
proof -
  let ?c = "load_hci_ps_hdr op (int (length dat)) index cmd"
  have c: "?c = put_at 0 (ps_header op (int (length dat)) index) cmd"
    by (simp add: load_hci_ps_hdr_def ps_header_def)
  have l: "length ?c = length cmd" using assms by (simp add: c)
  show "length (put_at 7 dat ?c) = length cmd" using assms l by simp
  have "take 7 ?c = ps_header op (int (length dat)) index"
    using take_put_at [of 0 cmd "ps_header op (int (length dat)) index"] by (simp add: c)
  then show "take (7 + length dat) (put_at 7 dat ?c) = ps_frame op index dat"
    using take_put_at [of 7 ?c dat] assms l by (simp add: ps_frame_def)
qed

section \<open>Writing the settings\<close>

text \<open>The bytes of an entry, and the entries that a command buffer can hold.\<close>

definition entry_bytes :: "ps_cfg_entry \<Rightarrow> u8 list" where
  "entry_bytes e = (case pe_data e of None \<Rightarrow> [] | Some d \<Rightarrow> take (unat (pe_len e)) d)"

definition entry_sendable :: "ps_cfg_entry \<Rightarrow> bool" where
  "entry_sendable e =
     (unat (pe_len e) = 0 \<or>
      (unat (pe_len e) \<le> 253 \<and> (case pe_data e of None \<Rightarrow> False | Some d \<Rightarrow> unat (pe_len e) \<le> length d)))"

definition entry_frame :: "ps_cfg_entry \<Rightarrow> u8 list" where
  "entry_frame e = ps_frame PS_WRITE (uint (pe_id e)) (if unat (pe_len e) = 0 then [] else entry_bytes e)"

lemma copy_entry_eq:
  assumes "length cmd = 260"
  shows "copy_entry e cmd =
    (if entry_sendable e then Some (put_at 7 (if unat (pe_len e) = 0 then [] else entry_bytes e) cmd) else None)"
  using assms
  by (auto simp: copy_entry_def entry_sendable_def entry_bytes_def HCI_PS_CMD_HDR_LEN_def Let_def split: option.splits)

lemma length_entry_bytes:
  "entry_sendable e \<Longrightarrow> length (if unat (pe_len e) = 0 then [] else entry_bytes e) = unat (pe_len e)"
  by (auto simp: entry_sendable_def entry_bytes_def split: option.splits)

lemma ps_write_step:
  assumes "length cmd = 260" and "entry_sendable e"
  shows "\<exists>cmd'. length cmd' = 260 \<and> ps_write_loop h cmd (e # es) d =
    (case send_frame h (entry_frame e) d of
       (r, d') \<Rightarrow> if r < 0 then Some (- EILSEQ, d') else ps_write_loop h cmd' es d')"
proof -
  define dat where "dat = (if unat (pe_len e) = 0 then [] else entry_bytes e)"
  let ?c = "load_hci_ps_hdr PS_WRITE (uint (pe_len e)) (uint (pe_id e)) cmd"
  have l: "length dat = unat (pe_len e)"
    using length_entry_bytes [OF assms(2)] unfolding dat_def .
  have le: "length dat \<le> 253" using assms(2) l by (auto simp: entry_sendable_def)
  have u: "uint (pe_len e) = int (length dat)" unfolding l by simp
  have c: "length ?c = 260" using assms(1) by (simp add: load_hci_ps_hdr_def hci_hdr_def Let_def)
  have fr: "entry_frame e = ps_frame PS_WRITE (uint (pe_id e)) dat" unfolding entry_frame_def dat_def ..
  have f: "take (7 + length dat) (put_at 7 dat ?c) = entry_frame e" "length (put_at 7 dat ?c) = 260"
    unfolding u fr using load_hdr_frame [of dat cmd PS_WRITE "uint (pe_id e)"] le assms(1) by simp_all
  have w: "write_cmd h (put_at 7 dat ?c) (unat (pe_len e) + HCI_PS_CMD_HDR_LEN) d = send_frame h (entry_frame e) d"
    using write_cmd_take [of "7 + length dat" "put_at 7 dat ?c" h d] f le
    unfolding l [symmetric] HCI_PS_CMD_HDR_LEN_def add.commute [of _ 7] by simp
  have "copy_entry e ?c = Some (put_at 7 dat ?c)"
    using copy_entry_eq [OF c, of e] assms(2) unfolding dat_def by simp
  then have "ps_write_loop h cmd (e # es) d =
      (case send_frame h (entry_frame e) d of
         (r, d') \<Rightarrow> if r < 0 then Some (- EILSEQ, d') else ps_write_loop h (put_at 7 dat ?c) es d')"
    by (simp add: w)
  then show ?thesis using f(2) by blast
qed

lemma ps_write_all:
  "length cmd = 260 \<Longrightarrow> list_all entry_sendable es \<Longrightarrow>
   ps_write_loop h cmd es d =
     (case send_all (send_frame h) (map entry_frame es) d of
        (r, d') \<Rightarrow> Some (if r < 0 then - EILSEQ else 0, d'))"
proof (induction es arbitrary: cmd d)
  case (Cons e es)
  obtain cmd' where c: "length cmd' = 260"
    "ps_write_loop h cmd (e # es) d = (case send_frame h (entry_frame e) d of
       (r, d') \<Rightarrow> if r < 0 then Some (- EILSEQ, d') else ps_write_loop h cmd' es d')"
    using ps_write_step [OF Cons.prems(1), of e h es d] Cons.prems(2) by auto
  show ?case
    using Cons.IH [OF c(1)] Cons.prems(2) c(2) by (simp add: EILSEQ_def split: prod.splits)
qed simp

lemma send_all_sign: "send_all send fs s = (r, s') \<Longrightarrow> r = 0 \<or> r = - 1"
  by (induction fs arbitrary: s) (auto split: prod.splits if_splits)

text \<open>C9: the settings are written in the order of the array, one command per entry with the entry's
  id, length and bytes; the first command that is refused ends the download with -EILSEQ and nothing
  of the later entries is on the line; success means all of them are.\<close>

theorem ps_write_in_order:
  assumes "list_all entry_sendable (take (unat n) tags)"
  shows "case write_ps_cmd h PS_WRITE n tags d of
      None \<Rightarrow> False
    | Some (r, d') \<Rightarrow>
        (r = 0 \<or> r = - EILSEQ) \<and>
        delivered (map entry_frame (take (unat n) tags)) (r = 0) (d_log d) (d_log d')"
proof -
  let ?fs = "map entry_frame (take (unat n) tags)"
  obtain r d' where s: "send_all (send_frame h) ?fs d = (r, d')" by fastforce
  have "delivered ?fs (r = 0) (d_log d) (d_log d')" "r = 0 \<or> r = - 1"
    using vendor.send_all_trace [OF _ s] by (simp_all add: list_all_iff entry_frame_def)
  moreover have "write_ps_cmd h PS_WRITE n tags d = Some (if r < 0 then - EILSEQ else 0, d')"
    using ps_write_all [of "stack_bytes h HCI_MAX_CMD_SIZE" "take (unat n) tags" h d] assms s
    by (simp add: write_ps_cmd_def ps_ops HCI_MAX_CMD_SIZE_def Let_def)
  ultimately show ?thesis by (auto simp: EILSEQ_def)
qed

definition demo_entry :: "nat \<Rightarrow> ps_cfg_entry" where
  "demo_entry n = \<lparr>pe_id = 0x0102, pe_len = of_nat n, pe_data = Some (replicate n 7)\<rparr>"

theorem ps_write_in_order_witness:
  "case write_ps_cmd (demo_host (\<lambda>p. None)) PS_WRITE 2 [demo_entry 2, demo_entry 4, demo_entry 300] \<lparr>d_rx = [ps_ack], d_log = []\<rparr> of
     None \<Rightarrow> False | Some (r, d') \<Rightarrow> r = 0 \<or> r = - EILSEQ"
  using ps_write_in_order [where n = 2 and tags = "[demo_entry 2, demo_entry 4, demo_entry 300]"
      and h = "demo_host (\<lambda>p. None)" and d = "\<lparr>d_rx = [ps_ack], d_log = []\<rparr>"]
  by (auto simp: demo_entry_def entry_sendable_def split: option.splits prod.splits)

text \<open>The command buffer is overrun exactly when an entry does not fit in it: writing one entry
  is undefined if and only if its length is not zero and is larger than 253 or than its array.\<close>

theorem ps_write_overflow:
  "(write_ps_cmd h PS_WRITE 1 (e # tags) d = None) = (\<not> entry_sendable e)"
proof (cases "entry_sendable e")
  case True
  then show ?thesis
    using ps_write_all [of "stack_bytes h HCI_MAX_CMD_SIZE" "[e]" h d]
    by (simp add: write_ps_cmd_def ps_ops HCI_MAX_CMD_SIZE_def Let_def split: prod.splits)
next
  case False
  have "length (load_hci_ps_hdr PS_WRITE (uint (pe_len e)) (uint (pe_id e)) (stack_bytes h HCI_MAX_CMD_SIZE)) = 260"
    by (simp add: load_hci_ps_hdr_def hci_hdr_def Let_def HCI_MAX_CMD_SIZE_def)
  from copy_entry_eq [OF this, of e] False show ?thesis
    by (simp add: write_ps_cmd_def ps_ops HCI_MAX_CMD_SIZE_def Let_def)
qed

section \<open>Downloading a patch\<close>

definition hex_bytes :: "u8 list \<Rightarrow> string" where
  "hex_bytes bs = concat (map (\<lambda>b. hex_digits 2 (unat b)) bs)"

lemma hex_bytes_simps [simp]:
  "hex_bytes [] = []" "hex_bytes (b # bs) = hex_digits 2 (unat b) @ hex_bytes bs"
  by (simp_all add: hex_bytes_def)

lemma fgets_byte: "fgets 3 (hex_digits 2 n @ rest) = Some (hex_digits 2 n, rest)"
proof -
  have n: "NL \<notin> set (hex_digits 2 n)" using hex_text_char [OF hex_text_digits [of 2 n]] by blast
  have t: "take (3 - 1) (hex_digits 2 n @ rest) = hex_digits 2 n" by simp
  have l: "hex_digits 2 n \<noteq> []" using length_hex_digits [of 2 n] by (cases "hex_digits 2 n") simp_all
  show ?thesis unfolding fgets_def t using n l by simp
qed

lemma read_patch_bytes: "read_patch (length bs) (hex_bytes bs @ rest) = Some (bs, rest)"
proof (induction bs)
  case (Cons b bs)
  have "strtol16 (hex_digits 2 (unat b) @ []) = int (unat b)"
    using unsigned_less [of b] by (intro strtol16_digits) (auto simp: ends_number_def)
  then show ?case using Cons by (simp add: fgets_byte)
qed simp

lemma read_patch_take:
  "n \<le> length bs \<Longrightarrow> read_patch n (hex_bytes bs @ rest) = Some (take n bs, hex_bytes (drop n bs) @ rest)"
  using read_patch_bytes [of "take n bs" "hex_bytes (drop n bs) @ rest"]
  by (simp add: hex_bytes_def flip: append_assoc concat_append map_append)

function patch_frames :: "int \<Rightarrow> u8 list \<Rightarrow> u8 list list" where
  "patch_frames k dat =
     (if dat = [] then []
      else ps_frame WRITE_PATCH k (take 244 dat) # patch_frames (k + 1) (drop 244 dat))"
  by pat_completeness auto
termination by (relation "measure (\<lambda>(k, dat). length dat)") auto

declare patch_frames.simps [simp del]

lemma patch_frames_not_nil: "list_all (\<lambda>f. f \<noteq> []) (patch_frames k dat)"
  by (induction k dat rule: patch_frames.induct) (subst patch_frames.simps, simp)

lemma patch_loop_frames:
  "bc = int (length dat) \<or> (bc \<le> 0 \<and> dat = []) \<Longrightarrow> 0 \<le> k \<Longrightarrow>
   patch_loop h bc k (hex_bytes dat @ rest) d =
     (case send_all (send_frame h) (patch_frames k dat) d of
        (r, d') \<Rightarrow> (if r < 0 then - 1 else k + int (length (patch_frames k dat)), d'))"
proof (induction k dat arbitrary: bc d rule: patch_frames.induct)
  case (1 k dat)
  show ?case
  proof (cases "dat = []")
    case True
    then show ?thesis using "1.prems" by (subst patch_loop.simps) (auto simp: patch_frames.simps)
  next
    case False
    then have bc: "bc = int (length dat)" "0 < bc" using "1.prems" by auto
    let ?n = "min 244 (length dat)" and ?t = "take 244 dat"
    have len: "(if bc > MAX_PATCH_CMD then MAX_PATCH_CMD else bc) = int (length ?t)"
      using bc by (simp add: MAX_PATCH_CMD_def min_def)
    have rd: "read_patch (nat (int (length ?t))) (hex_bytes dat @ rest) = Some (?t, hex_bytes (drop 244 dat) @ rest)"
      using read_patch_take [of "length ?t" dat rest] by (simp add: min_def)
    let ?c = "put_at HCI_PS_CMD_HDR_LEN ?t (load_hci_ps_hdr WRITE_PATCH (int (length ?t)) k (stack_bytes h HCI_MAX_CMD_SIZE))"
    have l: "7 + length ?t \<le> length (stack_bytes h HCI_MAX_CMD_SIZE)" by (simp add: HCI_MAX_CMD_SIZE_def)
    have w: "write_cmd h ?c (nat (int (length ?t)) + HCI_PS_CMD_HDR_LEN) d = send_frame h (ps_frame WRITE_PATCH k ?t) d"
      using write_cmd_take [of "7 + length ?t" ?c h d] load_hdr_frame [OF l, of WRITE_PATCH k] l
      unfolding HCI_PS_CMD_HDR_LEN_def nat_int add.commute [of _ 7] by simp
    have ih: "patch_loop h (bc - MAX_PATCH_CMD) (k + 1) (hex_bytes (drop 244 dat) @ rest) d1 =
      (case send_all (send_frame h) (patch_frames (k + 1) (drop 244 dat)) d1 of
        (r, d') \<Rightarrow> (if r < 0 then - 1 else k + 1 + int (length (patch_frames (k + 1) (drop 244 dat))), d'))" for d1
      using bc "1.prems"(2) by (intro "1.IH" [OF False]) (auto simp: MAX_PATCH_CMD_def)
    have step: "patch_loop h bc k (hex_bytes dat @ rest) d =
      (case send_frame h (ps_frame WRITE_PATCH k ?t) d of
         (r, d') \<Rightarrow> if r < 0 then (- 1, d')
           else patch_loop h (bc - MAX_PATCH_CMD) (k + 1) (hex_bytes (drop 244 dat) @ rest) d')"
      unfolding patch_loop.simps [of h bc] Let_def len rd option.case prod.case w if_P [OF bc(2)] ..
    have fr: "patch_frames k dat = ps_frame WRITE_PATCH k ?t # patch_frames (k + 1) (drop 244 dat)"
      using False by (subst patch_frames.simps) simp
    show ?thesis unfolding step ih fr by (simp split: prod.splits)
  qed
qed

text \<open>The text of a patch: its size in hexadecimal, then its bytes.\<close>

definition patch_text :: "nat \<Rightarrow> u8 list \<Rightarrow> string" where
  "patch_text w dat = hex_digits w (length dat) @ NL # hex_bytes dat"

lemma patch_size_line:
  assumes "0 < w" and "w \<le> 200" and "length ptr = 245"
  shows "\<exists>p. patch_lines h ptr (patch_text w dat) d = (Some (p, hex_bytes dat), d) \<and>
    cstr p = hex_digits w (length dat) @ [NL]"
proof -
  let ?l = "hex_digits w (length dat)"
  have ch: "c \<in> set ?l \<Longrightarrow> c \<noteq> NUL \<and> c \<noteq> NL" for c
    using hex_text_char [OF hex_text_digits [of w "length dat"]] by simp
  have f: "fgets (nat MAX_PATCH_CMD) (patch_text w dat) = Some (?l @ [NL], hex_bytes dat)"
    unfolding patch_text_def using ch assms(2) by (intro fgets_line) (auto simp: MAX_PATCH_CMD_def)
  let ?p = "overwrite ptr ((?l @ [NL]) @ [NUL])"
  have p: "?p = ?l @ NL # NUL # drop (w + 2) ptr"
    using assms by (simp add: overwrite_def)
  have c: "cstr ?p = ?l @ [NL]"
    unfolding p cstr_def using ch by (subst takeWhile_append2) auto
  obtain x xs where x: "?l = x # xs"
    using length_hex_digits [of w "length dat"] assms(1) by (cases ?l) auto
  have b: "byte_at ?p 0 = x" unfolding p by (simp add: byte_at_def x)
  obtain k where k: "k < 16" "x = hexdig k" using hex_text_digits [of w "length dat"] unfolding x by auto
  have dx: "isxdigit (byte_at ?p 0)" unfolding b k(2) isxdigit_def using hexdig_facts(1) [OF k(1)] by simp
  have hx: "hexval (CHR '':'') = None" by (simp add: hexval_def code_def)
  have "CHR '':'' \<notin> set (?l @ [NL])"
    using hex_text_digits [of w "length dat"] hexdig_facts(1) hx by (force simp: hex_text_def)
  then have loc: "\<not> is_loc_line (?l @ [NL])"
    unfolding is_loc_line_def by (metis in_set_takeD list.set_intros(1) list.set_intros(2))
  have "patch_lines h ptr (patch_text w dat) d = (Some (?p, hex_bytes dat), d)"
    unfolding patch_lines.simps [of h ptr] f option.case prod.case Let_def c using assms(1) loc dx by simp
  then show ?thesis using c by blast
qed

lemma enable_patch_frame:
  "enable_patch h d = (case send_frame h (ps_frame ENABLE_PATCH 0 []) d of (r, d') \<Rightarrow> (if r < 0 then - EILSEQ else 0, d'))"
proof -
  let ?s = "stack_bytes h HCI_MAX_CMD_SIZE"
  have "take 7 (load_hci_ps_hdr ENABLE_PATCH 0 0 ?s) = ps_frame ENABLE_PATCH 0 []"
    "length (load_hci_ps_hdr ENABLE_PATCH 0 0 ?s) = 260"
    using load_hdr_frame [of "[]" ?s ENABLE_PATCH 0] by (simp_all add: HCI_MAX_CMD_SIZE_def)
  then show ?thesis
    using write_cmd_take [of 7 "load_hci_ps_hdr ENABLE_PATCH 0 0 ?s" h d]
    unfolding enable_patch_def HCI_PS_CMD_HDR_LEN_def by simp
qed

lemma patch_frames_shape:
  "concat (map (drop 7) (patch_frames k dat)) = dat \<and>
   length (patch_frames k dat) = (length dat + 243) div 244 \<and>
   list_all (\<lambda>f. 7 < length f \<and> length f \<le> 251) (patch_frames k dat)"
proof (induction k dat rule: patch_frames.induct)
  case (1 k dat)
  show ?case
  proof (cases "dat = []")
    case True
    then show ?thesis by (simp add: patch_frames.simps)
  next
    case False
    have d: "(length (drop 244 dat) + 243) div 244 + 1 = (length dat + 243) div 244"
    proof (cases "244 \<le> length dat")
      case True
      then obtain j where "length dat = j + 244" by (metis le_Suc_ex add.commute)
      then show ?thesis by simp
    next
      case f: False
      moreover have "0 < length dat" using False by (cases dat) simp_all
      ultimately have "(length dat + 243) div 244 = 1" by (intro div_nat_eqI) (simp_all add: Suc_le_eq)
      then show ?thesis using f by simp
    qed
    show ?thesis using "1.IH" [OF False] False d
      by (subst (1 2 3) patch_frames.simps) (auto simp: ps_frame_def)
  qed
qed

lemma patch_download_whole:
  assumes "0 < w" and "w \<le> 200" and "length dat < 16 ^ w" and "length dat < 2147483648"
  shows "ps_patch_download h (patch_text w dat) d =
      (case send_all (send_frame h) (patch_frames 0 dat @ [ps_frame ENABLE_PATCH 0 []]) d of
         (r, d') \<Rightarrow> (if r < 0 then - 1 else int ((length dat + 243) div 244), d')) \<and>
    concat (map (drop 7) (patch_frames 0 dat)) = dat \<and>
    list_all (\<lambda>f. 7 < length f \<and> length f \<le> 251) (patch_frames 0 dat)"
proof -
  obtain p where p: "patch_lines h (stack_chars h 245) (patch_text w dat) d = (Some (p, hex_bytes dat), d)"
    "cstr p = hex_digits w (length dat) @ [NL]"
    using patch_size_line [OF assms(1,2), of "stack_chars h 245" h dat d] by auto
  have n: "strtol16 (cstr p) = int (length dat)"
    unfolding p(2) using assms by (intro strtol16_digits) (auto simp: ends_number_def)
  have "patch_loop h (int (length dat)) 0 (hex_bytes dat @ []) d =
     (case send_all (send_frame h) (patch_frames 0 dat) d of
        (r, d') \<Rightarrow> (if r < 0 then - 1 else 0 + int (length (patch_frames 0 dat)), d'))"
    by (rule patch_loop_frames) simp_all
  then have "ps_patch_download h (patch_text w dat) d =
      (case send_all (send_frame h) (patch_frames 0 dat @ [ps_frame ENABLE_PATCH 0 []]) d of
         (r, d') \<Rightarrow> (if r < 0 then - 1 else int ((length dat + 243) div 244), d'))"
    using patch_frames_shape [of 0 dat]
    by (auto simp: ps_patch_download_def p(1) n vendor.send_all_append enable_patch_frame EILSEQ_def
        split: prod.splits)
  then show ?thesis using patch_frames_shape [of 0 dat] by simp
qed

text \<open>C7: a patch is downloaded whole: from the text of an image, its bytes go out in order in
  numbered commands of at most 244 bytes each (251 with their header), as many as needed and no
  more, followed by the command that enables the patch; the number of commands is the result, and a
  refused command ends the download with -1.\<close>

theorem patch_download_frames:
  assumes "0 < w" and "w \<le> 200" and "length dat < 16 ^ w" and "length dat < 2147483648"
  shows "ps_patch_download h (patch_text w dat) d =
      (case send_all (send_frame h) (patch_frames 0 dat @ [ps_frame ENABLE_PATCH 0 []]) d of
         (r, d') \<Rightarrow> (if r < 0 then - 1 else int ((length dat + 243) div 244), d')) \<and>
    concat (map (drop 7) (patch_frames 0 dat)) = dat \<and>
    list_all (\<lambda>f. 7 < length f \<and> length f \<le> 251) (patch_frames 0 dat)"
  using assms by (rule patch_download_whole)

theorem patch_download_frames_witness:
  "fst (ps_patch_download (demo_host (\<lambda>p. None)) (patch_text 4 (replicate 300 5)) \<lparr>d_rx = [ps_ack], d_log = []\<rparr>) \<in> {- 1, 2}"
  using patch_download_frames [of 4 "replicate 300 5" "demo_host (\<lambda>p. None)" "\<lparr>d_rx = [ps_ack], d_log = []\<rparr>"]
  by (auto split: prod.splits)

section \<open>Addresses read back\<close>

text \<open>A device address as users write it, first byte first.\<close>

definition addr_text :: "u8 list \<Rightarrow> string" where
  "addr_text bs = tl (concat (map (\<lambda>b. CHR '':'' # hex_digits 2 (unat b)) bs))"

lemma six: "length bs = 6 \<Longrightarrow> \<exists>a b c d e f. bs = [a, b, c, d, e, f]"
  by (auto simp: numeral_eq_Suc length_Suc_conv)

lemma digits_two: "\<exists>x y. hex_digits 2 n = [x, y] \<and> (\<exists>i<16. x = hexdig i) \<and> (\<exists>j<16. y = hexdig j)"
proof -
  have "hex_digits 2 n = [hexdig (n div 16 mod 16), hexdig (n mod 16)]" by (simp add: numeral_2_eq_2)
  then show ?thesis by (metis mod_less_divisor zero_less_numeral)
qed

lemma colon_not_digit: "n < 16 \<Longrightarrow> hexdig n \<noteq> CHR '':''"
  using hexdig_facts(1) [of n] by (auto simp: hexval_def code_def)

lemma addr_text_six:
  "addr_text [a, b, c, d, e, f] =
     hex_digits 2 (unat a) @ CHR '':'' # hex_digits 2 (unat b) @ CHR '':'' # hex_digits 2 (unat c) @
     CHR '':'' # hex_digits 2 (unat d) @ CHR '':'' # hex_digits 2 (unat e) @ CHR '':'' # hex_digits 2 (unat f)"
  by (simp add: addr_text_def)

lemma hex_pair_at: "hex_pair (xs @ hex_digits 2 (unat b) @ t) (length xs) = b"
  using hex_pair_shift [of xs "hex_digits 2 (unat b) @ t" 0] hex_pair_digits [of b t] by simp

lemma hex_pair_at_Cons: "hex_pair (x # a) (Suc i) = hex_pair a i"
  by (simp add: hex_pair_def byte_at_def)

lemma hex_pair_skip: "hex_pair (hex_digits 2 n @ a) (Suc (Suc i)) = hex_pair a i"
  using hex_pair_shift [of "hex_digits 2 n" a i] by simp

lemma hex_pair_end: "hex_pair (hex_digits 2 (unat b)) 0 = b"
  using hex_pair_digits [of b "[]"] by simp

lemma convert_bdaddr_addr: "length bs = 6 \<Longrightarrow> convert_bdaddr (addr_text bs @ rest) = rev bs"
proof -
  assume "length bs = 6"
  then obtain a b c d e f where bs: "bs = [a, b, c, d, e, f]" using six by blast
  have nul: "NUL \<notin> set (hex_digits 2 (unat a))"
    using hex_text_char [OF hex_text_digits [of 2 "unat a"]] by blast
  have "CHR '':'' \<in> set (cstr (addr_text bs @ rest))"
    unfolding bs addr_text_six cstr_def append_assoc append_Cons
    using nul by (subst takeWhile_append2) auto
  then have "convert_bdaddr (addr_text bs @ rest) = rev (map (\<lambda>i. hex_pair (addr_text bs @ rest) (3 * i)) [0..<6])"
    by (simp add: convert_bdaddr_def)
  also have "map (\<lambda>i. hex_pair (addr_text bs @ rest) (3 * i)) [0..<6] = bs"
    unfolding bs addr_text_six
    by (simp add: upt_rec numeral_eq_Suc hex_pair_skip [unfolded numeral_2_eq_2]
        hex_pair_at_Cons hex_pair_digits [unfolded numeral_2_eq_2] del: hex_digits.simps)
  finally show ?thesis .
qed

lemma strtol_byte: "ends_number t \<Longrightarrow> NUL \<notin> set t \<Longrightarrow> word_of_int (strtol16 (hex_digits 2 (unat b) @ t)) = (b :: u8)"
proof -
  assume t: "ends_number t" "NUL \<notin> set t"
  have "unat b < 256" using unsigned_less [of b] by simp
  then show ?thesis using strtol16_digits [of 2 "unat b" t] t by simp
qed

lemma next_colon:
  "NUL \<notin> set t \<Longrightarrow> dropWhile (\<lambda>c. c \<noteq> CHR '':'') (cstr (hex_digits 2 n @ CHR '':'' # t)) = CHR '':'' # t"
proof -
  assume t: "NUL \<notin> set t"
  obtain x y i j where h: "hex_digits 2 n = [x, y]" "i < 16" "x = hexdig i" "j < 16" "y = hexdig j"
    using digits_two [of n] by blast
  have nc: "x \<noteq> CHR '':''" "y \<noteq> CHR '':''" "x \<noteq> NUL" "y \<noteq> NUL"
    using h colon_not_digit hexdig_facts(3) by auto
  have "takeWhile (\<lambda>c. c \<noteq> NUL) t = t" using t by (intro takeWhile_eq_all_conv [THEN iffD2]) auto
  then show ?thesis using nc by (simp add: h(1) cstr_def)
qed

lemma digits_no_nul: "NUL \<notin> set (hex_digits w n)"
  using hex_text_char [OF hex_text_digits [of w n]] by blast

lemma str2ba_step:
  "NUL \<notin> set t \<Longrightarrow>
   str2ba_bytes (Suc (Suc n)) (hex_digits 2 (unat b) @ CHR '':'' # t) = b # str2ba_bytes (Suc n) t"
  using strtol_byte [of "CHR '':'' # t" b] next_colon [of t "unat b"]
  by (simp add: ends_number_def del: hex_digits.simps)

lemma str2ba_last:
  "ends_number t \<Longrightarrow> NUL \<notin> set t \<Longrightarrow> str2ba_bytes (Suc 0) (hex_digits 2 (unat b) @ t) = [b]"
  using strtol_byte [of t b] by (simp del: hex_digits.simps)

lemma baswap_six: "length bs = 6 \<Longrightarrow> baswap bs = rev bs"
  using six [of bs] by (auto simp: baswap_def upt_rec numeral_eq_Suc)

text \<open>The two conversions of a device address agree on the form in which addresses are
  written: six pairs of digits with colons give the six bytes, least significant first, also with
  the line end of a file after them.\<close>

theorem bdaddr_conversions:
  assumes "length bs = 6" and "t = [] \<or> t = [NL]"
  shows "convert_bdaddr (addr_text bs @ t) = rev bs \<and> str2ba (addr_text bs @ t) = rev bs"
proof -
  obtain a b c d e f where bs: "bs = [a, b, c, d, e, f]" using six [OF assms(1)] by blast
  have n: "NUL \<notin> set t" "ends_number t" using assms(2) by (auto simp: ends_number_def)
  have 6: "(6 :: nat) = Suc (Suc (Suc (Suc (Suc (Suc 0)))))" by simp
  have "str2ba_bytes 6 (addr_text bs @ t) = bs"
    unfolding bs addr_text_six 6 append_assoc append_Cons
    using n digits_no_nul by (simp add: str2ba_step str2ba_last del: hex_digits.simps str2ba_bytes.simps)
  then show ?thesis
    using convert_bdaddr_addr [OF assms(1)] baswap_six [OF assms(1)] by (simp add: str2ba_def)
qed

theorem bdaddr_conversions_witness:
  "convert_bdaddr (addr_text [0x00, 0x03, 0x7A, 0x12, 0xAB, 0xFF]) = [0xFF, 0xAB, 0x12, 0x7A, 0x03, 0x00]"
  using bdaddr_conversions [of "[0x00, 0x03, 0x7A, 0x12, 0xAB, 0xFF]" "[]"] by simp

end
