(* ===== verification/Ath3k_Init.thy ===== *)
theory Ath3k_Init
  imports Ath3k_Load
begin

text \<open>
  Bringing the Bluetooth controller up (src/libbt-ath3k/src/hardware_QCA3002.c): the choice of the
  files, the download of settings and patch (\<open>ath_ps_download\<close>), the change of the line speed on both
  sides (\<open>ath3k_init\<close>), the serial port (\<open>init_uart\<close>, \<open>hw_config\<close>), the raw HCI socket
  (\<open>hci_send_cmd\<close>, \<open>ath3k_post\<close>) and the reset at the end (\<open>hw_epilog_process\<close>). The log of the
  device shows the order of what is done on the line.
\<close>

section \<open>File names\<close>

text \<open>The conversion %x of \<open>printf\<close>.\<close>

function show_hex :: "nat \<Rightarrow> string" where
  "show_hex n =
     (let c = char_of (if n mod 16 < 10 then 48 + n mod 16 else 87 + n mod 16)
      in if n < 16 then [c] else show_hex (n div 16) @ [c])"
  by pat_completeness auto
termination by (relation "measure id") auto

declare show_hex.simps [simp del]

definition MAXPATHLEN :: nat where "MAXPATHLEN = 4096"

text \<open>\<open>snprintf\<close> keeps what fits in front of the terminating NUL.\<close>

definition fw_path :: "Host \<Rightarrow> u32 \<Rightarrow> string \<Rightarrow> string" where
  "fw_path h rom name = take (MAXPATHLEN - 1) (h_fwdir h @ show_hex (unat rom) @ ''/'' @ name)"

definition get_ps_file_name :: "Host \<Rightarrow> u32 \<Rightarrow> u32 \<Rightarrow> string" where
  "get_ps_file_name h devtype rom = fw_path h rom (if devtype = 0xdeadc0de then ''PS_ASIC.pst'' else ''PS_FPGA.pst'')"

definition get_patch_file_name :: "Host \<Rightarrow> u32 \<Rightarrow> u32 \<Rightarrow> u32 \<Rightarrow> string" where
  "get_patch_file_name h devtype rom build =
     (if rom = 0x99999999 \<and> devtype \<noteq> 0xdeadc0de \<and> devtype \<noteq> 0 \<and> build = 1 then []
      else fw_path h rom ''RamPatch.txt'')"

section \<open>Line speeds\<close>

text \<open>The speeds the terminal has; a termios constant is written as its speed.\<close>

definition uart_speed :: "int \<Rightarrow> int" where
  "uart_speed s =
     (if s \<in> {9600, 19200, 38400, 57600, 115200, 230400, 460800, 500000, 576000, 921600, 1000000,
              1152000, 1500000, 2000000, 2500000, 3000000, 3500000, 4000000} then s else 57600)"

definition set_speed :: "Host \<Rightarrow> int \<Rightarrow> Dev \<Rightarrow> int \<times> Dev" where
  "set_speed h speed d = (- int (h_speed h (d_log d) (uart_speed speed)), log_op (Speed (uart_speed speed)) d)"

definition baud_cmd :: "int \<Rightarrow> u8 list" where
  "baud_cmd speed =
     [0x01] @ hci_hdr HCI_VENDOR_CMD_OGF 0x0C 2 @ [word_of_int (speed div 100), word_of_int (speed div 100 div 256)]"

definition set_cntrlr_baud :: "Host \<Rightarrow> int \<Rightarrow> Dev \<Rightarrow> int \<times> Dev" where
  "set_cntrlr_baud h speed d =
     (case dev_write h (baud_cmd speed) d of
        (r, d1) \<Rightarrow>
          if r \<noteq> 6 then (- ETIMEDOUT, d1)
          else
            (case read_hci_event HCI_MAX_EVENT_SIZE (stack_bytes h 260) d1 of
               (n, rsp, d2) \<Rightarrow> (if n < 0 then - ETIMEDOUT else 0, d2)))"

section \<open>Downloading\<close>

definition write_bdaddr_from_file :: "Host \<Rightarrow> u32 \<Rightarrow> Dev \<Rightarrow> Dev" where
  "write_bdaddr_from_file h rom d =
     (case h_file h (fw_path h rom ''ar3kbdaddr.pst'') of
        None \<Rightarrow> d
      | Some st \<Rightarrow>
          (case fgets 4095 st of
             None \<Rightarrow> d
           | Some (l, st') \<Rightarrow> snd (write_bdaddr h (overwrite (stack_chars h 4096) (l @ [NUL])) d)))"

text \<open>The label at the end of \<open>ath_ps_download\<close>.\<close>

definition download_complete :: "Host \<Rightarrow> int \<Rightarrow> u32 \<Rightarrow> ps_cfg_entry list \<Rightarrow> Dev \<Rightarrow> int \<times> ps_cfg_entry list \<times> Dev" where
  "download_complete h err rom tags d = (err, tags, if err = 0 then write_bdaddr_from_file h rom d else d)"

definition patch_and_settings ::
    "Host \<Rightarrow> u32 \<Rightarrow> u32 \<Rightarrow> u32 \<Rightarrow> int \<Rightarrow> ps_cfg_entry list \<Rightarrow> Dev \<Rightarrow> (int \<times> ps_cfg_entry list \<times> Dev) option" where
  "patch_and_settings h devtype rom build tag_count tags d =
     (case h_file h (get_patch_file_name h devtype rom build) of
        None \<Rightarrow>
          (case ps_config_download h tag_count tags d of
             None \<Rightarrow> None | Some (err, d1) \<Rightarrow> Some (download_complete h err rom tags d1))
      | Some stream \<Rightarrow>
          (case ps_patch_download h stream d of
             (count, d1) \<Rightarrow>
               if count < 0 then Some (download_complete h (- EILSEQ) rom tags d1)
               else
                 (case ps_config_download h tag_count tags d1 of
                    None \<Rightarrow> None | Some (err, d2) \<Rightarrow> Some (download_complete h err rom tags d2))))"

definition ath_ps_download :: "Host \<Rightarrow> ps_cfg_entry list \<Rightarrow> Dev \<Rightarrow> (int \<times> ps_cfg_entry list \<times> Dev) option" where
  "ath_ps_download h tags d =
     (case get_device_type h 0 d of
        (r1, devtype, d1) \<Rightarrow>
          if r1 < 0 then Some (download_complete h (- EILSEQ) 0 tags d1)
          else
            (case read_ath3k_version h (0, 0) d1 of
               (r2, (rom, build), d2) \<Rightarrow>
                 if r2 < 0 then Some (download_complete h (- EILSEQ) rom tags d2)
                 else
                   (case get_ath3k_crc h d2 of
                      (r3, d3) \<Rightarrow>
                        if r3 < 0 then Some (download_complete h 0 rom tags d3)
                        else
                          (case h_file h (get_ps_file_name h devtype rom) of
                             None \<Rightarrow>
                               Some (download_complete h (if rom = 0x1020201 then 0 else - EILSEQ) rom tags d3)
                           | Some stream \<Rightarrow>
                               (case ath_parse_ps (h_malloc h (d_log d3)) (stack_chars h 1001) tags stream of
                                  None \<Rightarrow> None
                                | Some (tag_count, tags') \<Rightarrow>
                                    if tag_count < 0
                                    then Some (download_complete h (- EILSEQ) rom tags' d3)
                                    else patch_and_settings h devtype rom build tag_count tags' d3)))))"

section \<open>Initialization\<close>

definition TIOCM_RTS :: int where "TIOCM_RTS = 4"

definition init_failed :: "Host \<Rightarrow> int \<Rightarrow> int \<Rightarrow> Dev \<Rightarrow> int \<times> Dev" where
  "init_failed h err init_speed d =
     (if err < 0 then (err, snd (set_speed h init_speed (snd (set_cntrlr_baud h init_speed d)))) else (err, d))"

text \<open>The address command and the reset that follow the download; the result is the value of err.\<close>

definition bdaddr_cmd :: "string \<Rightarrow> u8 list" where
  "bdaddr_cmd bdaddr = [0x01] @ hci_hdr HCI_VENDOR_CMD_OGF HCI_PS_CMD_OCF 10 @ [0x01, 0x01, 0x00, 0x06] @ str2ba bdaddr"

definition init_bdaddr :: "Host \<Rightarrow> string option \<Rightarrow> Dev \<Rightarrow> int \<times> Dev" where
  "init_bdaddr h bdaddr d =
     (case bdaddr of
        None \<Rightarrow> (0, d)
      | Some str \<Rightarrow>
          (case dev_write h (bdaddr_cmd str) d of
             (r, d1) \<Rightarrow>
               if r \<noteq> 14 then (- ETIMEDOUT, d1)
               else
                 (case read_hci_event HCI_MAX_EVENT_SIZE (stack_bytes h 260) d1 of
                    (n, rsp, d2) \<Rightarrow> (if n < 0 then - ETIMEDOUT else 0, d2))))"

definition init_reset :: "Host \<Rightarrow> int \<Rightarrow> Dev \<Rightarrow> int \<times> Dev" where
  "init_reset h speed d =
     (case dev_write h [0x01, 0x03, 0x0C, 0x00] d of
        (r, d1) \<Rightarrow>
          if r \<noteq> 4 then (- ETIMEDOUT, d1)
          else
            (case read_hci_event HCI_MAX_EVENT_SIZE (stack_bytes h 260) d1 of
               (n, rsp, d2) \<Rightarrow>
                 if n < 0 then (- ETIMEDOUT, d2) else set_cntrlr_baud h speed d2))"

definition ath3k_init ::
    "Host \<Rightarrow> int \<Rightarrow> int \<Rightarrow> string option \<Rightarrow> ps_cfg_entry list \<Rightarrow> Dev \<Rightarrow> (int \<times> ps_cfg_entry list \<times> Dev) option" where
  "ath3k_init h speed init_speed bdaddr tags d0 =
     (case h_modem h (d_log d0) of
        None \<Rightarrow> Some (- 1, tags, d0)
      | Some flags \<Rightarrow>
          (let op = Modem (flags OR TIOCM_RTS); d = log_op op d0 in
           if h_ioctl h (d_log d0) op < 0 then Some (- 1, tags, d)
           else
             (case set_cntrlr_baud h speed d of
                (e1, d1) \<Rightarrow>
                  if e1 < 0 then Some (e1, tags, d1)
                  else
                    (case set_speed h speed d1 of
                       (e2, d2) \<Rightarrow>
                         if e2 < 0 then Some (e2, tags, d2)
                         else
                           (case ath_ps_download h tags d2 of
                              None \<Rightarrow> None
                            | Some (r, tags', d3) \<Rightarrow>
                                (let (err, d6) =
                                   (if r < 0 then init_failed h (- ETIMEDOUT) init_speed d3
                                    else
                                      (case init_bdaddr h bdaddr d3 of
                                         (e4, d4) \<Rightarrow>
                                           if e4 < 0 then init_failed h e4 init_speed d4
                                           else
                                             (case init_reset h speed d4 of
                                                (e5, d5) \<Rightarrow> init_failed h e5 init_speed d5)))
                                 in Some (err, tags', d6)))))))"

section \<open>The serial port\<close>

definition FLOW_CTL :: int where "FLOW_CTL = 1"

text \<open>The result of \<open>ath3k_init\<close> is not used.\<close>

definition init_uart ::
    "Host \<Rightarrow> string \<Rightarrow> int \<Rightarrow> int \<Rightarrow> bool \<Rightarrow> string option \<Rightarrow> bool \<Rightarrow> u32 \<Rightarrow> ps_cfg_entry list \<Rightarrow> Dev \<Rightarrow>
     (int \<times> ps_cfg_entry list \<times> Dev) option" where
  "init_uart h dev init_speed speed flow bdaddr send_break flags tags d0 =
     (let fd = h_open h dev in
      if fd < 0 then Some (- 1, tags, d0)
      else
        (let d1 = log_op Flush d0 in
         if \<not> h_tio h (d_log d1) then Some (- 1, tags, d1)
         else
           (let d2 = log_op (Line flow) d1 in
            if h_ioctl h (d_log d1) (Line flow) < 0 then Some (- 1, tags, d2)
            else
              (case set_speed h init_speed d2 of
                 (e, d3) \<Rightarrow>
                   if e < 0 then Some (- 1, tags, d3)
                   else
                     (let d4 = log_op Flush d3; d5 = (if send_break then log_op Break d4 else d4) in
                      case ath3k_init h speed init_speed bdaddr tags d5 of
                        None \<Rightarrow> None
                      | Some (ignored, tags', d6) \<Rightarrow>
                          (case set_speed h speed (log_op Flush d6) of
                             (e2, d7) \<Rightarrow>
                               if e2 < 0 then Some (- 1, tags', d7)
                               else if flags = 0 then Some (fd, tags', d7)
                               else if h_ioctl h (d_log d7) (UartFlags flags) < 0
                                    then Some (- 1, tags', log_op (UartFlags flags) d7)
                                    else Some (fd, tags', log_op (UartFlags flags) d7)))))))"

definition hw_config :: "Host \<Rightarrow> string \<Rightarrow> ps_cfg_entry list \<Rightarrow> Dev \<Rightarrow> (int \<times> ps_cfg_entry list \<times> Dev) option" where
  "hw_config h port tags d = init_uart h port 115200 3000000 True None False 0 tags d"

section \<open>The raw HCI socket\<close>

definition EINTR :: int where "EINTR = 4"
definition EAGAIN :: int where "EAGAIN = 11"
definition EALREADY :: int where "EALREADY = 114"

text \<open>The k-th \<open>writev\<close> either succeeds or fails with an error number; interrupted ones are repeated.\<close>

partial_function (option) writev_loop :: "(nat \<Rightarrow> int option) \<Rightarrow> nat \<Rightarrow> int option" where
  "writev_loop w k =
     (case w k of
        None \<Rightarrow> Some 0
      | Some e \<Rightarrow> if e = EAGAIN \<or> e = EINTR then writev_loop w (Suc k) else Some (- 1))"

definition hci_packet :: "u16 \<Rightarrow> u16 \<Rightarrow> u8 \<Rightarrow> u8 list \<Rightarrow> u8 list" where
  "hci_packet ogf ocf plen param =
     0x01 # hci_hdr ogf ocf plen @ (if plen = 0 then [] else take (unat plen) param)"

definition hci_send_cmd :: "(nat \<Rightarrow> int option) \<Rightarrow> u16 \<Rightarrow> u16 \<Rightarrow> u8 \<Rightarrow> u8 list \<Rightarrow> (int \<times> u8 list) option" where
  "hci_send_cmd w ogf ocf plen param =
     map_option (\<lambda>r. (r, hci_packet ogf ocf plen param)) (writev_loop w 0)"

record Socket =
  sk_device :: int
  sk_socket :: int
  sk_bind :: int
  sk_up :: "int option"
  sk_writev :: "nat \<Rightarrow> int option"

text \<open>The socket is closed again when it cannot be bound; the list says which sockets are closed.\<close>

definition hci_open_dev :: "Socket \<Rightarrow> int \<times> int list" where
  "hci_open_dev k =
     (if sk_socket k < 0 then (sk_socket k, [])
      else if sk_bind k < 0 then (- 1, [sk_socket k]) else (sk_socket k, []))"

text \<open>The result, the packet sent if any, and the sockets closed; \<open>pm\<close> is the byte at the address
  that is passed, the low byte of an \<open>int\<close> on a little endian machine.\<close>

definition ath3k_post :: "Socket \<Rightarrow> int \<Rightarrow> (int \<times> u8 list list \<times> int list) option" where
  "ath3k_post k pm =
     (if sk_device k < 0 then Some (sk_device k, [], [])
      else
        (case hci_open_dev k of
           (dd, shut) \<Rightarrow>
             if dd < 0 then Some (dd, [], shut)
             else if sk_up k \<noteq> None \<and> sk_up k \<noteq> Some EALREADY then Some (- 1, [], [dd])
             else
               (case hci_send_cmd (sk_writev k) 0x3F 0x04 1 [word_of_int pm] of
                  None \<Rightarrow> None | Some (r, p) \<Rightarrow> Some (0, [p], [dd]))))"

section \<open>The end\<close>

datatype epilog_op = Xmit u16 "u8 list" | Dealloc | EpilogDone bool

definition HCI_RESET :: u16 where "HCI_RESET = 0x0C03"

definition hw_epilog_process :: "bool \<Rightarrow> bool \<Rightarrow> epilog_op list" where
  "hw_epilog_process has_cbacks has_buffer =
     (if has_cbacks \<and> has_buffer then [Xmit HCI_RESET [low_byte HCI_RESET, high_byte HCI_RESET, 0]]
      else if has_cbacks then [EpilogDone False] else [])"

definition hw_epilog_cback :: "bool \<Rightarrow> epilog_op list" where
  "hw_epilog_cback has_cbacks = (if has_cbacks then [Dealloc, EpilogDone True] else [])"

section \<open>The order of a download\<close>

definition reset_frame :: "Host \<Rightarrow> u8 list" where
  "reset_frame h = ps_header PS_RESET 6 0 @ [0, h_stack h 8, h_stack h 9, h_stack h 10, 0x00, 0x08]"

lemma upt_260: "[0..<260] = [0, 1, 2, 3, 4, 5, 6, 7, 8, 9, 10, 11, 12] @ [13..<260]"
  by (simp add: upt_rec [of _ 260])

lemma reset_command:
  "write_ps_cmd h PS_RESET 2048 tags d =
     (case send_frame h (reset_frame h) d of (r, d') \<Rightarrow> Some (if r < 0 then - EILSEQ else 0, d'))"
proof -
  let ?c = "(load_hci_ps_hdr PS_RESET 6 0 (stack_bytes h 260))
      [7 := 0, 11 := ucast (2048 AND 0xFF :: u32), 12 := ucast (drop_bit 8 (2048 :: u32) AND 0xFF)]"
  have l: "length ?c = 260" by (simp add: load_hci_ps_hdr_def hci_hdr_def Let_def)
  have s: "stack_bytes h 260 = map (h_stack h) [0, 1, 2, 3, 4, 5, 6, 7, 8, 9, 10, 11, 12] @ map (h_stack h) [13..<260]"
    unfolding stack_bytes_def upt_260 by simp
  have "take 13 ?c = reset_frame h"
    unfolding s by (simp add: load_hci_ps_hdr_def reset_frame_def ps_header_def hci_hdr_def put_at_def Let_def)
  then show ?thesis
    using write_cmd_take [of 13 ?c h d] l by (simp add: write_ps_cmd_def ps_ops HCI_MAX_CMD_SIZE_def Let_def)
qed

text \<open>The frames of the settings: the reset, then the entries.\<close>

definition config_frames :: "Host \<Rightarrow> ps_cfg_entry list \<Rightarrow> u8 list list" where
  "config_frames h es = reset_frame h # map entry_frame es"

lemma config_download_frames:
  assumes "list_all entry_sendable es" and "es \<noteq> []" and "length es < 2147483648"
  shows "ps_config_download h (int (length es)) (es @ others) d =
    (case send_all (send_frame h) (config_frames h es) d of (r, d') \<Rightarrow> Some (if r < 0 then - 1 else 0, d'))"
proof -
  have n: "unat (word_of_int (int (length es)) :: u32) = length es"
    using assms(3) by (simp add: unat_of_nat take_bit_nat_eq_self)
  have w: "write_ps_cmd h PS_WRITE (word_of_int (int (length es))) (es @ others) d1 =
      (case send_all (send_frame h) (map entry_frame es) d1 of (r, d') \<Rightarrow> Some (if r < 0 then - EILSEQ else 0, d'))" for d1
    using ps_write_all [of "stack_bytes h HCI_MAX_CMD_SIZE" es h d1] assms(1)
    unfolding write_ps_cmd_def n by (simp add: ps_ops HCI_MAX_CMD_SIZE_def Let_def)
  show ?thesis
    unfolding ps_config_download_def reset_command w config_frames_def
    using assms(2) by (simp add: EILSEQ_def split: prod.splits)
qed

lemma entry_value_sendable:
  "length (snd e) \<le> 253 \<Longrightarrow> entry_sendable (entry_value e)"
  by (simp add: entry_sendable_def entry_value_def unat_of_nat take_bit_nat_eq_self)

text \<open>C2: the whole download: when the controller answers the queries and reports no valid
  checksum, and the two files are there, the patch goes out first, then the command that enables it,
  the reset of the settings and the settings in the order of the file; the first refusal ends it
  with an error, and the device address is written from its file only when everything was
  accepted.\<close>

theorem firmware_download_order:
  assumes "get_device_type h 0 d = (r1, ty, d1)" and "0 \<le> r1"
    and "read_ath3k_version h (0, 0) d1 = (r2, (rom, build), d2)" and "0 \<le> r2"
    and "get_ath3k_crc h d2 = (r3, d3)" and "0 \<le> r3"
    and "h_file h (get_ps_file_name h ty rom) = Some (concat (map entry_text es))"
    and "h_file h (get_patch_file_name h ty rom build) = Some (patch_text w img)"
    and "es \<noteq> []" and "length es \<le> 49" and "list_all entry_fits es"
    and "list_all (\<lambda>e. length (snd e) \<le> 253) es"
    and "0 < w" and "w \<le> 200" and "length img < 16 ^ w" and "length img < 2147483648"
    and "heap_ok (h_malloc h (d_log d3))" and "length tags = 50"
  shows "case ath_ps_download h tags d of
      None \<Rightarrow> False
    | Some (err, tags', d') \<Rightarrow>
        (case send_all (send_frame h)
                (patch_frames 0 img @ [ps_frame ENABLE_PATCH 0 []] @ config_frames h (map entry_value es)) d3 of
           (r, d4) \<Rightarrow> tags' = map entry_value es @ drop (length es) tags \<and>
             (if r < 0 then err < 0 \<and> d' = d4 else err = 0 \<and> d' = write_bdaddr_from_file h rom d4))"
proof -
  let ?tags = "map entry_value es @ drop (length es) tags"
  let ?pf = "patch_frames 0 img @ [ps_frame ENABLE_PATCH 0 []]"
  have ps: "ath_parse_ps (h_malloc h (d_log d3)) (stack_chars h 1001) tags (concat (map entry_text es)) =
      Some (int (length es), ?tags)"
    using entries_parse [of "h_malloc h (d_log d3)" "ps_start (stack_chars h 1001) tags" es] assms
    by (simp add: ath_parse_ps_def ps_start_def between_entries_def LINE_SIZE_MAX_def put_at_def)
  have dl: "ath_ps_download h tags d = patch_and_settings h ty rom build (int (length es)) ?tags d3"
    using assms(2,4,6) by (simp add: ath_ps_download_def assms(1,3,5,7) ps)
  have pd: "ps_patch_download h (patch_text w img) d3 =
      (case send_all (send_frame h) ?pf d3 of
         (r, d') \<Rightarrow> (if r < 0 then - 1 else int ((length img + 243) div 244), d'))"
    using patch_download_whole [of w img h d3] assms by simp
  have "list_all entry_sendable (map entry_value es)"
    using assms(12) entry_value_sendable by (auto simp: list_all_iff)
  then have cf: "ps_config_download h (int (length es)) ?tags d4 =
      (case send_all (send_frame h) (config_frames h (map entry_value es)) d4 of
         (r, d') \<Rightarrow> Some (if r < 0 then - 1 else 0, d'))" for d4
    using config_download_frames [of "map entry_value es" h "drop (length es) tags" d4] assms(9,10) by simp
  obtain r d4 where s: "send_all (send_frame h) ?pf d3 = (r, d4)" by fastforce
  obtain q d5 where t: "send_all (send_frame h) (config_frames h (map entry_value es)) d4 = (q, d5)" by fastforce
  have all: "send_all (send_frame h) (?pf @ config_frames h (map entry_value es)) d3 =
      (if r < 0 then (- 1, d4) else (q, d5))"
    by (subst vendor.send_all_append) (simp add: s t)
  show ?thesis
    using all [unfolded append_assoc] send_all_sign [OF t]
    by (auto simp: dl patch_and_settings_def assms(8) pd s cf t download_complete_def EILSEQ_def)
qed

definition demo_files :: "string \<Rightarrow> string option" where
  "demo_files p =
     (if CHR ''R'' \<in> set p then Some (patch_text 4 [1, 2, 3])
      else if CHR ''S'' \<in> set p then Some (concat (map entry_text [(1, [0xAA, 0xBB])])) else None)"

text \<open>A line with the answers to the three queries, then one acknowledgement.\<close>

definition demo_line :: Dev where
  "demo_line =
     \<lparr>d_rx = [[0x04, 0x0E, 0x08, 0x01, 0x05, 0xFC, 0x00, 0x00, 0x00, 0x00, 0x00],
              [0x04, 0x0E, 0x0C, 0x01, 0x1E, 0xFC, 0x00, 0x00, 0x00, 0x00, 0x00, 0x00, 0x00, 0x00, 0x00],
              [0x04, 0x0E, 0x04, 0x01, 0x0B, 0xFC, 0x01], ps_ack], d_log = []\<rparr>"

lemma demo_type:
  "case get_device_type (demo_host demo_files) 0 demo_line of (r, ty, d) \<Rightarrow> r = 0 \<and> ty = 0"
  by code_simp

lemma demo_version:
  "case read_ath3k_version (demo_host demo_files) (0, 0) (snd (snd (get_device_type (demo_host demo_files) 0 demo_line))) of
     (r, v, d) \<Rightarrow> r = 0 \<and> v = (0, 0)"
  by code_simp

lemma demo_crc:
  "fst (get_ath3k_crc (demo_host demo_files) (snd (snd (read_ath3k_version (demo_host demo_files) (0, 0)
     (snd (snd (get_device_type (demo_host demo_files) 0 demo_line))))))) = 7"
  by code_simp

lemma demo_paths:
  "h_file (demo_host demo_files) (get_ps_file_name (demo_host demo_files) 0 0) =
     Some (concat (map entry_text [(1, [0xAA, 0xBB])]))"
  "h_file (demo_host demo_files) (get_patch_file_name (demo_host demo_files) 0 0 0) =
     Some (patch_text 4 [1, 2, 3])"
  by code_simp+

lemma demo_heap: "heap_ok (h_malloc (demo_host fs) l)"
  by (simp add: demo_host_def heap_ok_def list_all_iff)

theorem firmware_download_order_witness:
  "case ath_ps_download (demo_host demo_files) (replicate 50 no_tag) demo_line of
     None \<Rightarrow> False
   | Some (err, tags', d') \<Rightarrow> tags' = entry_value (1, [0xAA, 0xBB]) # replicate 49 no_tag"
proof -
  let ?h = "demo_host demo_files"
  obtain r1 ty d1 where 1: "get_device_type ?h 0 demo_line = (r1, ty, d1)" by (metis prod_cases3)
  obtain r2 rom build d2 where 2: "read_ath3k_version ?h (0, 0) d1 = (r2, (rom, build), d2)" by (metis prod.exhaust)
  obtain r3 d3 where 3: "get_ath3k_crc ?h d2 = (r3, d3)" by fastforce
  have v: "r1 = 0" "ty = 0" "r2 = 0" "rom = 0" "build = 0" "r3 = 7"
    using demo_type demo_version demo_crc 1 2 3 by simp_all
  have n: "length (replicate 50 no_tag) = 50" "length [1, 2, 3 :: u8] < 16 ^ 4" "length [1, 2, 3 :: u8] < 2147483648"
    "length [(1 :: nat, [0xAA, 0xBB :: u8])] \<le> 49" by simp_all
  have f: "list_all entry_fits [(1, [0xAA, 0xBB])]" "list_all (\<lambda>e. length (snd e) \<le> 253) [(1 :: nat, [0xAA, 0xBB :: u8])]"
    by (simp_all add: entry_fits_def)
  have "case ath_ps_download ?h (replicate 50 no_tag) demo_line of
      None \<Rightarrow> False
    | Some (err, tags', d') \<Rightarrow>
        (case send_all (send_frame ?h)
                (patch_frames 0 [1, 2, 3] @ [ps_frame ENABLE_PATCH 0 []] @ config_frames ?h (map entry_value [(1, [0xAA, 0xBB])])) d3 of
           (r, d4) \<Rightarrow> tags' = map entry_value [(1, [0xAA, 0xBB])] @ drop (length [(1 :: nat, [0xAA, 0xBB :: u8])]) (replicate 50 no_tag) \<and>
             (if r < 0 then err < 0 \<and> d' = d4 else err = 0 \<and> d' = write_bdaddr_from_file ?h rom d4))"
    by (rule firmware_download_order [OF 1 _ 2 _ 3 _ _ _ _ n(4) f _ _ n(2,3) demo_heap n(1)])
      (simp_all add: v demo_paths del: list.map concat.simps)
  then show ?thesis by (auto split: option.splits prod.splits)
qed

section \<open>When bringing up fails\<close>

lemma set_cntrlr_baud_log: "set_cntrlr_baud h s d = (r, d') \<Longrightarrow> d_log d' = d_log d @ [Wr (baud_cmd s)]"
  by (auto simp: set_cntrlr_baud_def dev_write_def dest: read_hci_event_log split: if_splits prod.splits)

lemma set_speed_log: "set_speed h s d = (r, d') \<Longrightarrow> d_log d' = d_log d @ [Speed (uart_speed s)]"
  by (auto simp: set_speed_def)

lemma init_failed_log:
  assumes "init_failed h err s d = (r, d')"
  shows "r = err" and "err < 0 \<Longrightarrow> d_log d' = d_log d @ [Wr (baud_cmd s), Speed (uart_speed s)]"
proof -
  obtain q d1 where q: "set_cntrlr_baud h s d = (q, d1)" by fastforce
  obtain t d2 where t: "set_speed h s d1 = (t, d2)" by fastforce
  show "r = err" using assms by (auto simp: init_failed_def split: if_splits)
  show "err < 0 \<Longrightarrow> d_log d' = d_log d @ [Wr (baud_cmd s), Speed (uart_speed s)]"
    using assms q t set_cntrlr_baud_log [OF q] set_speed_log [OF t] by (simp add: init_failed_def)
qed

text \<open>C39: once both sides run at the new speed, every failure, of the download, of the address, of
  the reset or of the last speed command, is answered the same way: the last two things done on the
  line are the command that puts the controller back to the first speed and the port's own change
  back to it, in this order.\<close>

theorem init_failure_restores_speed:
  fixes h :: Host and d :: Dev
  assumes "h_modem h (d_log d) = Some flags"
    and "0 \<le> h_ioctl h (d_log d) (Modem (flags OR TIOCM_RTS))"
    and "set_cntrlr_baud h speed (log_op (Modem (flags OR TIOCM_RTS)) d) = (e1, d1)" and "0 \<le> e1"
    and "0 \<le> fst (set_speed h speed d1)"
  shows "case ath3k_init h speed init_speed bdaddr tags d of
      None \<Rightarrow> ath_ps_download h tags (snd (set_speed h speed d1)) = None
    | Some (err, tags', d') \<Rightarrow>
        if err < 0
        then drop (length (d_log d') - 2) (d_log d') = [Wr (baud_cmd init_speed), Speed (uart_speed init_speed)]
        else drop (length (d_log d') - 1) (d_log d') = [Wr (baud_cmd speed)]"
proof -
  obtain e2 d2 where 2: "set_speed h speed d1 = (e2, d2)" "0 \<le> e2" using assms(5) by (cases "set_speed h speed d1") auto
  show ?thesis
  proof (cases "ath_ps_download h tags d2")
    case None
    then show ?thesis using assms 2 by (simp add: ath3k_init_def Let_def)
  next
    case (Some x)
    obtain r tags' d3 where x: "x = (r, tags', d3)" by (metis prod_cases3)
    obtain e4 d4 where 4: "init_bdaddr h bdaddr d3 = (e4, d4)" by fastforce
    obtain e5 d5 where 5: "init_reset h speed d4 = (e5, d5)" by fastforce
    have ok: "0 \<le> e5 \<Longrightarrow> drop (length (d_log d5) - 1) (d_log d5) = [Wr (baud_cmd speed)]"
      using 5 set_cntrlr_baud_log [of h speed]
      by (auto simp: init_reset_def ETIMEDOUT_def split: if_splits prod.splits)
    define err where "err = (if r < 0 then - ETIMEDOUT else if e4 < 0 then e4 else e5)"
    define dd where "dd = (if r < 0 then d3 else if e4 < 0 then d4 else d5)"
    obtain q d6 where q: "init_failed h err init_speed dd = (q, d6)" by fastforce
    have res: "ath3k_init h speed init_speed bdaddr tags d = Some (q, tags', d6)"
      using assms(1-4) 2 Some x 4 5 q
      by (auto simp: ath3k_init_def Let_def err_def dd_def split: if_splits)
    show ?thesis
    proof (cases "err < 0")
      case True
      then show ?thesis using res init_failed_log [OF q] by simp
    next
      case False
      then have "q = err" "d6 = d5" "0 \<le> e5"
        using q by (auto simp: init_failed_def err_def dd_def ETIMEDOUT_def split: if_splits)
      then show ?thesis using res ok False by simp
    qed
  qed
qed

definition silent_host :: Host where
  "silent_host = (demo_host (\<lambda>p. None))\<lparr>h_write := \<lambda>l bs. if length l = 1 then int (length bs) else - 1\<rparr>"

definition one_answer :: Dev where
  "one_answer = \<lparr>d_rx = [[0x04, 0x0E, 0x00]], d_log = []\<rparr>"

theorem init_failure_restores_speed_witness:
  "case ath3k_init silent_host 3000000 115200 None [] one_answer of
     None \<Rightarrow> False
   | Some (err, tags, d) \<Rightarrow> err = - ETIMEDOUT \<and> drop (length (d_log d) - 2) (d_log d) = [Wr (baud_cmd 115200), Speed 115200]"
proof -
  let ?d = "log_op (Modem TIOCM_RTS) one_answer"
  have e: "fst (set_cntrlr_baud silent_host 3000000 ?d) = 0" by code_simp
  obtain e1 d1 where 1: "set_cntrlr_baud silent_host 3000000 ?d = (e1, d1)" by fastforce
  have v: "case ath3k_init silent_host 3000000 115200 None [] one_answer of
      None \<Rightarrow> False | Some (err, tags, d) \<Rightarrow> err = - ETIMEDOUT" by code_simp
  have m: "h_modem silent_host (d_log one_answer) = Some 0"
    "0 \<le> h_ioctl silent_host (d_log one_answer) (Modem (0 OR TIOCM_RTS))"
    "0 \<le> fst (set_speed silent_host 3000000 d1)"
    by (simp_all add: silent_host_def demo_host_def set_speed_def)
  have c: "set_cntrlr_baud silent_host 3000000 (log_op (Modem (0 OR TIOCM_RTS)) one_answer) = (e1, d1)" "0 \<le> e1"
    using 1 e by simp_all
  show ?thesis
    using init_failure_restores_speed [OF m(1,2) c m(3), where init_speed = 115200 and bdaddr = None and tags = "[]"] v
    by (auto simp: uart_speed_def ETIMEDOUT_def split: option.splits prod.splits)
qed

text \<open>The caller never learns that bringing up failed: when the port can be opened and set, the
  result of \<open>hw_config\<close> is the descriptor, and the last thing it does is to set the port to 3000000,
  whatever \<open>ath3k_init\<close> returned, also after it put the controller back to 115200.\<close>

lemma hw_config_hides_failure:
  assumes "0 \<le> h_open h port" and "\<And>l. h_tio h l" and "\<And>l x. 0 \<le> h_ioctl h l x" and "\<And>l s. h_speed h l s = 0"
    and "ath3k_init h 3000000 115200 None tags
      (d\<lparr>d_log := d_log d @ [Flush, Line True, Speed 115200, Flush]\<rparr>) = Some (err, tags', d')"
  shows "hw_config h port tags d = Some (h_open h port, tags', d'\<lparr>d_log := d_log d' @ [Flush, Speed 3000000]\<rparr>)"
proof -
  have s: "set_speed h s x = (0, x\<lparr>d_log := d_log x @ [Speed (uart_speed s)]\<rparr>)" for s x
    using assms(4) by (simp add: set_speed_def log_op_def)
  have a: "\<not> h_open h port < 0" "\<not> h_ioctl h l x < 0" for l x
    using assms(1) assms(3) [of l x] by simp_all
  show ?thesis
    using assms(2,5) by (simp add: hw_config_def init_uart_def s a log_op_def uart_speed_def Let_def)
qed

text \<open>The descriptor is the one of the port, or there is none.\<close>

lemma hw_config_fd:
  assumes "hw_config h port tags d = Some (fd, tags', d')"
  shows "fd = - 1 \<or> fd = h_open h port \<and> 0 \<le> fd"
  using assms
  by (auto simp: hw_config_def init_uart_def Let_def split: if_splits option.splits prod.splits)

text \<open>A controller that does not answer the checksum query at all counts as one with valid
  firmware: a query that cannot be sent makes the download stop with success, and neither the
  settings nor the patch are loaded.\<close>

theorem crc_failure_counts_as_success:
  assumes "get_device_type h 0 d = (r1, ty, d1)" and "0 \<le> r1"
    and "read_ath3k_version h (0, 0) d1 = (r2, (rom, build), d2)" and "0 \<le> r2"
    and "h_write h (d_log d2) [0x01] \<noteq> 1"
    and "h_file h (fw_path h rom ''ar3kbdaddr.pst'') = None"
  shows "ath_ps_download h tags d = Some (0, tags, log_op (Wr [0x01]) d2)"
proof -
  have "get_ath3k_crc h d2 = (- EILSEQ, log_op (Wr [0x01]) d2)"
    using assms(5) by (simp add: get_ath3k_crc_def send_hci_cmd_sync_def dev_write_def EILSEQ_def)
  then show ?thesis
    using assms by (simp add: ath_ps_download_def download_complete_def write_bdaddr_from_file_def EILSEQ_def)
qed

text \<open>A line on which the third command cannot be written.\<close>

definition cut_host :: Host where
  "cut_host = (demo_host (\<lambda>p. None))\<lparr>h_write := \<lambda>l bs. if length l < 4 then int (length bs) else - 1\<rparr>"

theorem crc_failure_counts_as_success_witness:
  "case ath_ps_download cut_host [] demo_line of None \<Rightarrow> False | Some (err, tags, d) \<Rightarrow> err = 0"
proof -
  obtain r1 ty d1 where 1: "get_device_type cut_host 0 demo_line = (r1, ty, d1)" by (metis prod_cases3)
  obtain r2 rom build d2 where 2: "read_ath3k_version cut_host (0, 0) d1 = (r2, (rom, build), d2)" by (metis prod.exhaust)
  have "fst (get_device_type cut_host 0 demo_line) = 0" by code_simp
  moreover have "case read_ath3k_version cut_host (0, 0) (snd (snd (get_device_type cut_host 0 demo_line))) of
      (r, v, d) \<Rightarrow> r = 0 \<and> length (d_log d) = 4" by code_simp
  ultimately have v: "r1 = 0" "r2 = 0" "length (d_log d2) = 4" using 1 2 by simp_all
  have f: "h_write cut_host (d_log d2) [0x01] \<noteq> 1" "h_file cut_host p = None" for p
    using v(3) by (simp_all add: cut_host_def demo_host_def)
  show ?thesis using crc_failure_counts_as_success [OF 1 _ 2 _ f, of "[]"] v by simp
qed

section \<open>The raw socket\<close>

lemma writev_final:
  "w k = None \<or> (\<exists>e. w k = Some e \<and> e \<noteq> EAGAIN \<and> e \<noteq> EINTR) \<Longrightarrow> writev_loop w k \<noteq> None"
  by (subst writev_loop.simps) auto

lemma writev_back: "writev_loop w (Suc k) \<noteq> None \<Longrightarrow> writev_loop w k \<noteq> None"
  by (subst writev_loop.simps) (auto split: option.splits)

lemma writev_none:
  assumes "writev_loop w k = Some r"
  shows "\<exists>j. w j \<noteq> Some EAGAIN \<and> w j \<noteq> Some EINTR"
proof (rule writev_loop.raw_induct [OF _ assms, where P = "\<lambda>w k r. \<exists>j. w j \<noteq> Some EAGAIN \<and> w j \<noteq> Some EINTR"])
  fix loop :: "(nat \<Rightarrow> int option) \<Rightarrow> nat \<Rightarrow> int option" and w k r
  assume "\<And>w k r. loop w k = Some r \<Longrightarrow> \<exists>j. w j \<noteq> Some EAGAIN \<and> w j \<noteq> Some EINTR"
    and "(case w k of None \<Rightarrow> Some 0 | Some e \<Rightarrow> if e = EAGAIN \<or> e = EINTR then loop w (Suc k) else Some (- 1)) = Some r"
  then show "\<exists>j. w j \<noteq> Some EAGAIN \<and> w j \<noteq> Some EINTR"
    by (cases "w k") (auto split: if_splits intro: exI [of _ k])
qed

text \<open>C40: sending a raw command comes back exactly when some attempt is not interrupted; a socket
  that is interrupted forever keeps it in its loop.\<close>

theorem hci_send_returns:
  "(hci_send_cmd w ogf ocf plen param = None) = (\<forall>k. w k \<in> {Some EAGAIN, Some EINTR})"
proof
  assume "hci_send_cmd w ogf ocf plen param = None"
  then have n: "writev_loop w 0 = None" by (simp add: hci_send_cmd_def)
  have "writev_loop w k = None" for k
  proof (induction k)
    case (Suc k)
    then show ?case using writev_back [of w k] by blast
  qed (rule n)
  then show "\<forall>k. w k \<in> {Some EAGAIN, Some EINTR}"
    using writev_final [of w] by (metis insert_iff option.exhaust)
next
  assume a: "\<forall>k. w k \<in> {Some EAGAIN, Some EINTR}"
  then show "hci_send_cmd w ogf ocf plen param = None"
    using writev_none [of w 0] by (cases "writev_loop w 0") (auto simp: hci_send_cmd_def)
qed

end
