(* ===== verification/Bt_Vendor.thy ===== *)
theory Bt_Vendor
  imports Bt_Upio Ath3k_Init
begin

text \<open>
  The vendor library as the Bluetooth stack sees it (src/libbt-ath3k/src/bt_vendor_QCA3002.c and
  userial_vendor_QCA3002.c): \<open>init\<close>, the requests of \<open>op\<close> and \<open>cleanup\<close>. It puts together the power
  switch of \<open>Bt_Upio\<close> and the bringing up of \<open>Ath3k_Init\<close>. The stack's callbacks are a list of what
  was called; a call through the NULL pointer of an unregistered callback table, a write past an
  array and a search that never ends have the result \<open>None\<close>. The header of the stack that numbers the
  requests and the channels is not in the sources: requests are named, the number of channels is a
  parameter.
\<close>

section \<open>State\<close>

datatype vnd_call = FwCfg bool | ScoCfg bool | LpmCall bool | Epilogue epilog_op

record Vendor = Upio +
  us_fd :: int
  port_name :: string
  us_shut :: "int list"
  bt_vendor_cbacks :: bool
  vnd_local_bd_addr :: "u8 list"
  vnd_tags :: "ps_cfg_entry list"
  vnd_dev :: Dev
  vnd_calls :: "vnd_call list"

text \<open>The parameter: the two worlds below, the port of the build configuration, the number of
  channels, and whether the stack has a buffer for the last command.\<close>

record Board =
  bd_os :: Bt_Os
  bd_host :: Host
  bd_port :: string
  ch_max :: nat
  bd_alloc :: bool

section \<open>The serial port\<close>

definition VND_PORT_NAME_MAXLEN :: nat where "VND_PORT_NAME_MAXLEN = 256"

definition baud_table :: "(u8 \<times> int) list" where
  "baud_table =
     [(7, 115200), (15, 4000000), (14, 3000000), (13, 2000000), (11, 1000000), (10, 921600), (9, 460800),
      (8, 230400), (6, 57600), (5, 19200), (4, 9600), (2, 1200), (1, 600)]"

definition userial_to_tcio_baud :: "u8 \<Rightarrow> bool \<times> int" where
  "userial_to_tcio_baud b = (case map_of baud_table b of None \<Rightarrow> (False, 115200) | Some s \<Rightarrow> (True, s))"

definition userial_vendor_init :: "Board \<Rightarrow> Vendor \<Rightarrow> Vendor" where
  "userial_vendor_init b v = v\<lparr>us_fd := - 1, port_name := take (VND_PORT_NAME_MAXLEN - 1) (bd_port b)\<rparr>"

definition userial_set_port :: "string \<Rightarrow> Vendor \<Rightarrow> (int \<times> Vendor) option" where
  "userial_set_port p v =
     (if length (cstr p) < VND_PORT_NAME_MAXLEN then Some (0, v\<lparr>port_name := cstr p\<rparr>) else None)"

definition userial_vendor_open :: "Board \<Rightarrow> Vendor \<Rightarrow> (int \<times> Vendor) option" where
  "userial_vendor_open b v =
     (let v1 = v\<lparr>us_fd := - 1\<rparr> in
      case hw_config (bd_host b) (port_name v1) (vnd_tags v1) (vnd_dev v1) of
        None \<Rightarrow> None
      | Some (fd, tags, d) \<Rightarrow>
          (let v2 = v1\<lparr>us_fd := fd, vnd_tags := tags, vnd_dev := d\<rparr> in
           if fd < - 1 then Some (- 1, v2) else Some (fd, v2)))"

definition userial_vendor_close :: "Vendor \<Rightarrow> Vendor" where
  "userial_vendor_close v =
     (if us_fd v = - 1 then v else v\<lparr>us_shut := us_shut v @ [us_fd v], us_fd := - 1\<rparr>)"

text \<open>The result of the lookup is not used: an unknown rate sets 115200.\<close>

definition userial_vendor_set_baud :: "u8 \<Rightarrow> Vendor \<Rightarrow> Vendor" where
  "userial_vendor_set_baud c v = v\<lparr>vnd_dev := log_op (Speed (snd (userial_to_tcio_baud c))) (vnd_dev v)\<rparr>"

section \<open>Requests\<close>

datatype vnd_power = PWR_OFF | PWR_ON | PWR_OTHER

datatype vnd_op =
    POWER_CTRL vnd_power
  | FW_CFG
  | SCO_CFG
  | USERIAL_OPEN "int list"
  | USERIAL_CLOSE
  | GET_LPM_IDLE_TIMEOUT
  | LPM_SET_MODE
  | LPM_WAKE_SET_STATE
  | EPILOG
  | OTHER_OP

text \<open>What a request writes through its parameter.\<close>

datatype vnd_out = NoOut | OutFds "int list" | OutTimeout u32

definition call_back :: "vnd_call \<Rightarrow> Vendor \<Rightarrow> Vendor option" where
  "call_back c v = (if bt_vendor_cbacks v then Some (v\<lparr>vnd_calls := vnd_calls v @ [c]\<rparr>) else None)"

definition vnd_init :: "Board \<Rightarrow> bool \<Rightarrow> u8 list \<Rightarrow> Vendor \<Rightarrow> int \<times> Vendor" where
  "vnd_init b has_cb bdaddr v =
     (if \<not> has_cb then (- 1, v)
      else (0, (userial_vendor_init b v)\<lparr>bt_vendor_cbacks := True, vnd_local_bd_addr := take 6 bdaddr\<rparr>))"

definition power_ctrl :: "Board \<Rightarrow> vnd_power \<Rightarrow> Vendor \<Rightarrow> Vendor option" where
  "power_ctrl b p v =
     (case p of
        PWR_OFF \<Rightarrow> map_option snd (upio_set_bluetooth_power (bd_os b) 0 v)
      | PWR_ON \<Rightarrow> map_option snd (upio_set_bluetooth_power (bd_os b) 1 v)
      | PWR_OTHER \<Rightarrow> Some v)"

definition open_channels :: "Board \<Rightarrow> int list \<Rightarrow> Vendor \<Rightarrow> (int \<times> vnd_out \<times> Vendor) option" where
  "open_channels b fds v =
     (case userial_vendor_open b v of
        None \<Rightarrow> None
      | Some (fd, v1) \<Rightarrow>
          if fd = - 1 then Some (0, OutFds fds, v1)
          else if length fds < ch_max b then None
          else Some (1, OutFds (put_at 0 (replicate (ch_max b) fd) fds), v1))"

fun vnd_request :: "Board \<Rightarrow> vnd_op \<Rightarrow> Vendor \<Rightarrow> (int \<times> vnd_out \<times> Vendor) option" where
  "vnd_request b (POWER_CTRL p) v = map_option (\<lambda>v1. (0, NoOut, v1)) (power_ctrl b p v)"
| "vnd_request b FW_CFG v = map_option (\<lambda>v1. (0, NoOut, v1)) (call_back (FwCfg (bt_vendor_cbacks v)) v)"
| "vnd_request b SCO_CFG v = map_option (\<lambda>v1. (0, NoOut, v1)) (call_back (ScoCfg True) v)"
| "vnd_request b (USERIAL_OPEN fds) v = open_channels b fds v"
| "vnd_request b USERIAL_CLOSE v = Some (0, NoOut, userial_vendor_close v)"
| "vnd_request b GET_LPM_IDLE_TIMEOUT v = Some (0, OutTimeout 3000, v)"
| "vnd_request b LPM_SET_MODE v = map_option (\<lambda>v1. (0, NoOut, v1)) (call_back (LpmCall True) v)"
| "vnd_request b LPM_WAKE_SET_STATE v = map_option (\<lambda>v1. (0, NoOut, v1)) (call_back (LpmCall True) v)"
| "vnd_request b EPILOG v =
     Some (0, NoOut, v\<lparr>vnd_calls := vnd_calls v @ map Epilogue (hw_epilog_process (bt_vendor_cbacks v) (bd_alloc b))\<rparr>)"
| "vnd_request b OTHER_OP v = Some (0, NoOut, v)"

definition vnd_cleanup :: "Vendor \<Rightarrow> Vendor" where
  "vnd_cleanup v = v\<lparr>bt_vendor_cbacks := False\<rparr>"

section \<open>Opening and closing\<close>

lemma open_channels_eq:
  assumes "hw_config (bd_host b) (port_name v) (vnd_tags v) (vnd_dev v) = Some (fd, tags, d)"
  shows "open_channels b fds v =
    (let v1 = v\<lparr>us_fd := fd, vnd_tags := tags, vnd_dev := d\<rparr>
     in if fd = - 1 then Some (0, OutFds fds, v1)
        else if length fds < ch_max b then None
        else Some (1, OutFds (put_at 0 (replicate (ch_max b) fd) fds), v1))"
  using assms hw_config_fd [OF assms] by (auto simp: open_channels_def userial_vendor_open_def Let_def)

text \<open>The stack is told that the serial port is ready whether or not the controller could be brought
  up: when the port can be opened and set, the request to open it returns 1 with the descriptor in
  every channel, whatever \<open>ath3k_init\<close> returned, and leaves the port at 3000000, also after a failure
  has put the controller back to 115200.\<close>

theorem open_hides_failure:
  assumes "0 \<le> h_open (bd_host b) (port_name v)" and "\<And>l. h_tio (bd_host b) l"
    and "\<And>l x. 0 \<le> h_ioctl (bd_host b) l x" and "\<And>l s. h_speed (bd_host b) l s = 0"
    and "ath3k_init (bd_host b) 3000000 115200 None (vnd_tags v)
      ((vnd_dev v)\<lparr>d_log := d_log (vnd_dev v) @ [Flush, Line True, Speed 115200, Flush]\<rparr>) = Some (err, tags, d)"
    and "ch_max b \<le> length fds"
  shows "let fd = h_open (bd_host b) (port_name v)
    in vnd_request b (USERIAL_OPEN fds) v =
      Some (1, OutFds (replicate (ch_max b) fd @ drop (ch_max b) fds),
        v\<lparr>us_fd := fd, vnd_tags := tags, vnd_dev := d\<lparr>d_log := d_log d @ [Flush, Speed 3000000]\<rparr>\<rparr>)"
proof -
  note hw = hw_config_hides_failure [OF assms(1-5)]
  show ?thesis using assms(1,6) by (simp add: open_channels_eq [OF hw] put_at_def Let_def)
qed

definition demo_board :: Board where
  "demo_board =
     \<lparr>bd_os = demo_bt, bd_host = silent_host, bd_port = ''/dev/ttymxc4'', ch_max = 4, bd_alloc = True\<rparr>"

definition vendor_boot :: Vendor where
  "vendor_boot = Upio.extend upio_boot
     \<lparr>us_fd = 0, port_name = [], us_shut = [], bt_vendor_cbacks = False, vnd_local_bd_addr = replicate 6 0,
      vnd_tags = [], vnd_dev = one_answer, vnd_calls = []\<rparr>"

lemma silent_host_init:
  obtains tags d where "ath3k_init silent_host 3000000 115200 None []
    (one_answer\<lparr>d_log := d_log one_answer @ [Flush, Line True, Speed 115200, Flush]\<rparr>) = Some (- 110, tags, d)"
proof -
  have "case ath3k_init silent_host 3000000 115200 None []
      (one_answer\<lparr>d_log := d_log one_answer @ [Flush, Line True, Speed 115200, Flush]\<rparr>) of
      None \<Rightarrow> False | Some (err, tags, d) \<Rightarrow> err = - 110" by code_simp
  then show thesis by (auto split: option.splits prod.splits intro: that)
qed

lemma silent_host_answers:
  "h_open silent_host p = 3" "h_tio silent_host l" "0 \<le> h_ioctl silent_host l x" "h_speed silent_host l s = 0"
  by (simp_all add: silent_host_def demo_host_def)

theorem open_hides_failure_witness:
  "case vnd_request demo_board (USERIAL_OPEN [0, 0, 0, 0]) vendor_boot of
     None \<Rightarrow> False
   | Some (r, out, v) \<Rightarrow> r = 1 \<and> out = OutFds [3, 3, 3, 3] \<and> us_fd v = 3"
proof -
  obtain tags d where i: "ath3k_init silent_host 3000000 115200 None []
    (one_answer\<lparr>d_log := d_log one_answer @ [Flush, Line True, Speed 115200, Flush]\<rparr>) = Some (- 110, tags, d)"
    by (rule silent_host_init)
  show ?thesis
    using open_hides_failure [of demo_board vendor_boot "- 110" tags d "[0, 0, 0, 0]"] i silent_host_answers
    by (simp add: demo_board_def vendor_boot_def Upio.defs upio_boot_def numeral_eq_Suc Let_def)
qed

text \<open>What is opened is closed once: after the port was opened, closing it closes exactly the
  descriptor that the channels were given, nothing when opening failed, and closing again does
  nothing.\<close>

theorem open_close_once:
  assumes "vnd_request b (USERIAL_OPEN fds) v = Some (r, out, v1)"
  shows "let v2 = userial_vendor_close v1
    in (r = 1) = (us_fd v1 \<noteq> - 1) \<and> (r = 0) = (us_fd v1 = - 1) \<and>
       us_shut v2 = us_shut v @ (if r = 1 then [us_fd v1] else []) \<and>
       out = OutFds (if r = 1 then replicate (ch_max b) (us_fd v1) @ drop (ch_max b) fds else fds) \<and>
       vnd_request b USERIAL_CLOSE v2 = Some (0, NoOut, v2)"
proof -
  obtain fd tags d where hw: "hw_config (bd_host b) (port_name v) (vnd_tags v) (vnd_dev v) = Some (fd, tags, d)"
    using assms by (auto simp: open_channels_def userial_vendor_open_def Let_def split: option.splits)
  show ?thesis
    using assms by (auto simp: open_channels_eq [OF hw] userial_vendor_close_def put_at_def Let_def split: if_splits)
qed

theorem open_close_once_witness:
  "case vnd_request demo_board (USERIAL_OPEN [0, 0, 0, 0]) vendor_boot of
     None \<Rightarrow> False
   | Some (r, out, v1) \<Rightarrow> us_shut (userial_vendor_close v1) = (if r = 1 then [us_fd v1] else [])"
proof -
  obtain tags d where i: "ath3k_init silent_host 3000000 115200 None []
    (one_answer\<lparr>d_log := d_log one_answer @ [Flush, Line True, Speed 115200, Flush]\<rparr>) = Some (- 110, tags, d)"
    by (rule silent_host_init)
  have b: "bd_host demo_board = silent_host" "port_name vendor_boot = []" "vnd_tags vendor_boot = []"
    "vnd_dev vendor_boot = one_answer" "us_shut vendor_boot = []" "ch_max demo_board = 4"
    by (simp_all add: demo_board_def vendor_boot_def Upio.defs upio_boot_def)
  note hw = hw_config_hides_failure [of silent_host "[]", OF _ silent_host_answers(2,3,4) i]
  have "\<exists>v1. vnd_request demo_board (USERIAL_OPEN [0, 0, 0, 0]) vendor_boot = Some (1, OutFds [3, 3, 3, 3], v1)"
    using hw silent_host_answers(1)
    by (simp add: open_channels_eq b put_at_def Let_def numeral_eq_Suc)
  then obtain v1 where v1: "vnd_request demo_board (USERIAL_OPEN [0, 0, 0, 0]) vendor_boot = Some (1, OutFds [3, 3, 3, 3], v1)" ..
  show ?thesis using open_close_once [OF v1] unfolding v1 by (simp add: b Let_def)
qed

section \<open>Callbacks\<close>

definition vnd_run :: "Board \<Rightarrow> vnd_op list \<Rightarrow> Vendor \<Rightarrow> Vendor option" where
  "vnd_run b ops v = foldM (\<lambda>x v. map_option (\<lambda>(r, out, v1). v1) (vnd_request b x v)) ops v"

text \<open>The specification: what the stack hears for each request.\<close>

fun answer :: "Board \<Rightarrow> vnd_op \<Rightarrow> vnd_call list" where
  "answer b FW_CFG = [FwCfg True]"
| "answer b SCO_CFG = [ScoCfg True]"
| "answer b LPM_SET_MODE = [LpmCall True]"
| "answer b LPM_WAKE_SET_STATE = [LpmCall True]"
| "answer b EPILOG = [Epilogue (if bd_alloc b then Xmit HCI_RESET [0x03, 0x0C, 0] else EpilogDone False)]"
| "answer b x = []"

lemma power_frame:
  "upio_set_bluetooth_power w on (v :: Vendor) = Some (r, v') \<Longrightarrow>
   bt_vendor_cbacks v' = bt_vendor_cbacks v \<and> vnd_calls v' = vnd_calls v"
  by (auto simp: upio_set_bluetooth_power_def init_rfkill_def write_power_def did_def Let_def
      split: if_splits option.splits prod.splits)

lemma open_frame:
  "open_channels b fds v = Some (r, out, v') \<Longrightarrow>
   bt_vendor_cbacks v' = bt_vendor_cbacks v \<and> vnd_calls v' = vnd_calls v"
  by (auto simp: open_channels_def userial_vendor_open_def Let_def split: if_splits option.splits prod.splits)

lemma request_answer:
  assumes "bt_vendor_cbacks v" and "vnd_request b x v = Some (r, out, v')"
  shows "bt_vendor_cbacks v'" and "vnd_calls v' = vnd_calls v @ answer b x"
  using assms
  by (cases x; auto simp: call_back_def power_ctrl_def userial_vendor_close_def hw_epilog_process_def
      low_byte_def high_byte_def HCI_RESET_def
      dest: power_frame open_frame split: if_splits vnd_power.splits)+

text \<open>C32: every request is answered once and in order: as long as the stack's callbacks are registered,
  a sequence of requests calls back exactly what its requests call for, one after the other.\<close>

theorem requests_answered:
  assumes "bt_vendor_cbacks v" and "vnd_run b ops v = Some v'"
  shows "vnd_calls v' = vnd_calls v @ concat (map (answer b) ops)"
  using assms unfolding vnd_run_def
proof (induction ops arbitrary: v)
  case (Cons x ops)
  obtain r out v1 where v1: "vnd_request b x v = Some (r, out, v1)"
    using Cons.prems(2) by (auto split: option.splits)
  show ?case using Cons.IH [of v1] Cons.prems(2) request_answer [OF Cons.prems(1) v1] v1 by simp
qed simp

theorem requests_answered_witness:
  "case vnd_run demo_board [FW_CFG, POWER_CTRL PWR_OTHER, LPM_SET_MODE, EPILOG] (vendor_boot\<lparr>bt_vendor_cbacks := True\<rparr>) of
     None \<Rightarrow> False
   | Some v \<Rightarrow> vnd_calls v = [FwCfg True, LpmCall True, Epilogue (Xmit HCI_RESET [0x03, 0x0C, 0])]"
proof -
  let ?v = "vendor_boot\<lparr>bt_vendor_cbacks := True\<rparr>"
  obtain v' where v': "vnd_run demo_board [FW_CFG, POWER_CTRL PWR_OTHER, LPM_SET_MODE, EPILOG] ?v = Some v'"
    by (simp add: vnd_run_def call_back_def power_ctrl_def)
  show ?thesis
    using requests_answered [OF _ v'] v' by (simp add: vendor_boot_def Upio.defs upio_boot_def demo_board_def)
qed

text \<open>Without callbacks the requests that answer call through NULL, also the one that tests the
  pointer first.\<close>

lemma unregistered_crash:
  "\<not> bt_vendor_cbacks v \<Longrightarrow> x \<in> {FW_CFG, SCO_CFG, LPM_SET_MODE, LPM_WAKE_SET_STATE} \<Longrightarrow> vnd_request b x v = None"
  by (auto simp: call_back_def)

end
