(* ===== verification/Audio_Route.thy ===== *)
theory Audio_Route
  imports C_Prelude
begin

text \<open>
  The audio routes of the mx5x audio HAL (src/mx5x/audio/audio_route.c): named paths of mixer
  settings read from an XML file, and the two-phase change of the mixer (\<open>audio_route_apply_path\<close>
  or \<open>reset_mixer_state\<close> choose the new values, \<open>update_mixer_state\<close> writes what changed). tinyalsa
  and expat are not part of the sources: the mixer's answers are a parameter, and a parsed file is
  the sequence of its start and end tags. A control is its number in the mixer, \<open>None\<close> is the NULL
  of an unknown name. A function that dereferences NULL or writes past an array returns \<open>None\<close>.
  The locale \<open>keyed_array\<close> is the contract both arrays share: keys stay distinct.
\<close>

section \<open>Arrays that grow\<close>

text \<open>
  An array with the number of its elements, the size the code believes it has and the size that
  the last successful \<open>realloc\<close> gave it. The argument \<open>ok\<close> is whether \<open>realloc\<close> succeeds now.
\<close>

record 'a arr =
  items :: "'a list"
  arr_size :: nat
  arr_alloc :: nat

datatype 'a push = Pushed "'a arr" | NoMemory "'a arr" | Overrun

definition INITIAL_MIXER_PATH_SIZE :: nat where "INITIAL_MIXER_PATH_SIZE = 8"

definition empty_arr :: "'a arr" where
  "empty_arr = \<lparr>items = [], arr_size = 0, arr_alloc = 0\<rparr>"

definition arr_push :: "bool \<Rightarrow> 'a \<Rightarrow> 'a arr \<Rightarrow> 'a push" where
  "arr_push ok x a =
     (let n = length (items a);
          full = arr_size a \<le> n;
          sz = (if \<not> full then arr_size a else if arr_size a = 0 then INITIAL_MIXER_PATH_SIZE else 2 * arr_size a);
          a1 = a\<lparr>arr_size := sz\<rparr>
      in if full \<and> \<not> ok then NoMemory a1
         else
           (let a2 = (if full then a1\<lparr>arr_alloc := sz\<rparr> else a1) in
            if n < arr_alloc a2 then Pushed (a2\<lparr>items := items a @ [x]\<rparr>) else Overrun))"

section \<open>Data\<close>

type_synonym ctl = "nat option"

datatype ctl_type = CTL_BOOL | CTL_INT | CTL_ENUM | CTL_OTHER

record mixer_state =
  ms_ctl :: ctl
  old_value :: int
  new_value :: int
  reset_value :: int

record mixer_setting =
  st_ctl :: ctl
  st_value :: int

record mixer_path =
  mp_name :: string
  mp_setting :: "mixer_setting arr"

text \<open>What tinyalsa answers: a control by its name, its type, its enumeration, how many values it
  has; and its value when asked.\<close>

record Mixer =
  mx_ctl_by_name :: "string option \<Rightarrow> ctl"
  mx_type :: "ctl \<Rightarrow> ctl_type"
  mx_enums :: "ctl \<Rightarrow> string list"
  mx_num_values :: "ctl \<Rightarrow> nat"
  mx_num_ctls :: nat
  mx_value :: "ctl \<Rightarrow> int"

record audio_route =
  ar_state :: "mixer_state list"
  ar_path :: "mixer_path arr"

text \<open>A call of \<open>mixer_ctl_set_value\<close>: the control, the index, the value.\<close>

type_synonym set_call = "ctl \<times> nat \<times> int"

section \<open>Paths\<close>

definition path_get_by_name :: "audio_route \<Rightarrow> string \<Rightarrow> nat option" where
  "path_get_by_name ar name =
     (let n = length (takeWhile (\<lambda>p. mp_name p \<noteq> name) (items (ar_path ar)))
      in if n < length (items (ar_path ar)) then Some n else None)"

text \<open>The new path's index; a name that exists or a failing \<open>realloc\<close> gives NULL.\<close>

definition path_create :: "bool \<Rightarrow> string \<Rightarrow> audio_route \<Rightarrow> (nat option \<times> audio_route) option" where
  "path_create ok name ar =
     (case path_get_by_name ar name of
        Some i \<Rightarrow> Some (None, ar)
      | None \<Rightarrow>
          (case arr_push ok \<lparr>mp_name = name, mp_setting = empty_arr\<rparr> (ar_path ar) of
             Pushed a \<Rightarrow> Some (Some (length (items (ar_path ar))), ar\<lparr>ar_path := a\<rparr>)
           | NoMemory a \<Rightarrow> Some (None, ar\<lparr>ar_path := a\<rparr>)
           | Overrun \<Rightarrow> None))"

definition path_setting_exists :: "mixer_path \<Rightarrow> mixer_setting \<Rightarrow> bool" where
  "path_setting_exists p s = list_ex (\<lambda>x. st_ctl x = st_ctl s) (items (mp_setting p))"

definition path_add_setting :: "bool \<Rightarrow> mixer_setting \<Rightarrow> mixer_path \<Rightarrow> (int \<times> mixer_path) option" where
  "path_add_setting ok s p =
     (if path_setting_exists p s then Some (- 1, p)
      else
        (case arr_push ok s (mp_setting p) of
           Pushed a \<Rightarrow> Some (0, p\<lparr>mp_setting := a\<rparr>)
         | NoMemory a \<Rightarrow> Some (- 1, p\<lparr>mp_setting := a\<rparr>)
         | Overrun \<Rightarrow> None))"

text \<open>The settings of another path, in order, until one is refused. A path that includes itself
  reads the array it appends to: its first setting is a duplicate, so nothing is appended.\<close>

fun path_add_path :: "bool list \<Rightarrow> mixer_setting list \<Rightarrow> mixer_path \<Rightarrow> (int \<times> mixer_path) option" where
  "path_add_path oks [] p = Some (0, p)"
| "path_add_path oks (s # ss) p =
     (case path_add_setting (hd (oks @ [True])) s p of
        None \<Rightarrow> None
      | Some (r, p') \<Rightarrow> if r < 0 then Some (- 1, p') else path_add_path (tl oks) ss p')"

text \<open>The number of the entry of a control, the number of entries when it has none.\<close>

definition find_ctl :: "mixer_state list \<Rightarrow> ctl \<Rightarrow> nat" where
  "find_ctl ms c = length (takeWhile (\<lambda>m. ms_ctl m \<noteq> c) ms)"

definition set_new :: "ctl \<Rightarrow> int \<Rightarrow> mixer_state list \<Rightarrow> mixer_state list option" where
  "set_new c v ms =
     (let j = find_ctl ms c in
      if j < length ms then Some (ms[j := (ms ! j)\<lparr>new_value := v\<rparr>]) else None)"

fun path_apply :: "mixer_setting list \<Rightarrow> mixer_state list \<Rightarrow> mixer_state list option" where
  "path_apply [] ms = Some ms"
| "path_apply (s # ss) ms =
     (case set_new (st_ctl s) (st_value s) ms of None \<Rightarrow> None | Some ms' \<Rightarrow> path_apply ss ms')"

definition audio_route_apply_path :: "string \<Rightarrow> audio_route \<Rightarrow> audio_route option" where
  "audio_route_apply_path name ar =
     (case path_get_by_name ar name of
        None \<Rightarrow> Some ar
      | Some i \<Rightarrow>
          map_option (\<lambda>ms. ar\<lparr>ar_state := ms\<rparr>) (path_apply (items (mp_setting (items (ar_path ar) ! i))) (ar_state ar)))"

section \<open>The mixer\<close>

definition alloc_mixer_state :: "Mixer \<Rightarrow> mixer_state list" where
  "alloc_mixer_state mx =
     map (\<lambda>i. \<lparr>ms_ctl = Some i, old_value = mx_value mx (Some i), new_value = mx_value mx (Some i), reset_value = 0\<rparr>)
       [0..<mx_num_ctls mx]"

text \<open>One control: all its values are set when the value changed.\<close>

definition update_ctl :: "Mixer \<Rightarrow> mixer_state \<Rightarrow> set_call list \<times> mixer_state" where
  "update_ctl mx m =
     (if old_value m \<noteq> new_value m
      then (map (\<lambda>j. (ms_ctl m, j, new_value m)) [0..<mx_num_values mx (ms_ctl m)], m\<lparr>old_value := new_value m\<rparr>)
      else ([], m))"

definition update_mixer_state :: "Mixer \<Rightarrow> mixer_state list \<Rightarrow> set_call list \<times> mixer_state list" where
  "update_mixer_state mx ms =
     (concat (map (\<lambda>m. fst (update_ctl mx m)) ms), map (\<lambda>m. snd (update_ctl mx m)) ms)"

definition save_mixer_state :: "(ctl \<Rightarrow> int) \<Rightarrow> mixer_state list \<Rightarrow> mixer_state list" where
  "save_mixer_state val ms = map (\<lambda>m. m\<lparr>reset_value := val (ms_ctl m)\<rparr>) ms"

definition reset_mixer_state :: "mixer_state list \<Rightarrow> mixer_state list" where
  "reset_mixer_state ms = map (\<lambda>m. m\<lparr>new_value := reset_value m\<rparr>) ms"

definition mixer_enum_string_to_value :: "Mixer \<Rightarrow> ctl \<Rightarrow> string \<Rightarrow> int" where
  "mixer_enum_string_to_value mx c str = int (length (takeWhile (\<lambda>e. e \<noteq> str) (mx_enums mx c)))"

section \<open>Reading the file\<close>

datatype xml = StartTag string "(string \<times> string) list" | EndTag string

text \<open>\<open>state->path\<close> is the index of the path being read, \<open>None\<close> for NULL; the list says of each
  element to come whether \<open>realloc\<close> would succeed for it (it always would past the list's end).\<close>

record config_parse_state =
  cp_ar :: audio_route
  cp_path :: "nat option"
  cp_level :: int
  cp_realloc :: "bool list"

text \<open>The last attribute of a name wins.\<close>

definition xml_attr :: "string \<Rightarrow> (string \<times> string) list \<Rightarrow> string option" where
  "xml_attr key attrs = map_of (rev attrs) key"

definition ctl_value :: "Mixer \<Rightarrow> ctl \<Rightarrow> string option \<Rightarrow> int option" where
  "ctl_value mx c val =
     (case mx_type mx c of
        CTL_BOOL \<Rightarrow> map_option atoi val
      | CTL_INT \<Rightarrow> map_option atoi val
      | CTL_ENUM \<Rightarrow>
          (case val of
             None \<Rightarrow> if mx_enums mx c = [] then Some 0 else None
           | Some v \<Rightarrow> Some (mixer_enum_string_to_value mx c v))
      | CTL_OTHER \<Rightarrow> Some 0)"

definition next_ok :: "config_parse_state \<Rightarrow> bool" where
  "next_ok s = hd (cp_realloc s @ [True])"

definition put_path :: "nat \<Rightarrow> mixer_path \<Rightarrow> audio_route \<Rightarrow> audio_route" where
  "put_path i p ar = ar\<lparr>ar_path := (ar_path ar)\<lparr>items := (items (ar_path ar))[i := p]\<rparr>\<rparr>"

definition start_path :: "string option \<Rightarrow> config_parse_state \<Rightarrow> config_parse_state option" where
  "start_path name s =
     (case name of
        None \<Rightarrow> Some s
      | Some nm \<Rightarrow>
          if cp_level s = 1 then
            map_option (\<lambda>(p, ar). s\<lparr>cp_path := p, cp_ar := ar, cp_realloc := tl (cp_realloc s)\<rparr>)
              (path_create (next_ok s) nm (cp_ar s))
          else
            (case path_get_by_name (cp_ar s) nm of
               None \<Rightarrow> None
             | Some j \<Rightarrow>
                 (let sub = items (mp_setting (items (ar_path (cp_ar s)) ! j)) in
                  if sub = [] then Some s
                  else
                    (case cp_path s of
                       None \<Rightarrow> None
                     | Some i \<Rightarrow>
                         map_option (\<lambda>(r, p). s\<lparr>cp_ar := put_path i p (cp_ar s), cp_realloc := drop (length sub) (cp_realloc s)\<rparr>)
                           (path_add_path (cp_realloc s) sub (items (ar_path (cp_ar s)) ! i))))))"

definition start_ctl :: "Mixer \<Rightarrow> string option \<Rightarrow> string option \<Rightarrow> config_parse_state \<Rightarrow> config_parse_state option" where
  "start_ctl mx name val s =
     (let c = mx_ctl_by_name mx name in
      case ctl_value mx c val of
        None \<Rightarrow> None
      | Some v \<Rightarrow>
          if cp_level s = 1 then
            map_option (\<lambda>ms. s\<lparr>cp_ar := (cp_ar s)\<lparr>ar_state := ms\<rparr>\<rparr>) (set_new c v (ar_state (cp_ar s)))
          else
            (case cp_path s of
               None \<Rightarrow> None
             | Some i \<Rightarrow>
                 map_option (\<lambda>(r, p). s\<lparr>cp_ar := put_path i p (cp_ar s), cp_realloc := tl (cp_realloc s)\<rparr>)
                   (path_add_setting (next_ok s) \<lparr>st_ctl = c, st_value = v\<rparr> (items (ar_path (cp_ar s)) ! i))))"

definition start_tag :: "Mixer \<Rightarrow> string \<Rightarrow> (string \<times> string) list \<Rightarrow> config_parse_state \<Rightarrow> config_parse_state option" where
  "start_tag mx tag attrs s =
     (let name = xml_attr ''name'' attrs; val = xml_attr ''value'' attrs in
      map_option (\<lambda>t. t\<lparr>cp_level := cp_level t + 1\<rparr>)
        (if tag = ''path'' then start_path name s
         else if tag = ''ctl'' then start_ctl mx name val s
         else Some s))"

definition end_tag :: "config_parse_state \<Rightarrow> config_parse_state" where
  "end_tag s = s\<lparr>cp_level := cp_level s - 1\<rparr>"

definition xml_step :: "Mixer \<Rightarrow> config_parse_state option \<Rightarrow> xml \<Rightarrow> config_parse_state option" where
  "xml_step mx st x =
     (case st of
        None \<Rightarrow> None
      | Some s \<Rightarrow> (case x of StartTag tag attrs \<Rightarrow> start_tag mx tag attrs s | EndTag tag \<Rightarrow> Some (end_tag s)))"

text \<open>\<open>audio_route_init\<close> with an open mixer and a file that expat accepts; \<open>after\<close> is what the mixer
  answers once the first update has been written.\<close>

definition audio_route_init ::
    "Mixer \<Rightarrow> (ctl \<Rightarrow> int) \<Rightarrow> bool list \<Rightarrow> xml list \<Rightarrow> (set_call list \<times> audio_route) option" where
  "audio_route_init mx after oks doc =
     (case foldl (xml_step mx)
             (Some \<lparr>cp_ar = \<lparr>ar_state = alloc_mixer_state mx, ar_path = empty_arr\<rparr>, cp_path = None, cp_level = 0,
                    cp_realloc = oks\<rparr>) doc of
        None \<Rightarrow> None
      | Some s \<Rightarrow>
          (case update_mixer_state mx (ar_state (cp_ar s)) of
             (calls, ms) \<Rightarrow> Some (calls, (cp_ar s)\<lparr>ar_state := save_mixer_state after ms\<rparr>)))"

section \<open>Keys stay distinct\<close>

locale keyed_array =
  fixes add :: "bool \<Rightarrow> 'e \<Rightarrow> 't \<Rightarrow> (bool \<times> 't) option"
    and key :: "'e \<Rightarrow> 'k"
    and keys :: "'t \<Rightarrow> 'k list"
  assumes added: "add ok e t = Some (acc, t') \<Longrightarrow>
      if acc then key e \<notin> set (keys t) \<and> keys t' = keys t @ [key e] else keys t' = keys t"
begin

lemma add_distinct: "add ok e t = Some (acc, t') \<Longrightarrow> distinct (keys t) \<Longrightarrow> distinct (keys t')"
  using added [of ok e t acc t'] by (auto split: if_splits)

lemma add_grows: "add ok e t = Some (acc, t') \<Longrightarrow> length (keys t) \<le> length (keys t')"
  using added [of ok e t acc t'] by (auto split: if_splits)

lemma add_refused: "key e \<in> set (keys t) \<Longrightarrow> add ok e t = Some (acc, t') \<Longrightarrow> \<not> acc \<and> keys t' = keys t"
  using added [of ok e t acc t'] by (auto split: if_splits)

end

definition setting_keys :: "mixer_path \<Rightarrow> ctl list" where
  "setting_keys p = map st_ctl (items (mp_setting p))"

definition path_names :: "audio_route \<Rightarrow> string list" where
  "path_names ar = map mp_name (items (ar_path ar))"

lemma arr_push_items:
  "arr_push ok x a = Pushed b \<Longrightarrow> items b = items a @ [x]"
  "arr_push ok x a = NoMemory b \<Longrightarrow> items b = items a"
  by (auto simp: arr_push_def Let_def split: if_splits)

lemma path_get_iff: "(path_get_by_name ar name = None) = (name \<notin> set (path_names ar))"
proof -
  have "(length (takeWhile (\<lambda>p. mp_name p \<noteq> name) ps) < length ps) = (name \<in> set (map mp_name ps))" for ps
    by (induction ps) auto
  from this [of "items (ar_path ar)"] show ?thesis by (simp add: path_get_by_name_def path_names_def Let_def)
qed

interpretation paths: keyed_array
  "\<lambda>ok name ar. map_option (\<lambda>(p, ar'). (p \<noteq> None, ar')) (path_create ok name ar)" "\<lambda>name. name" path_names
proof
  fix ok name ar acc ar'
  assume "map_option (\<lambda>(p, ar'). (p \<noteq> None, ar')) (path_create ok name ar) = Some (acc, ar')"
  then show "if acc then name \<notin> set (path_names ar) \<and> path_names ar' = path_names ar @ [name]
      else path_names ar' = path_names ar"
    using path_get_iff [of ar name]
    by (auto simp: path_create_def path_names_def dest: arr_push_items split: option.splits push.splits)
qed

interpretation settings: keyed_array
  "\<lambda>ok s p. map_option (\<lambda>(r, p'). (r = 0, p')) (path_add_setting ok s p)" st_ctl setting_keys
proof
  fix ok s p acc p'
  assume "map_option (\<lambda>(r, p'). (r = 0, p')) (path_add_setting ok s p) = Some (acc, p')"
  then show "if acc then st_ctl s \<notin> set (setting_keys p) \<and> setting_keys p' = setting_keys p @ [st_ctl s]
      else setting_keys p' = setting_keys p"
    by (auto simp: path_add_setting_def path_setting_exists_def setting_keys_def list_ex_iff
        dest: arr_push_items split: if_splits push.splits)
qed

lemma setting_distinct:
  "path_add_setting ok s p = Some (r, p') \<Longrightarrow> distinct (setting_keys p) \<Longrightarrow>
   distinct (setting_keys p') \<and> mp_name p' = mp_name p"
  using settings.add_distinct [of ok s p "r = 0" p']
  by (auto simp: path_add_setting_def split: if_splits push.splits)

lemma add_path_distinct:
  "path_add_path oks ss p = Some (r, p') \<Longrightarrow> distinct (setting_keys p) \<Longrightarrow>
   distinct (setting_keys p') \<and> mp_name p' = mp_name p"
proof (induction oks ss p rule: path_add_path.induct)
  case (2 oks s ss p)
  obtain q p1 where q: "path_add_setting (hd (oks @ [True])) s p = Some (q, p1)"
    using "2.prems"(1) by (auto split: option.splits)
  have d: "distinct (setting_keys p1)" "mp_name p1 = mp_name p" using setting_distinct [OF q "2.prems"(2)] by simp_all
  show ?case
    using "2.IH" [OF q] "2.prems"(1) q d by (cases "q < 0") auto
qed simp

text \<open>Names of paths are distinct, and so are the controls of a path.\<close>

definition routes_wf :: "audio_route \<Rightarrow> bool" where
  "routes_wf ar = (distinct (path_names ar) \<and> list_all (\<lambda>p. distinct (setting_keys p)) (items (ar_path ar)))"

definition parse_wf :: "ctl list \<Rightarrow> config_parse_state option \<Rightarrow> bool" where
  "parse_wf cs st =
     (case st of
        None \<Rightarrow> True
      | Some s \<Rightarrow>
          routes_wf (cp_ar s) \<and> map ms_ctl (ar_state (cp_ar s)) = cs \<and>
          (case cp_path s of None \<Rightarrow> True | Some i \<Rightarrow> i < length (items (ar_path (cp_ar s)))))"

lemma put_path_wf:
  assumes "routes_wf ar" and "i < length (items (ar_path ar))" and "distinct (setting_keys p)"
    and "mp_name p = mp_name (items (ar_path ar) ! i)"
  shows "routes_wf (put_path i p ar)"
proof -
  have "map mp_name ((items (ar_path ar))[i := p]) = map mp_name (items (ar_path ar))"
    unfolding map_update assms(4) by (metis list_update_id map_update)
  then show ?thesis
    using assms by (simp add: routes_wf_def put_path_def path_names_def list_all_length nth_list_update)
qed

lemma path_create_wf:
  assumes "path_create ok name ar = Some (p, ar')" and "routes_wf ar"
  shows "routes_wf ar' \<and> ar_state ar' = ar_state ar \<and>
    (case p of None \<Rightarrow> True | Some i \<Rightarrow> i < length (items (ar_path ar')))"
proof -
  have "distinct (path_names ar')"
    using paths.add_distinct [of ok name ar "p \<noteq> None" ar'] assms by (simp add: routes_wf_def)
  then show ?thesis
    using assms
    by (auto simp: path_create_def routes_wf_def setting_keys_def empty_arr_def
        dest: arr_push_items split: option.splits push.splits)
qed

lemma set_new_ctls: "set_new c v ms = Some ms' \<Longrightarrow> map ms_ctl ms' = map ms_ctl ms"
  by (auto simp: set_new_def Let_def map_update list_update_same_conv split: if_splits)

lemma start_path_wf: "parse_wf cs (Some s) \<Longrightarrow> parse_wf cs (start_path name s)"
proof -
  assume wf: "parse_wf cs (Some s)"
  then have w: "routes_wf (cp_ar s)" "map ms_ctl (ar_state (cp_ar s)) = cs" by (simp_all add: parse_wf_def)
  have create: "parse_wf cs (map_option (\<lambda>(p, ar). s\<lparr>cp_path := p, cp_ar := ar, cp_realloc := tl (cp_realloc s)\<rparr>)
      (path_create (next_ok s) nm (cp_ar s)))" for nm
    using path_create_wf [of "next_ok s" nm "cp_ar s"] w
    by (cases "path_create (next_ok s) nm (cp_ar s)") (auto simp: parse_wf_def split: option.splits)
  have nest: "parse_wf cs (map_option (\<lambda>(r, p). s\<lparr>cp_ar := put_path i p (cp_ar s), cp_realloc := k\<rparr>)
      (path_add_path oks sub (items (ar_path (cp_ar s)) ! i)))" if "cp_path s = Some i" for i oks sub k
  proof (cases "path_add_path oks sub (items (ar_path (cp_ar s)) ! i)")
    case (Some x)
    obtain r p where x: "x = (r, p)" by fastforce
    have i: "i < length (items (ar_path (cp_ar s)))" using wf that by (simp add: parse_wf_def)
    have "distinct (setting_keys (items (ar_path (cp_ar s)) ! i))"
      using w(1) i by (simp add: routes_wf_def list_all_length)
    from add_path_distinct [OF Some [unfolded x] this] put_path_wf [OF w(1) i]
    have "routes_wf (put_path i p (cp_ar s))" by simp
    then show ?thesis using Some x w(2) i that by (simp add: parse_wf_def put_path_def)
  qed (simp add: parse_wf_def)
  show ?thesis
    using wf create nest
    by (auto simp: start_path_def parse_wf_def [of cs None] Let_def split: option.splits)
qed

lemma start_ctl_wf: "parse_wf cs (Some s) \<Longrightarrow> parse_wf cs (start_ctl mx name val s)"
proof -
  assume wf: "parse_wf cs (Some s)"
  then have w: "routes_wf (cp_ar s)" "map ms_ctl (ar_state (cp_ar s)) = cs" by (simp_all add: parse_wf_def)
  have top: "parse_wf cs (map_option (\<lambda>ms. s\<lparr>cp_ar := (cp_ar s)\<lparr>ar_state := ms\<rparr>\<rparr>) (set_new c v (ar_state (cp_ar s))))" for c v
    using wf set_new_ctls [of c v "ar_state (cp_ar s)"]
    by (cases "set_new c v (ar_state (cp_ar s))") (auto simp: parse_wf_def routes_wf_def path_names_def split: option.splits)
  have nest: "parse_wf cs (map_option (\<lambda>(r, p). s\<lparr>cp_ar := put_path i p (cp_ar s), cp_realloc := k\<rparr>)
      (path_add_setting ok x (items (ar_path (cp_ar s)) ! i)))" if "cp_path s = Some i" for i ok x k
  proof (cases "path_add_setting ok x (items (ar_path (cp_ar s)) ! i)")
    case (Some y)
    obtain r p where y: "y = (r, p)" by fastforce
    have i: "i < length (items (ar_path (cp_ar s)))" using wf that by (simp add: parse_wf_def)
    have "distinct (setting_keys (items (ar_path (cp_ar s)) ! i))"
      using w(1) i by (simp add: routes_wf_def list_all_length)
    from setting_distinct [OF Some [unfolded y] this] put_path_wf [OF w(1) i]
    have "routes_wf (put_path i p (cp_ar s))" by simp
    then show ?thesis using Some y w(2) i that by (simp add: parse_wf_def put_path_def)
  qed (simp add: parse_wf_def)
  show ?thesis
    using top nest
    by (auto simp: start_ctl_def parse_wf_def [of cs None] Let_def split: option.splits)
qed

lemma level_wf: "parse_wf cs (map_option (\<lambda>t. t\<lparr>cp_level := f t\<rparr>) st) = parse_wf cs st"
  by (simp add: parse_wf_def split: option.splits)

interpretation document: stepper "xml_step mx" "parse_wf cs" for mx cs
proof
  fix st x
  assume wf: "parse_wf cs st"
  show "parse_wf cs (xml_step mx st x)"
  proof (cases st)
    case None
    then show ?thesis by (simp add: xml_step_def parse_wf_def)
  next
    case (Some s)
    have l: "parse_wf cs (Some (s\<lparr>cp_level := n\<rparr>))" for n
      using wf Some by (auto simp: parse_wf_def split: option.splits)
    show ?thesis
      using wf Some l start_path_wf [of cs s] start_ctl_wf [of cs s mx]
      by (cases x) (simp_all add: xml_step_def start_tag_def end_tag_def level_wf Let_def)
  qed
qed

text \<open>C38: whatever the configuration holds and whenever memory runs out, the routes it leaves are
  well formed: no two paths have the same name, no path sets a control twice, and the table of the
  controls still has one entry per control of the mixer, in order.\<close>

theorem audio_routes_distinct:
  "case audio_route_init mx after oks doc of
     None \<Rightarrow> True
   | Some (calls, ar) \<Rightarrow>
       routes_wf ar \<and> map ms_ctl (ar_state ar) = map Some [0..<mx_num_ctls mx] \<and>
       list_all (\<lambda>m. reset_value m = after (ms_ctl m) \<and> old_value m = new_value m) (ar_state ar)"
proof -
  let ?s = "\<lparr>cp_ar = \<lparr>ar_state = alloc_mixer_state mx, ar_path = empty_arr\<rparr>, cp_path = None, cp_level = 0, cp_realloc = oks\<rparr>"
  have 0: "parse_wf (map Some [0..<mx_num_ctls mx]) (Some ?s)"
    by (simp add: parse_wf_def routes_wf_def path_names_def empty_arr_def alloc_mixer_state_def comp_def)
  have c: "ms_ctl (snd (update_ctl mx m)) = ms_ctl m" "old_value (snd (update_ctl mx m)) = new_value (snd (update_ctl mx m))" for m
    by (simp_all add: update_ctl_def)
  have "parse_wf (map Some [0..<mx_num_ctls mx]) (foldl (xml_step mx) (Some ?s) doc)"
    by (rule document.run_inv [OF 0])
  then show ?thesis
    by (auto simp: audio_route_init_def parse_wf_def update_mixer_state_def save_mixer_state_def routes_wf_def
        path_names_def comp_def c list_all_iff split: option.splits)
qed

section \<open>Switching to a route\<close>

definition path_values :: "mixer_setting list \<Rightarrow> (ctl \<times> int) list" where
  "path_values ss = map (\<lambda>s. (st_ctl s, st_value s)) ss"

lemma find_ctl_nth: "find_ctl ms c < length ms \<Longrightarrow> ms_ctl (ms ! find_ctl ms c) = c"
  using nth_length_takeWhile [of "\<lambda>m. ms_ctl m \<noteq> c" ms] by (simp add: find_ctl_def)

lemma find_ctl_known: "c \<in> set (map ms_ctl ms) \<Longrightarrow> find_ctl ms c < length ms"
  by (induction ms) (auto simp: find_ctl_def)

lemma set_new_map:
  assumes "distinct (map ms_ctl ms)" and "c \<in> set (map ms_ctl ms)"
  shows "set_new c v ms = Some (map (\<lambda>m. if ms_ctl m = c then m\<lparr>new_value := v\<rparr> else m) ms)"
proof -
  let ?j = "find_ctl ms c"
  have j: "?j < length ms" "ms_ctl (ms ! ?j) = c"
    using find_ctl_known [OF assms(2)] find_ctl_nth by auto
  have "(ms ! i = ms ! ?j) = (i = ?j) \<and> (ms_ctl (ms ! i) = c) = (i = ?j)" if "i < length ms" for i
    using that j assms(1) by (metis distinct_conv_nth length_map nth_map)
  then have "ms[?j := (ms ! ?j)\<lparr>new_value := v\<rparr>] = map (\<lambda>m. if ms_ctl m = c then m\<lparr>new_value := v\<rparr> else m) ms"
    by (intro nth_equalityI) (auto simp: nth_list_update)
  then show ?thesis using j by (simp add: set_new_def Let_def)
qed

definition pick :: "(ctl \<times> int) list \<Rightarrow> mixer_state \<Rightarrow> mixer_state" where
  "pick vs m = (case map_of vs (ms_ctl m) of None \<Rightarrow> m | Some v \<Rightarrow> m\<lparr>new_value := v\<rparr>)"

lemma path_apply_map:
  "distinct (map ms_ctl ms) \<Longrightarrow> distinct (map st_ctl ss) \<Longrightarrow> set (map st_ctl ss) \<subseteq> set (map ms_ctl ms) \<Longrightarrow>
   path_apply ss ms = Some (map (pick (path_values ss)) ms)"
proof (induction ss arbitrary: ms)
  case Nil
  then show ?case by (simp add: pick_def path_values_def)
next
  case (Cons s ss)
  let ?u = "\<lambda>m. if ms_ctl m = st_ctl s then m\<lparr>new_value := st_value s\<rparr> else m"
  have u: "ms_ctl (?u m) = ms_ctl m" for m by simp
  have sn: "set_new (st_ctl s) (st_value s) ms = Some (map ?u ms)" using Cons.prems by (intro set_new_map) auto
  have m: "map ms_ctl (map ?u ms) = map ms_ctl ms" by (simp add: u)
  have ih: "path_apply ss (map ?u ms) = Some (map (pick (path_values ss)) (map ?u ms))"
    using Cons.prems by (intro Cons.IH) (simp_all only: m, auto)
  have none: "map_of (path_values ss) (st_ctl s) = None"
    using Cons.prems(2) by (auto simp: map_of_eq_None_iff path_values_def)
  have "pick (path_values ss) (?u x) = pick (path_values (s # ss)) x" for x
    using none by (auto simp: pick_def path_values_def)
  then show ?case by (simp add: sn ih)
qed

lemma update_settles:
  "list_all (\<lambda>m. old_value m = new_value m) (snd (update_mixer_state mx ms)) \<and>
   map new_value (snd (update_mixer_state mx ms)) = map new_value ms \<and>
   fst (update_mixer_state mx (snd (update_mixer_state mx ms))) = []"
  by (auto simp: update_mixer_state_def update_ctl_def list_all_iff)

text \<open>C29: selecting a path and updating the mixer switches the hardware to exactly that path: each
  control the path names gets the path's value, every other control keeps its value, the mixer is
  written only where the value changes, all values of such a control at once, and a second update
  writes nothing.\<close>

theorem route_switch:
  assumes "routes_wf ar" and "distinct (map ms_ctl (ar_state ar))"
    and "path_get_by_name ar name = Some i"
    and "items (mp_setting (items (ar_path ar) ! i)) = ss"
    and "list_all (\<lambda>s. st_ctl s \<in> set (map ms_ctl (ar_state ar))) ss"
  shows "case audio_route_apply_path name ar of
      None \<Rightarrow> False
    | Some ar' \<Rightarrow>
        (case update_mixer_state mx (ar_state ar') of
           (calls, ms) \<Rightarrow>
             map (\<lambda>m. (ms_ctl m, old_value m)) ms =
               map (\<lambda>m. (ms_ctl m, case map_of (path_values ss) (ms_ctl m) of None \<Rightarrow> new_value m | Some v \<Rightarrow> v)) (ar_state ar) \<and>
             calls = concat (map (\<lambda>m. if old_value m = new_value m then []
                 else map (\<lambda>j. (ms_ctl m, j, new_value m)) [0..<mx_num_values mx (ms_ctl m)]) (ar_state ar')) \<and>
             update_mixer_state mx ms = ([], ms))"
proof -
  have i: "i < length (items (ar_path ar))"
    using assms(3) by (auto simp: path_get_by_name_def Let_def split: if_splits)
  then have "distinct (map st_ctl ss)"
    using assms(1,4) by (auto simp: routes_wf_def list_all_length setting_keys_def)
  then have a: "audio_route_apply_path name ar = Some (ar\<lparr>ar_state := map (pick (path_values ss)) (ar_state ar)\<rparr>)"
    using path_apply_map [OF assms(2), of ss] assms(3-5) by (auto simp: audio_route_apply_path_def list_all_iff)
  have c: "ms_ctl (pick vs m) = ms_ctl m"
    "new_value (pick vs m) = (case map_of vs (ms_ctl m) of None \<Rightarrow> new_value m | Some v \<Rightarrow> v)" for vs m
    by (simp_all add: pick_def split: option.splits)
  have o: "ms_ctl (snd (update_ctl mx m)) = ms_ctl m" "old_value (snd (update_ctl mx m)) = new_value m"
    "new_value (snd (update_ctl mx m)) = new_value m" for m
    by (simp_all add: update_ctl_def)
  have f: "fst (update_ctl mx m) = (if old_value m = new_value m then []
      else map (\<lambda>j. (ms_ctl m, j, new_value m)) [0..<mx_num_values mx (ms_ctl m)])" for m
    by (simp add: update_ctl_def)
  have g: "update_ctl mx (snd (update_ctl mx m)) = ([], snd (update_ctl mx m))" for m
    by (simp add: update_ctl_def)
  show ?thesis
    by (simp add: a update_mixer_state_def comp_def g, simp add: o c f comp_def)
qed

definition demo_ctl :: "nat \<Rightarrow> int \<Rightarrow> mixer_state" where
  "demo_ctl i v = \<lparr>ms_ctl = Some i, old_value = v, new_value = v, reset_value = v\<rparr>"

definition demo_route :: audio_route where
  "demo_route =
     \<lparr>ar_state = [demo_ctl 0 5, demo_ctl 1 6],
      ar_path = \<lparr>items = [\<lparr>mp_name = ''speaker'', mp_setting = \<lparr>items = [\<lparr>st_ctl = Some 1, st_value = 9\<rparr>], arr_size = 8, arr_alloc = 8\<rparr>\<rparr>],
                 arr_size = 8, arr_alloc = 8\<rparr>\<rparr>"

definition demo_mixer :: Mixer where
  "demo_mixer =
     \<lparr>mx_ctl_by_name = \<lambda>n. None, mx_type = \<lambda>c. CTL_INT, mx_enums = \<lambda>c. [], mx_num_values = \<lambda>c. 2,
      mx_num_ctls = 2, mx_value = \<lambda>c. 0\<rparr>"

theorem route_switch_witness:
  "case audio_route_apply_path ''speaker'' demo_route of
     None \<Rightarrow> False
   | Some ar' \<Rightarrow> fst (update_mixer_state demo_mixer (ar_state ar')) = [(Some 1, 0, 9), (Some 1, 1, 9)]"
  using route_switch [of demo_route "''speaker''" 0 "[\<lparr>st_ctl = Some 1, st_value = 9\<rparr>]" demo_mixer]
  by (simp add: demo_route_def demo_ctl_def routes_wf_def path_names_def setting_keys_def path_get_by_name_def
      demo_mixer_def audio_route_apply_path_def set_new_def find_ctl_def update_mixer_state_def update_ctl_def
      numeral_2_eq_2 Let_def)

text \<open>When memory runs out while the array of paths grows, its size is already recorded as
  doubled: that path is refused, but the next one is written past the end of the old array.\<close>

theorem path_create_after_failure:
  assumes "path_get_by_name ar n1 = None" and "path_get_by_name ar n2 = None"
    and "arr_size (ar_path ar) = length (items (ar_path ar))"
    and "arr_alloc (ar_path ar) = length (items (ar_path ar))"
  shows "case path_create False n1 ar of
      None \<Rightarrow> False
    | Some (p, ar') \<Rightarrow> p = None \<and> items (ar_path ar') = items (ar_path ar) \<and> path_create ok n2 ar' = None"
proof -
  have "path_get_by_name (ar\<lparr>ar_path := (ar_path ar)\<lparr>arr_size := k\<rparr>\<rparr>) n2 = None" for k
    using assms(2) by (simp add: path_get_by_name_def)
  then show ?thesis
    using assms by (auto simp: path_create_def arr_push_def INITIAL_MIXER_PATH_SIZE_def Let_def)
qed

theorem path_create_after_failure_witness:
  "case path_create False ''a'' (demo_route\<lparr>ar_path := empty_arr\<rparr>) of
     None \<Rightarrow> False | Some (p, ar') \<Rightarrow> path_create True ''b'' ar' = None"
  using path_create_after_failure [of "demo_route\<lparr>ar_path := empty_arr\<rparr>" "''a''" "''b''" True]
  by (auto simp: empty_arr_def path_get_by_name_def split: option.splits prod.splits)

end
