(* ===== verification/Audio_Hw.thy ===== *)
theory Audio_Hw
  imports Audio_Route
begin

text \<open>
  The audio HAL of the mx5x boards (src/mx5x/audio/audio_hw.c): one playback and one capture stream
  of a device, their standby and start, the routing that \<open>Audio_Route\<close> carries out, the pacing of
  writes, and the capture buffer that feeds the resampler. tinyalsa, the resampler and the bits of
  \<open>system/audio.h\<close> are not part of the sources: they are parameters, as are the answers of the
  system. Every operation runs under the device's lock, so a history is a sequence of operations.
  A call on a closed PCM, through a missing resampler or past a buffer has the result \<open>None\<close>.
\<close>

section \<open>Data\<close>

record pcm_config =
  channels :: nat
  rate :: nat
  period_size :: nat
  period_count :: nat

definition pcm_config_out :: pcm_config where
  "pcm_config_out = \<lparr>channels = 2, rate = 44100, period_size = 512, period_count = 8\<rparr>"

definition pcm_config_in :: pcm_config where
  "pcm_config_in = \<lparr>channels = 2, rate = 44100, period_size = 1024, period_count = 4\<rparr>"

definition pcm_config_sco :: pcm_config where
  "pcm_config_sco = \<lparr>channels = 1, rate = 8000, period_size = 256, period_count = 4\<rparr>"

lemmas pcm_configs = pcm_config_out_def pcm_config_in_def pcm_config_sco_def

definition OUT_SHORT_PERIOD_COUNT :: nat where "OUT_SHORT_PERIOD_COUNT = 2"
definition OUT_LONG_PERIOD_COUNT :: nat where "OUT_LONG_PERIOD_COUNT = 8"
definition MIN_WRITE_SLEEP_US :: int where "MIN_WRITE_SLEEP_US = 2000"
definition MAX_WRITE_SLEEP_US :: int where "MAX_WRITE_SLEEP_US = 512 * 2 * 1000000 div 44100"

datatype buffer_type = BUF_UNKNOWN | BUF_SHORT | BUF_LONG

text \<open>A stream's PCM: never opened or NULL, open, or a pointer to a closed one.\<close>

datatype pcm_ref = NoPcm | Pcm | ClosedPcm

record stream_out =
  so_pcm :: pcm_ref
  so_config :: pcm_config
  so_standby :: bool
  so_resampler :: bool
  so_buffer_frames :: nat
  write_threshold :: int
  cur_write_threshold :: int
  so_buffer_type :: buffer_type

text \<open>The capture buffer holds one period; \<open>frames_in\<close> of its frames, the last ones, are not consumed.\<close>

record stream_in =
  si_pcm :: pcm_ref
  si_config :: pcm_config
  si_standby :: bool
  requested_rate :: nat
  si_resampler :: bool
  si_buffer :: "int list"
  frames_in :: nat
  read_status :: int
  si_reads :: nat

record audio_device =
  out_device :: u32
  in_device :: u32
  mic_mute :: bool
  screen_off :: bool
  active_out :: bool
  active_in :: bool
  ad_route :: audio_route
  ad_out :: stream_out
  ad_in :: stream_in

text \<open>
  The parameter: the bits of the devices; the mixer; whether opening a PCM works in a state (playback
  first) and whether a resampler can be made; the result and the samples of the k-th read of a number
  of samples; the sizes of the buffers that the capture resampler asks its provider for and what it
  makes of their samples; the free space that the
  driver reports, its buffer's size and the value of \<open>kernel_frames\<close> before it is set; what the
  playback resampler makes of its input; the result of a write.
\<close>

record Hal =
  m_out_sco :: u32
  m_out_wired :: u32
  m_out_speaker :: u32
  m_in_sco :: u32
  m_in_mic :: u32
  m_bit_in :: u32
  hl_mixer :: Mixer
  hl_open :: "bool \<Rightarrow> audio_device \<Rightarrow> bool"
  hl_resampler :: bool
  hl_read :: "nat \<Rightarrow> nat \<Rightarrow> int \<times> int list"
  hl_requests :: "nat \<Rightarrow> stream_in \<Rightarrow> nat list"
  hl_convert :: "nat \<Rightarrow> int list \<Rightarrow> int list"
  hl_avail :: "nat \<Rightarrow> int option"
  hl_size :: int
  hl_garbage :: int
  hl_resample :: "int list \<Rightarrow> int list"
  hl_write :: "int list \<Rightarrow> int"

definition ENODEV :: int where "ENODEV = 19"
definition EPIPE :: int where "EPIPE = 32"

section \<open>Routing\<close>

text \<open>The paths that are applied after the reset, in order.\<close>

definition route_names :: "Hal \<Rightarrow> audio_device \<Rightarrow> string list" where
  "route_names h ad =
     (if out_device ad AND m_out_speaker h \<noteq> 0 then [''speaker''] else []) @
     (if out_device ad AND m_out_wired h \<noteq> 0 then [''headphone''] else []) @
     (if in_device ad AND m_in_mic h \<noteq> 0 then [''main-mic''] else [])"

definition select_devices :: "Hal \<Rightarrow> audio_device \<Rightarrow> (set_call list \<times> audio_device) option" where
  "select_devices h ad =
     (let ar = (ad_route ad)\<lparr>ar_state := reset_mixer_state (ar_state (ad_route ad))\<rparr> in
      case foldM audio_route_apply_path (route_names h ad) ar of
        None \<Rightarrow> None
      | Some ar1 \<Rightarrow>
          (case update_mixer_state (hl_mixer h) (ar_state ar1) of
             (calls, ms) \<Rightarrow> Some (calls, ad\<lparr>ad_route := ar1\<lparr>ar_state := ms\<rparr>\<rparr>)))"

section \<open>Standby and start\<close>

definition do_out_standby :: "audio_device \<Rightarrow> audio_device" where
  "do_out_standby ad =
     (if so_standby (ad_out ad) then ad
      else ad\<lparr>active_out := False,
              ad_out := (ad_out ad)\<lparr>so_pcm := NoPcm, so_resampler := False, so_standby := True\<rparr>\<rparr>)"

definition do_in_standby :: "audio_device \<Rightarrow> audio_device" where
  "do_in_standby ad =
     (if si_standby (ad_in ad) then ad
      else ad\<lparr>active_in := False,
              ad_in := (ad_in ad)\<lparr>si_pcm := NoPcm, si_resampler := False, si_buffer := [], si_standby := True\<rparr>\<rparr>)"

text \<open>Open PCMs must have rates of one group.\<close>

definition rate_clash :: "pcm_config \<Rightarrow> pcm_config \<Rightarrow> bool" where
  "rate_clash a b =
     (rate a mod 8000 = 0 \<and> rate b mod 8000 \<noteq> 0 \<or> rate a mod 11025 = 0 \<and> rate b mod 11025 \<noteq> 0)"

definition out_sco :: "Hal \<Rightarrow> audio_device \<Rightarrow> bool" where
  "out_sco h ad = (out_device ad AND m_out_sco h \<noteq> 0)"

definition in_sco :: "Hal \<Rightarrow> audio_device \<Rightarrow> bool" where
  "in_sco h ad = (in_device ad AND m_in_sco h \<noteq> 0)"

definition out_get_sample_rate :: nat where "out_get_sample_rate = rate pcm_config_out"

definition out_config :: "Hal \<Rightarrow> audio_device \<Rightarrow> audio_device" where
  "out_config h ad =
     ad\<lparr>ad_out := (if out_sco h ad then (ad_out ad)\<lparr>so_config := pcm_config_sco\<rparr>
                   else (ad_out ad)\<lparr>so_config := pcm_config_out, so_buffer_type := BUF_UNKNOWN\<rparr>)\<rparr>"

definition open_out :: "Hal \<Rightarrow> audio_device \<Rightarrow> audio_device" where
  "open_out h ad =
     (let o1 = (ad_out ad)\<lparr>so_pcm := Pcm\<rparr>; r = rate (so_config o1) in
      ad\<lparr>active_out := True,
         ad_out := (if out_get_sample_rate = r then o1
                    else o1\<lparr>so_resampler := hl_resampler h,
                            so_buffer_frames := period_size pcm_config_out * r div out_get_sample_rate + 1\<rparr>)\<rparr>)"

definition start_output_stream :: "Hal \<Rightarrow> audio_device \<Rightarrow> int \<times> audio_device" where
  "start_output_stream h ad0 =
     (let ad = out_config h ad0;
          ad1 = (if active_in ad \<and> rate_clash (so_config (ad_out ad)) (si_config (ad_in ad))
                 then do_in_standby ad else ad)
      in if hl_open h True ad1 then (0, open_out h ad1)
         else (- ENOMEM, ad1\<lparr>ad_out := (ad_out ad1)\<lparr>so_pcm := ClosedPcm\<rparr>\<rparr>))"

definition in_config :: "Hal \<Rightarrow> audio_device \<Rightarrow> audio_device" where
  "in_config h ad =
     ad\<lparr>ad_in := (ad_in ad)\<lparr>si_config := (if in_sco h ad then pcm_config_sco else pcm_config_in)\<rparr>\<rparr>"

definition open_in :: "Hal \<Rightarrow> audio_device \<Rightarrow> audio_device" where
  "open_in h ad =
     (let i1 = (ad_in ad)\<lparr>si_pcm := Pcm\<rparr>;
          i2 = (if requested_rate i1 = rate (si_config i1) then i1 else i1\<lparr>si_resampler := hl_resampler h\<rparr>)
      in ad\<lparr>active_in := True,
            ad_in := i2\<lparr>si_buffer := replicate (period_size (si_config i2) * channels (si_config i2)) 0, frames_in := 0\<rparr>\<rparr>)"

definition start_input_stream :: "Hal \<Rightarrow> audio_device \<Rightarrow> int \<times> audio_device" where
  "start_input_stream h ad0 =
     (let ad = in_config h ad0;
          ad1 = (if active_out ad \<and> rate_clash (si_config (ad_in ad)) (so_config (ad_out ad))
                 then do_out_standby ad else ad)
      in if hl_open h False ad1 then (0, open_in h ad1)
         else (- ENOMEM, ad1\<lparr>ad_in := (ad_in ad1)\<lparr>si_pcm := ClosedPcm\<rparr>\<rparr>))"

section \<open>Playback\<close>

text \<open>The left channel of interleaved samples, moved to the front in place.\<close>

definition discard_right :: "nat \<Rightarrow> int list \<Rightarrow> int list" where
  "discard_right n xs = fold (\<lambda>i ys. ys[i := ys ! (i * 2)]) [1..<n] xs"

definition adapt_buffer :: "Hal \<Rightarrow> audio_device \<Rightarrow> audio_device" where
  "adapt_buffer h ad =
     (let bt = (if screen_off ad \<and> \<not> active_in ad then BUF_LONG else BUF_SHORT); s = ad_out ad in
      if \<not> out_sco h ad \<and> bt \<noteq> so_buffer_type s then
        (let wt = int (period_size (so_config s) *
                    (if bt = BUF_LONG then OUT_LONG_PERIOD_COUNT else OUT_SHORT_PERIOD_COUNT))
         in ad\<lparr>ad_out := s\<lparr>write_threshold := wt,
                cur_write_threshold := (if so_buffer_type s = BUF_UNKNOWN then wt else cur_write_threshold s),
                so_buffer_type := bt\<rparr>\<rparr>)
      else ad)"

text \<open>The samples that go to the driver; a stream whose resampler could not be made dereferences NULL.\<close>

definition out_samples :: "Hal \<Rightarrow> int list \<Rightarrow> stream_out \<Rightarrow> int list option" where
  "out_samples h xs s =
     (let n = length xs div 2;
          mono = (2 > channels (so_config s));
          ys = (if mono then take n (discard_right n xs) else take (2 * n) xs);
          ch = (if mono then 1 else 2)
      in if out_get_sample_rate \<noteq> rate (so_config s)
         then (if so_resampler s then Some (take (so_buffer_frames s * ch) (hl_resample h ys)) else None)
         else Some ys)"

text \<open>The sleep for a number of frames too many; the quotient is cut towards zero and kept in 32 bits.\<close>

definition sleep_time :: "int \<Rightarrow> nat \<Rightarrow> int" where
  "sleep_time d r = wrap32 (if d < 0 then - (- d * 1000000 div int r) else d * 1000000 div int r)"

text \<open>The wait for room: at most \<open>cur\<close> frames may be in the driver. The results are the last fill
  level and the sleeps, in microseconds. The sum of the sleeps has 32 bits: a sum that wraps is below the limit again, so a
  driver with such fill levels can keep the loop from ending, which is the result \<open>None\<close>.\<close>

partial_function (option) throttle :: "Hal \<Rightarrow> int \<Rightarrow> nat \<Rightarrow> int \<Rightarrow> nat \<Rightarrow> int \<Rightarrow> int list \<Rightarrow> (int \<times> int list) option" where
  "throttle h cur r kf k tot sleeps =
     (case hl_avail h k of
        None \<Rightarrow> Some (kf, sleeps)
      | Some a \<Rightarrow>
          (let kf1 = wrap32 (hl_size h - a) in
           if kf1 > cur then
             (let sl = sleep_time (wrap32 (kf1 - cur)) r in
              if sl < MIN_WRITE_SLEEP_US then Some (kf1, sleeps)
              else
                (let tot1 = wrap32 (tot + sl) in
                 if tot1 > MAX_WRITE_SLEEP_US
                 then Some (kf1, sleeps @ [wrap32 (MAX_WRITE_SLEEP_US - wrap32 (tot1 - sl))])
                 else throttle h cur r kf1 (Suc k) tot1 (sleeps @ [sl])))
           else Some (kf1, sleeps)))"

declare throttle.simps [code]

definition adjust_threshold :: "int \<Rightarrow> stream_out \<Rightarrow> stream_out" where
  "adjust_threshold kf s =
     (let wt = write_threshold s; cur = cur_write_threshold s; p = int (period_size (so_config s)) in
      if cur > wt then s\<lparr>cur_write_threshold := (if cur - p div 4 < wt then wt else cur - p div 4)\<rparr>
      else if cur < wt then s\<lparr>cur_write_threshold := (if cur + p div 4 > wt then wt else cur + p div 4)\<rparr>
      else if kf < wt \<and> wrap32 (wt - kf) > p * int OUT_SHORT_PERIOD_COUNT
        then s\<lparr>cur_write_threshold := wrap32 ((uint (word_of_int kf :: u32) div p + 1) * p + p div 4)\<rparr>
      else s)"

text \<open>The first write after a standby starts the stream.\<close>

definition out_ready :: "Hal \<Rightarrow> audio_device \<Rightarrow> int \<times> audio_device" where
  "out_ready h ad =
     (if so_standby (ad_out ad) then
        (case start_output_stream h ad of
           (r, ad1) \<Rightarrow> if r \<noteq> 0 then (r, ad1) else (0, ad1\<lparr>ad_out := (ad_out ad1)\<lparr>so_standby := False\<rparr>\<rparr>))
      else (0, ad))"

text \<open>The result of a write of interleaved stereo samples: its return value, the samples sent, the
  sleeps before, and the new state.\<close>

definition out_write :: "Hal \<Rightarrow> int list \<Rightarrow> audio_device \<Rightarrow> (int \<times> int list \<times> int list \<times> audio_device) option" where
  "out_write h xs ad =
     (let bytes = int (2 * length xs) in
      case out_ready h ad of
        (r, ad1) \<Rightarrow>
          if r \<noteq> 0 then Some (bytes, [], [], ad1)
          else
            (let ad2 = adapt_buffer h ad1; s = ad_out ad2 in
             if so_pcm s \<noteq> Pcm then None
             else
               (case out_samples h xs s of
                  None \<Rightarrow> None
                | Some ys \<Rightarrow>
                    (case (if out_sco h ad2 then Some (0, [])
                           else throttle h (cur_write_threshold s) (rate (so_config s)) (wrap32 (hl_garbage h)) 0 0 []) of
                       None \<Rightarrow> None
                     | Some (kf, sleeps) \<Rightarrow>
                         (let s1 = (if out_sco h ad2 then s else adjust_threshold kf s)
                          in Some (if hl_write h ys = - EPIPE then - EPIPE else bytes, ys, sleeps, ad2\<lparr>ad_out := s1\<rparr>))))))"

section \<open>Capture\<close>

text \<open>The result, the frames handed out, the stream. A fresh period loses its right channel.\<close>

definition get_next_buffer :: "Hal \<Rightarrow> nat \<Rightarrow> stream_in \<Rightarrow> int \<times> int list \<times> stream_in" where
  "get_next_buffer h want s =
     (let p = period_size (si_config s) in
      if si_pcm s = NoPcm then (- ENODEV, [], s\<lparr>read_status := - ENODEV\<rparr>)
      else if frames_in s = 0 then
        (case hl_read h (si_reads s) (p * channels (si_config s)) of
           (r, xs) \<Rightarrow>
             (let s1 = s\<lparr>read_status := r, si_reads := Suc (si_reads s), si_buffer := xs\<rparr> in
              if r \<noteq> 0 then (r, [], s1)
              else
                (let buf = (if channels (si_config s) = 2 then discard_right p xs else xs) in
                 (r, take (min want p) buf, s1\<lparr>frames_in := p, si_buffer := buf\<rparr>))))
      else (read_status s, take (min want (frames_in s)) (drop (p - frames_in s) (si_buffer s)), s))"

definition release_buffer :: "nat \<Rightarrow> stream_in \<Rightarrow> stream_in" where
  "release_buffer n s = s\<lparr>frames_in := frames_in s - n\<rparr>"

definition pull :: "Hal \<Rightarrow> nat \<Rightarrow> stream_in \<Rightarrow> int list \<times> stream_in" where
  "pull h want s = (case get_next_buffer h want s of (r, xs, s1) \<Rightarrow> (xs, release_buffer (length xs) s1))"

text \<open>The resampler reaches the stream only through its provider.\<close>

fun pulls :: "Hal \<Rightarrow> nat list \<Rightarrow> stream_in \<Rightarrow> int list \<times> stream_in" where
  "pulls h [] s = ([], s)"
| "pulls h (w # ws) s = (case pull h w s of (xs, s1) \<Rightarrow> (case pulls h ws s1 of (ys, s2) \<Rightarrow> (xs @ ys, s2)))"

definition resample_from_provider :: "Hal \<Rightarrow> nat \<Rightarrow> stream_in \<Rightarrow> int list \<times> stream_in" where
  "resample_from_provider h n s = (case pulls h (hl_requests h n s) s of (xs, s1) \<Rightarrow> (hl_convert h n xs, s1))"

partial_function (option) read_frames :: "Hal \<Rightarrow> nat \<Rightarrow> int list \<Rightarrow> stream_in \<Rightarrow> (int \<times> int list \<times> stream_in) option" where
  "read_frames h n acc s =
     (if length acc < n then
        (case (if si_resampler s then resample_from_provider h (n - length acc) s else pull h (n - length acc) s) of
           (xs, s1) \<Rightarrow>
             if read_status s1 \<noteq> 0 then Some (read_status s1, acc, s1) else read_frames h n (acc @ xs) s1)
      else Some (int (length acc), acc, s))"

definition in_ready :: "Hal \<Rightarrow> audio_device \<Rightarrow> int \<times> audio_device" where
  "in_ready h ad =
     (if si_standby (ad_in ad) then
        (case start_input_stream h ad of
           (r, ad1) \<Rightarrow> if r \<noteq> 0 then (r, ad1) else (0, ad1\<lparr>ad_in := (ad_in ad1)\<lparr>si_standby := False\<rparr>\<rparr>))
      else (0, ad))"

text \<open>Stereo samples are read into the capture buffer, which must be large enough.\<close>

definition capture :: "Hal \<Rightarrow> nat \<Rightarrow> stream_in \<Rightarrow> (int \<times> int list \<times> stream_in) option" where
  "capture h n s =
     (if si_resampler s then read_frames h n [] s
      else if channels (si_config s) = 2 then
        (if length (si_buffer s) < 2 * n then None
         else
           (case hl_read h (si_reads s) (2 * n) of
              (r, xs) \<Rightarrow>
                (let buf = xs @ drop (length xs) (si_buffer s) in
                 Some (r, map (\<lambda>i. buf ! (i * 2)) [0..<n], s\<lparr>si_buffer := buf, si_reads := Suc (si_reads s)\<rparr>))))
      else
        (case hl_read h (si_reads s) n of (r, xs) \<Rightarrow> Some (r, xs, s\<lparr>si_reads := Suc (si_reads s)\<rparr>)))"

definition in_read :: "Hal \<Rightarrow> nat \<Rightarrow> audio_device \<Rightarrow> (int \<times> int list \<times> audio_device) option" where
  "in_read h n ad =
     (case in_ready h ad of
        (r, ad1) \<Rightarrow>
          if r < 0 then Some (int (2 * n), [], ad1)
          else if si_pcm (ad_in ad1) \<noteq> Pcm then None
          else
            (case capture h n (ad_in ad1) of
               None \<Rightarrow> None
             | Some (q, xs, s) \<Rightarrow>
                 Some (int (2 * n), if 0 \<le> q \<and> mic_mute ad1 then replicate n 0 else xs, ad1\<lparr>ad_in := s\<rparr>)))"

section \<open>Settings\<close>

text \<open>Switching SCO on or off puts the stream into standby, since SCO has a PCM of its own.
  The value of the routing key, \<open>None\<close> when it is not there.\<close>

definition route_out :: "Hal \<Rightarrow> u32 \<Rightarrow> audio_device \<Rightarrow> audio_device" where
  "route_out h val ad =
     (if (val AND m_out_sco h) XOR (out_device ad AND m_out_sco h) \<noteq> 0 then do_out_standby ad else ad)\<lparr>out_device := val\<rparr>"

definition route_in :: "Hal \<Rightarrow> u32 \<Rightarrow> audio_device \<Rightarrow> audio_device" where
  "route_in h val ad =
     (if (val AND m_in_sco h) XOR (in_device ad AND m_in_sco h) \<noteq> 0 then do_in_standby ad else ad)\<lparr>in_device := val\<rparr>"

definition out_set_parameters :: "Hal \<Rightarrow> string option \<Rightarrow> audio_device \<Rightarrow> (set_call list \<times> audio_device) option" where
  "out_set_parameters h v ad =
     (case v of
        None \<Rightarrow> Some ([], ad)
      | Some t \<Rightarrow>
          (let val = word_of_int (atoi (take 31 t)) :: u32 in
           if out_device ad \<noteq> val \<and> val \<noteq> 0 then select_devices h (route_out h val ad) else Some ([], ad)))"

definition in_set_parameters :: "Hal \<Rightarrow> string option \<Rightarrow> audio_device \<Rightarrow> (set_call list \<times> audio_device) option" where
  "in_set_parameters h v ad =
     (case v of
        None \<Rightarrow> Some ([], ad)
      | Some t \<Rightarrow>
          (let val = (word_of_int (atoi (take 31 t)) :: u32) AND NOT (m_bit_in h) in
           if in_device ad \<noteq> val \<and> val \<noteq> 0 then select_devices h (route_in h val ad) else Some ([], ad)))"

definition adev_set_parameters :: "string option \<Rightarrow> audio_device \<Rightarrow> audio_device" where
  "adev_set_parameters v ad =
     (case v of None \<Rightarrow> ad | Some t \<Rightarrow> ad\<lparr>screen_off := (take 31 t \<noteq> ''on'')\<rparr>)"

definition adev_set_mic_mute :: "bool \<Rightarrow> audio_device \<Rightarrow> audio_device" where
  "adev_set_mic_mute b ad = ad\<lparr>mic_mute := b\<rparr>"

text \<open>Sizes are rounded up to 16 frames; the product is one of 32 bits.\<close>

definition round_frames :: "nat \<Rightarrow> nat" where
  "round_frames n = (n + 15) div 16 * 16"

definition in_get_buffer_size :: "stream_in \<Rightarrow> nat" where
  "in_get_buffer_size s =
     round_frames (unat (of_nat (period_size (si_config s)) * of_nat (requested_rate s) :: u32) div rate (si_config s)) * 2"

definition out_get_latency :: "Hal \<Rightarrow> audio_device \<Rightarrow> nat" where
  "out_get_latency h ad =
     period_size pcm_config_out *
       (if screen_off ad \<and> \<not> active_in ad \<and> \<not> out_sco h ad then OUT_LONG_PERIOD_COUNT else OUT_SHORT_PERIOD_COUNT) * 1000
       div rate pcm_config_out"

definition adev_open :: "Hal \<Rightarrow> nat \<Rightarrow> audio_route \<Rightarrow> audio_device" where
  "adev_open h req ar =
     \<lparr>out_device = m_out_speaker h, in_device = m_in_mic h AND NOT (m_bit_in h), mic_mute = False, screen_off = False,
      active_out = False, active_in = False, ad_route = ar,
      ad_out = \<lparr>so_pcm = NoPcm, so_config = pcm_config_out, so_standby = True, so_resampler = False,
                so_buffer_frames = 0, write_threshold = 0, cur_write_threshold = 0, so_buffer_type = BUF_UNKNOWN\<rparr>,
      ad_in = \<lparr>si_pcm = NoPcm, si_config = pcm_config_in, si_standby = True, requested_rate = req, si_resampler = False,
               si_buffer = [], frames_in = 0, read_status = 0, si_reads = 0\<rparr>\<rparr>"

section \<open>The left channel\<close>

definition left :: "int list \<Rightarrow> int list" where
  "left xs = map (\<lambda>i. xs ! (i * 2)) [0..<length xs div 2]"

lemma discard_right_map:
  "1 \<le> n \<Longrightarrow> 2 * n \<le> length xs + 1 \<Longrightarrow>
   discard_right n xs = map (\<lambda>j. if j < n then xs ! (j * 2) else xs ! j) [0..<length xs]"
proof (induction n)
  case (Suc n)
  show ?case
  proof (cases "n = 0")
    case True
    then show ?thesis by (intro nth_equalityI) (auto simp: discard_right_def)
  next
    case False
    then have "discard_right (Suc n) xs = (discard_right n xs)[n := discard_right n xs ! (n * 2)]"
      by (simp add: discard_right_def)
    then show ?thesis
      using Suc False by (intro nth_equalityI) (auto simp: nth_list_update)
  qed
qed simp

lemma length_discard_right [simp]: "length (discard_right n xs) = length xs"
proof -
  have "length (fold (\<lambda>i ys. ys[i := ys ! (i * 2)]) is xs) = length xs" for "is"
    by (induction "is" arbitrary: xs) simp_all
  then show ?thesis by (simp add: discard_right_def)
qed

lemma discard_right_left: "length xs = 2 * n \<Longrightarrow> take n (discard_right n xs) = left xs"
proof (cases n)
  case (Suc m)
  assume a: "length xs = 2 * n"
  then have "discard_right n xs = map (\<lambda>j. if j < n then xs ! (j * 2) else xs ! j) [0..<length xs]"
    using Suc by (intro discard_right_map) simp_all
  then show ?thesis using a by (intro nth_equalityI) (auto simp: left_def)
qed (simp add: left_def)

lemma length_left [simp]: "length (left xs) = length xs div 2"
  by (simp add: left_def)

section \<open>One group of rates\<close>

text \<open>What holds between two operations: a stream is active exactly when it is out of standby, its PCM
  is open and configured for where it is routed, and two open PCMs have one rate.\<close>

definition streams_ok :: "Hal \<Rightarrow> audio_device \<Rightarrow> bool" where
  "streams_ok h ad =
     (active_out ad = (\<not> so_standby (ad_out ad)) \<and> active_in ad = (\<not> si_standby (ad_in ad)) \<and>
      (if active_out ad then so_pcm (ad_out ad) = Pcm \<and>
         so_config (ad_out ad) = (if out_sco h ad then pcm_config_sco else pcm_config_out) else True) \<and>
      (if active_in ad then si_pcm (ad_in ad) = Pcm \<and>
         si_config (ad_in ad) = (if in_sco h ad then pcm_config_sco else pcm_config_in) else True) \<and>
      (if active_out ad \<and> active_in ad then rate (so_config (ad_out ad)) = rate (si_config (ad_in ad)) else True))"

lemma out_standby_ok: "streams_ok h ad \<Longrightarrow> streams_ok h (do_out_standby ad)"
  by (auto simp: streams_ok_def do_out_standby_def in_sco_def split: if_splits)

lemma in_standby_ok: "streams_ok h ad \<Longrightarrow> streams_ok h (do_in_standby ad)"
  by (auto simp: streams_ok_def do_in_standby_def out_sco_def split: if_splits)

lemma open_out_fields:
  "so_pcm (ad_out (open_out h b)) = Pcm" "so_config (ad_out (open_out h b)) = so_config (ad_out b)"
  "active_out (open_out h b)" "active_in (open_out h b) = active_in b" "ad_in (open_out h b) = ad_in b"
  "out_sco h (open_out h b) = out_sco h b" "in_sco h (open_out h b) = in_sco h b"
  by (simp_all add: open_out_def out_sco_def in_sco_def Let_def)

lemma open_in_fields:
  "si_pcm (ad_in (open_in h b)) = Pcm" "si_config (ad_in (open_in h b)) = si_config (ad_in b)"
  "active_in (open_in h b)" "active_out (open_in h b) = active_out b" "ad_out (open_in h b) = ad_out b"
  "out_sco h (open_in h b) = out_sco h b" "in_sco h (open_in h b) = in_sco h b"
  by (simp_all add: open_in_def out_sco_def in_sco_def Let_def)

lemma sco_fields [simp]:
  "out_sco h (ad\<lparr>ad_out := x\<rparr>) = out_sco h ad" "in_sco h (ad\<lparr>ad_out := x\<rparr>) = in_sco h ad"
  "out_sco h (ad\<lparr>ad_in := y\<rparr>) = out_sco h ad" "in_sco h (ad\<lparr>ad_in := y\<rparr>) = in_sco h ad"
  by (simp_all add: out_sco_def in_sco_def)

lemma out_opened_ok:
  assumes "streams_ok h b" and "so_standby (ad_out b)"
    and "so_config (ad_out b) = (if out_sco h b then pcm_config_sco else pcm_config_out)"
    and "active_in b \<longrightarrow> rate (so_config (ad_out b)) = rate (si_config (ad_in b))"
  shows "streams_ok h ((open_out h b)\<lparr>ad_out := (ad_out (open_out h b))\<lparr>so_standby := False\<rparr>\<rparr>)"
  using assms by (simp add: streams_ok_def open_out_fields)

lemma in_opened_ok:
  assumes "streams_ok h b" and "si_standby (ad_in b)"
    and "si_config (ad_in b) = (if in_sco h b then pcm_config_sco else pcm_config_in)"
    and "active_out b \<longrightarrow> rate (so_config (ad_out b)) = rate (si_config (ad_in b))"
  shows "streams_ok h ((open_in h b)\<lparr>ad_in := (ad_in (open_in h b))\<lparr>si_standby := False\<rparr>\<rparr>)"
  using assms by (simp add: streams_ok_def open_in_fields)

lemma out_ready_ok:
  assumes "streams_ok h ad" and "out_ready h ad = (r, ad1)"
  shows "streams_ok h ad1 \<and> (if r = 0 then active_out ad1 else True)"
proof (cases "so_standby (ad_out ad)")
  case True
  define a where "a = out_config h ad"
  define b where "b = (if active_in a \<and> rate_clash (so_config (ad_out a)) (si_config (ad_in a)) then do_in_standby a else a)"
  have a: "streams_ok h a" "so_standby (ad_out a)"
    "so_config (ad_out a) = (if out_sco h a then pcm_config_sco else pcm_config_out)"
    using assms(1) True by (auto simp: a_def out_config_def streams_ok_def out_sco_def in_sco_def)
  have b: "streams_ok h b" "so_standby (ad_out b)"
    "so_config (ad_out b) = (if out_sco h b then pcm_config_sco else pcm_config_out)"
    "active_in b \<longrightarrow> rate (so_config (ad_out b)) = rate (si_config (ad_in b))"
    using a in_standby_ok [OF a(1)]
    by (auto simp: b_def do_in_standby_def out_sco_def rate_clash_def streams_ok_def pcm_configs split: if_splits)
  have "start_output_stream h ad = (if hl_open h True b then (0, open_out h b)
         else (- ENOMEM, b\<lparr>ad_out := (ad_out b)\<lparr>so_pcm := ClosedPcm\<rparr>\<rparr>))"
    by (simp add: start_output_stream_def a_def b_def Let_def)
  moreover have "streams_ok h (b\<lparr>ad_out := (ad_out b)\<lparr>so_pcm := ClosedPcm\<rparr>\<rparr>)"
    using b(1,2) by (simp add: streams_ok_def)
  ultimately show ?thesis
    using assms(2) True out_opened_ok [OF b] by (auto simp: out_ready_def open_out_fields ENOMEM_def split: if_splits)
next
  case False
  then show ?thesis using assms by (auto simp: out_ready_def streams_ok_def)
qed

lemma in_ready_ok:
  assumes "streams_ok h ad" and "in_ready h ad = (r, ad1)"
  shows "streams_ok h ad1 \<and> (if r = 0 then active_in ad1 else True)"
proof (cases "si_standby (ad_in ad)")
  case True
  define a where "a = in_config h ad"
  define b where "b = (if active_out a \<and> rate_clash (si_config (ad_in a)) (so_config (ad_out a)) then do_out_standby a else a)"
  have a: "streams_ok h a" "si_standby (ad_in a)"
    "si_config (ad_in a) = (if in_sco h a then pcm_config_sco else pcm_config_in)"
    using assms(1) True by (auto simp: a_def in_config_def streams_ok_def out_sco_def in_sco_def)
  have b: "streams_ok h b" "si_standby (ad_in b)"
    "si_config (ad_in b) = (if in_sco h b then pcm_config_sco else pcm_config_in)"
    "active_out b \<longrightarrow> rate (so_config (ad_out b)) = rate (si_config (ad_in b))"
    using a out_standby_ok [OF a(1)]
    by (auto simp: b_def do_out_standby_def in_sco_def rate_clash_def streams_ok_def pcm_configs split: if_splits)
  have "start_input_stream h ad = (if hl_open h False b then (0, open_in h b)
         else (- ENOMEM, b\<lparr>ad_in := (ad_in b)\<lparr>si_pcm := ClosedPcm\<rparr>\<rparr>))"
    by (simp add: start_input_stream_def a_def b_def Let_def)
  moreover have "streams_ok h (b\<lparr>ad_in := (ad_in b)\<lparr>si_pcm := ClosedPcm\<rparr>\<rparr>)"
    using b(1,2) by (simp add: streams_ok_def)
  ultimately show ?thesis
    using assms(2) True in_opened_ok [OF b] by (auto simp: in_ready_def open_in_fields ENOMEM_def split: if_splits)
next
  case False
  then show ?thesis using assms by (auto simp: in_ready_def streams_ok_def)
qed

text \<open>Reading leaves the PCM, its configuration and the standby flag alone.\<close>

definition same_stream :: "stream_in \<Rightarrow> stream_in \<Rightarrow> bool" where
  "same_stream s t = (si_pcm t = si_pcm s \<and> si_config t = si_config s \<and> si_standby t = si_standby s)"

lemma get_next_same: "get_next_buffer h w s = (r, xs, t) \<Longrightarrow> same_stream s t"
  by (auto simp: same_stream_def get_next_buffer_def Let_def split: if_splits prod.splits)

lemma pull_same: "pull h w s = (xs, t) \<Longrightarrow> same_stream s t"
  by (auto simp: same_stream_def pull_def release_buffer_def dest!: get_next_same split: prod.splits)

lemma same_stream_trans: "same_stream s t \<Longrightarrow> same_stream t u \<Longrightarrow> same_stream s u"
  by (simp add: same_stream_def)

lemma pulls_same: "pulls h ws s = (xs, t) \<Longrightarrow> same_stream s t"
proof (induction ws arbitrary: s xs)
  case (Cons w ws)
  obtain ys u where u: "pull h w s = (ys, u)" by fastforce
  obtain zs where "pulls h ws u = (zs, t)" using Cons.prems u by (auto split: prod.splits)
  from same_stream_trans [OF pull_same [OF u] Cons.IH [OF this]] show ?case .
qed (simp add: same_stream_def)

lemma read_frames_same:
  assumes "read_frames h n acc s = Some r"
  shows "same_stream s (snd (snd r))"
proof (rule read_frames.raw_induct [OF _ assms, where P = "\<lambda>h n acc s r. same_stream s (snd (snd r))"])
  fix rf and h :: Hal and n acc s r
  assume IH: "\<And>h n acc s r. rf h n acc s = Some r \<Longrightarrow> same_stream s (snd (snd r))"
    and r: "(if length acc < n then
        (case (if si_resampler s then resample_from_provider h (n - length acc) s else pull h (n - length acc) s) of
           (xs, s1) \<Rightarrow> if read_status s1 \<noteq> 0 then Some (read_status s1, acc, s1) else rf h n (acc @ xs) s1)
      else Some (int (length acc), acc, s)) = Some r"
  obtain ys s1 where y: "(if si_resampler s then resample_from_provider h (n - length acc) s else pull h (n - length acc) s) = (ys, s1)"
    by fastforce
  then have s1: "same_stream s s1"
    by (auto simp: resample_from_provider_def dest: pulls_same pull_same split: if_splits prod.splits)
  show "same_stream s (snd (snd r))"
    using r y s1 same_stream_trans [OF s1 IH [of h n "acc @ ys" s1 r]] by (auto simp: same_stream_def split: if_splits)
qed

lemma capture_same: "capture h n s = Some (q, xs, t) \<Longrightarrow> same_stream s t"
  using read_frames_same [of h n "[]" s "(q, xs, t)"]
  by (auto simp: same_stream_def capture_def Let_def split: if_splits prod.splits)

datatype hw_event =
    Write "int list"
  | Read nat
  | OutStandby
  | InStandby
  | OutParams "string option"
  | InParams "string option"
  | Screen "string option"
  | Mute bool

fun hw_step :: "Hal \<Rightarrow> hw_event \<Rightarrow> audio_device \<Rightarrow> audio_device option" where
  "hw_step h (Write xs) ad = map_option (\<lambda>(r, ys, sl, ad1). ad1) (out_write h xs ad)"
| "hw_step h (Read n) ad = map_option (\<lambda>(r, xs, ad1). ad1) (in_read h n ad)"
| "hw_step h OutStandby ad = Some (do_out_standby ad)"
| "hw_step h InStandby ad = Some (do_in_standby ad)"
| "hw_step h (OutParams v) ad = map_option snd (out_set_parameters h v ad)"
| "hw_step h (InParams v) ad = map_option snd (in_set_parameters h v ad)"
| "hw_step h (Screen v) ad = Some (adev_set_parameters v ad)"
| "hw_step h (Mute b) ad = Some (adev_set_mic_mute b ad)"

lemma select_devices_ok: "select_devices h ad = Some (calls, ad1) \<Longrightarrow> streams_ok h ad \<Longrightarrow> streams_ok h ad1"
  by (auto simp: select_devices_def streams_ok_def out_sco_def in_sco_def Let_def split: option.splits prod.splits)

lemma streams_ok_in_cong:
  "si_pcm s = si_pcm (ad_in ad) \<Longrightarrow> si_config s = si_config (ad_in ad) \<Longrightarrow> si_standby s = si_standby (ad_in ad) \<Longrightarrow>
   streams_ok h (ad\<lparr>ad_in := s\<rparr>) = streams_ok h ad"
  by (simp add: streams_ok_def)

lemma streams_ok_out_cong:
  "so_pcm s = so_pcm (ad_out ad) \<Longrightarrow> so_config s = so_config (ad_out ad) \<Longrightarrow> so_standby s = so_standby (ad_out ad) \<Longrightarrow>
   streams_ok h (ad\<lparr>ad_out := s\<rparr>) = streams_ok h ad"
  by (simp add: streams_ok_def)

lemma adapt_adjust_ok:
  "streams_ok h ad \<Longrightarrow> streams_ok h (adapt_buffer h ad) \<and>
   streams_ok h (ad\<lparr>ad_out := adjust_threshold kf (ad_out ad)\<rparr>)"
proof -
  have "streams_ok h (adapt_buffer h ad) = streams_ok h ad"
    by (simp add: adapt_buffer_def Let_def streams_ok_out_cong)
  moreover have "streams_ok h (ad\<lparr>ad_out := adjust_threshold kf (ad_out ad)\<rparr>) = streams_ok h ad"
    by (rule streams_ok_out_cong) (simp_all add: adjust_threshold_def Let_def)
  ultimately show "streams_ok h ad \<Longrightarrow> ?thesis" by simp
qed

lemma out_write_ok:
  assumes "streams_ok h ad" and "out_write h xs ad = Some (r, ys, sl, t)"
  shows "streams_ok h t"
proof -
  obtain q ad1 where q: "out_ready h ad = (q, ad1)" by fastforce
  have 1: "streams_ok h ad1" using out_ready_ok [OF assms(1) q] by simp
  have 2: "streams_ok h (adapt_buffer h ad1)" using adapt_adjust_ok [OF 1] by simp
  from 1 2 adapt_adjust_ok [OF 2] show ?thesis
    using assms(2) q by (auto simp: out_write_def Let_def split: if_splits option.splits prod.splits)
qed

lemma in_read_ok:
  assumes "streams_ok h ad" and "in_read h n ad = Some (r, xs, t)"
  shows "streams_ok h t"
proof -
  obtain q ad1 where q: "in_ready h ad = (q, ad1)" by fastforce
  have 1: "streams_ok h ad1" using in_ready_ok [OF assms(1) q] by simp
  have "streams_ok h (ad1\<lparr>ad_in := s\<rparr>)" if "capture h n (ad_in ad1) = Some (e, ys, s)" for e ys s
    using 1 capture_same [OF that] by (simp add: streams_ok_in_cong same_stream_def)
  with 1 show ?thesis using assms(2) q by (auto simp: in_read_def split: if_splits option.splits prod.splits)
qed

lemma xor_zero: "((a :: u32) XOR b = 0) = (a = b)"
  by (auto simp: bit_eq_iff bit_simps)

lemma out_standby_active: "streams_ok h ad \<Longrightarrow> \<not> active_out (do_out_standby ad)"
  by (auto simp: streams_ok_def do_out_standby_def)

lemma in_standby_active: "streams_ok h ad \<Longrightarrow> \<not> active_in (do_in_standby ad)"
  by (auto simp: streams_ok_def do_in_standby_def)

lemma routed_in_sco: "in_sco h (ad\<lparr>out_device := v\<rparr>) = in_sco h ad" "out_sco h (ad\<lparr>in_device := v\<rparr>) = out_sco h ad"
  by (simp_all add: in_sco_def out_sco_def)

lemma out_routed_ok:
  assumes "streams_ok h ad"
  shows "streams_ok h (route_out h val ad)"
proof (cases "val AND m_out_sco h = out_device ad AND m_out_sco h")
  case True
  then have "out_sco h (ad\<lparr>out_device := val\<rparr>) = out_sco h ad" by (simp add: out_sco_def)
  then have "streams_ok h (ad\<lparr>out_device := val\<rparr>) = streams_ok h ad" by (simp add: streams_ok_def routed_in_sco)
  then show ?thesis using True assms by (simp add: route_out_def)
next
  case False
  have "streams_ok h (a\<lparr>out_device := val\<rparr>) = streams_ok h a" if "\<not> active_out a" for a
    using that by (simp add: streams_ok_def routed_in_sco)
  then show ?thesis
    using False out_standby_ok [OF assms] out_standby_active [OF assms] by (simp add: route_out_def xor_zero)
qed

lemma in_routed_ok:
  assumes "streams_ok h ad"
  shows "streams_ok h (route_in h val ad)"
proof (cases "val AND m_in_sco h = in_device ad AND m_in_sco h")
  case True
  then have "in_sco h (ad\<lparr>in_device := val\<rparr>) = in_sco h ad" by (simp add: in_sco_def)
  then have "streams_ok h (ad\<lparr>in_device := val\<rparr>) = streams_ok h ad" by (simp add: streams_ok_def routed_in_sco)
  then show ?thesis using True assms by (simp add: route_in_def)
next
  case False
  have "streams_ok h (a\<lparr>in_device := val\<rparr>) = streams_ok h a" if "\<not> active_in a" for a
    using that by (simp add: streams_ok_def routed_in_sco)
  then show ?thesis
    using False in_standby_ok [OF assms] in_standby_active [OF assms] by (simp add: route_in_def xor_zero)
qed

lemma flag_ok: "streams_ok h (ad\<lparr>screen_off := b\<rparr>) = streams_ok h ad" "streams_ok h (ad\<lparr>mic_mute := b\<rparr>) = streams_ok h ad"
  by (simp_all add: streams_ok_def in_sco_def out_sco_def)

interpretation streams: partial_stepper "hw_step h" "streams_ok h" for h
proof unfold_locales
  fix s e t assume ok: "streams_ok h s" and st: "hw_step h e s = Some t"
  show "streams_ok h t"
  proof (cases e)
    case (OutParams v)
    then show ?thesis
      using ok st out_routed_ok [OF ok] by (auto simp: out_set_parameters_def Let_def dest: select_devices_ok split: option.splits if_splits)
  next
    case (InParams v)
    then show ?thesis
      using ok st in_routed_ok [OF ok] by (auto simp: in_set_parameters_def Let_def dest: select_devices_ok split: option.splits if_splits)
  next
    case (Write xs)
    then show ?thesis using ok st out_write_ok [of h s xs] by auto
  next
    case (Read n)
    then show ?thesis using ok st in_read_ok [of h s n] by auto
  qed (use ok st out_standby_ok in_standby_ok in
      \<open>auto simp: adev_set_parameters_def adev_set_mic_mute_def flag_ok split: option.splits\<close>)
qed

text \<open>C10: whatever the streams are asked to do, and whether or not the PCMs can be opened, between two
  operations a stream is active exactly when it is out of standby, its PCM is then the one it is
  routed to, and when both directions are active they run at one rate: starting one at a rate of the
  other group has put the other into standby.\<close>

theorem one_rate_group:
  "case foldM (hw_step h) es (adev_open h req ar) of
     None \<Rightarrow> True
   | Some ad \<Rightarrow>
       active_out ad = (\<not> so_standby (ad_out ad)) \<and> active_in ad = (\<not> si_standby (ad_in ad)) \<and>
       (if active_out ad
        then so_pcm (ad_out ad) = Pcm \<and> rate (so_config (ad_out ad)) = (if out_sco h ad then 8000 else 44100) else True) \<and>
       (if active_in ad
        then si_pcm (ad_in ad) = Pcm \<and> rate (si_config (ad_in ad)) = (if in_sco h ad then 8000 else 44100) else True) \<and>
       (if active_out ad \<and> active_in ad then rate (so_config (ad_out ad)) = rate (si_config (ad_in ad)) else True)"
proof (cases "foldM (hw_step h) es (adev_open h req ar)")
  case (Some ad)
  have "streams_ok h (adev_open h req ar)" by (simp add: streams_ok_def adev_open_def)
  from streams.prun_inv [OF this Some] show ?thesis
    unfolding Some streams_ok_def by (auto simp: pcm_configs split: if_splits)
qed simp

section \<open>Pacing\<close>

text \<open>No fill level that the driver reports is more than 2147 seconds of sound above the threshold.\<close>

definition fill_in_time :: "Hal \<Rightarrow> stream_out \<Rightarrow> bool" where
  "fill_in_time h s =
     (\<forall>k a. hl_avail h k = Some a \<longrightarrow>
        - 2147483648 \<le> hl_size h - a \<and> hl_size h - a < 2147483648 \<and>
        hl_size h - a - cur_write_threshold s \<le> 2147 * int (rate (so_config s)) \<and>
        2147 * int (rate (so_config s)) < 2147483648)"

lemma sleep_time_fits:
  assumes "0 < d" and "d \<le> 2147 * int r"
  shows "sleep_time d r \<le> 2147000000" "0 \<le> sleep_time d r" "wrap32 (sleep_time d r) = sleep_time d r"
proof -
  have r: "0 < int r" using assms by linarith
  have "d * 1000000 div int r \<le> 2147 * int r * 1000000 div int r" using assms r by (intro zdiv_mono1) simp_all
  also have "\<dots> = 2147000000" using r by simp
  finally have le: "d * 1000000 div int r \<le> 2147000000" .
  have "0 \<le> d * 1000000 div int r" using assms(1) r by (simp add: pos_imp_zdiv_nonneg_iff)
  then show "sleep_time d r \<le> 2147000000" "0 \<le> sleep_time d r" "wrap32 (sleep_time d r) = sleep_time d r"
    using le assms(1) by (simp_all add: sleep_time_def wrap32_id)
qed

lemma throttle_bounded:
  assumes "fill_in_time h s"
    and "sum_list sleeps = tot" and "tot \<le> MAX_WRITE_SLEEP_US" and "2000 * int (length sleeps) \<le> tot"
    and "list_all (\<lambda>x. 0 \<le> x) sleeps"
  shows "\<exists>kf1 sl. throttle h (cur_write_threshold s) (rate (so_config s)) kf k tot sleeps = Some (kf1, sl) \<and>
    sum_list sl \<le> MAX_WRITE_SLEEP_US \<and> 2000 * (int (length sl) - 1) \<le> MAX_WRITE_SLEEP_US \<and> list_all (\<lambda>x. 0 \<le> x) sl"
  using assms(2-5)
proof (induction "nat (MAX_WRITE_SLEEP_US + 1 - tot)" arbitrary: kf k tot sleeps rule: less_induct)
  case less
  let ?cur = "cur_write_threshold s" and ?r = "rate (so_config s)"
  have tot: "0 \<le> tot" "tot \<le> 23219" using less.prems by (simp_all add: MAX_WRITE_SLEEP_US_def)
  show ?case
  proof (cases "hl_avail h k")
    case None
    then show ?thesis using less.prems by (simp add: throttle.simps)
  next
    case (Some a)
    define f where "f = hl_size h - a"
    define w where "w = sleep_time (f - ?cur) ?r"
    have f: "wrap32 f = f" "f - ?cur \<le> 2147 * int ?r" "2147 * int ?r < 2147483648"
      using assms(1) Some by (auto simp: fill_in_time_def f_def wrap32_id)
    show ?thesis
    proof (cases "?cur < f")
      case False
      then show ?thesis using less.prems f(1) Some by (simp add: throttle.simps f_def [symmetric])
    next
      case True
      then have d: "wrap32 (f - ?cur) = f - ?cur" using f by (simp add: wrap32_id)
      have w: "0 \<le> w" "w \<le> 2147000000" "wrap32 w = w" using sleep_time_fits [of "f - ?cur" ?r] f True by (simp_all add: w_def)
      then have wt: "wrap32 (tot + w) = tot + w" using tot by (simp add: wrap32_id)
      have wm: "wrap32 tot = tot" "wrap32 (MAX_WRITE_SLEEP_US - tot) = MAX_WRITE_SLEEP_US - tot"
        using tot by (simp_all add: wrap32_id MAX_WRITE_SLEEP_US_def)
      have t: "throttle h ?cur ?r kf k tot sleeps =
          (if w < 2000 then Some (f, sleeps)
           else if tot + w > MAX_WRITE_SLEEP_US then Some (f, sleeps @ [MAX_WRITE_SLEEP_US - tot])
           else throttle h ?cur ?r f (Suc k) (tot + w) (sleeps @ [w]))"
        using True by (simp add: throttle.simps [of h ?cur ?r kf] Some f_def [symmetric] f(1) d w_def [symmetric] wt wm MIN_WRITE_SLEEP_US_def)
      show ?thesis
      proof (cases "w < 2000 \<or> tot + w > MAX_WRITE_SLEEP_US")
        case True
        then show ?thesis using t less.prems by auto
      next
        case False
        then show ?thesis using less.hyps [of "tot + w" "sleeps @ [w]" f "Suc k"] t w(1) less.prems by (simp add: nat_less_iff)
      qed
    qed
  qed
qed

text \<open>C31: A write waits a bounded time for room in the driver's buffer, whatever fill levels the driver reports, as long as
  they are at most 2147 seconds of sound above the threshold: the wait ends, after at most twelve sleeps and at most 23219
  microseconds in all, which is the length of two periods, and it never sleeps a negative time. Beyond that bound the sum of the
  sleeps can leave the 32 bits of an \<open>int\<close>.\<close>

theorem write_wait_bounded:
  assumes "fill_in_time h (ad_out (adapt_buffer h (snd (out_ready h ad))))"
  shows "(let s = ad_out (adapt_buffer h (snd (out_ready h ad))) in
            \<exists>kf sl. throttle h (cur_write_threshold s) (rate (so_config s)) (wrap32 (hl_garbage h)) 0 0 [] = Some (kf, sl)) \<and>
         (case out_write h xs ad of
            None \<Rightarrow> True
          | Some (r, ys, sleeps, ad1) \<Rightarrow>
              sum_list sleeps \<le> 23219 \<and> length sleeps \<le> 12 \<and> list_all (\<lambda>x. 0 \<le> x) sleeps)"
proof -
  obtain q ad1 where q: "out_ready h ad = (q, ad1)" by fastforce
  let ?s = "ad_out (adapt_buffer h ad1)"
  obtain kf sl where t: "throttle h (cur_write_threshold ?s) (rate (so_config ?s)) (wrap32 (hl_garbage h)) 0 0 [] = Some (kf, sl)"
    "sum_list sl \<le> 23219" "length sl \<le> 12" "list_all (\<lambda>x. 0 \<le> x) sl"
    using throttle_bounded [of h ?s "[]" 0 "wrap32 (hl_garbage h)" 0] assms by (auto simp: q MAX_WRITE_SLEEP_US_def)
  then show ?thesis
    by (auto simp: out_write_def q Let_def split: option.splits prod.splits if_splits)
qed

text \<open>A driver that reports 900 and then 94703500 frames above the threshold: the sum of the sleeps wraps, and the write sleeps
  for 35 minutes.\<close>

lemma write_wait_overflows:
  assumes "hl_size h = 94703500" and "hl_avail h = (\<lambda>k. if k = 0 then Some 94702600 else if k = 1 then Some 0 else None)"
  shows "throttle h 0 44100 kf 0 0 [] = Some (94703500, [20408, 2147471655])"
  using assms
  by (simp add: throttle.simps sleep_time_def wrap32_id MIN_WRITE_SLEEP_US_def MAX_WRITE_SLEEP_US_def)
    (simp add: wrap32_def throttle.simps)

lemma adjust_frame [simp]:
  "write_threshold (adjust_threshold kf s) = write_threshold s" "so_config (adjust_threshold kf s) = so_config s"
  by (simp_all add: adjust_threshold_def Let_def)

text \<open>Before the target is reached, the n-th adjustment is n quarters of a period nearer to it.\<close>

lemma threshold_approach:
  assumes "p = int (period_size (so_config s)) div 4" and "0 < p"
    and "int n * p < \<bar>cur_write_threshold s - write_threshold s\<bar> + p"
  shows "cur_write_threshold (fold adjust_threshold (replicate n kf) s) =
    (if write_threshold s < cur_write_threshold s
     then max (write_threshold s) (cur_write_threshold s - int n * p)
     else min (write_threshold s) (cur_write_threshold s + int n * p))"
  using assms
proof (induction n arbitrary: s)
  case (Suc n)
  let ?t = "adjust_threshold kf s" and ?w = "write_threshold s" and ?c = "cur_write_threshold s"
  have ne: "?c \<noteq> ?w"
  proof
    assume "?c = ?w"
    then have "int (Suc n) * p < p" using Suc.prems(3) by simp
    moreover have "p \<le> int (Suc n) * p" using Suc.prems(2) by (simp add: algebra_simps)
    ultimately show False by simp
  qed
  have t: "cur_write_threshold ?t = (if ?w < ?c then max ?w (?c - p) else min ?w (?c + p))"
    using ne Suc.prems(1) by (auto simp: adjust_threshold_def Let_def)
  show ?case
  proof (cases "n = 0")
    case True
    then show ?thesis using t by simp
  next
    case False
    define q where "q = int n * p"
    have q: "p \<le> q" "q < \<bar>?c - ?w\<bar>" "int (Suc n) * p = p + q"
      using False Suc.prems(2,3) by (auto simp: q_def algebra_simps)
    have ct: "cur_write_threshold ?t = (if ?w < ?c then ?c - p else ?c + p)"
      using t q(1,2) by auto
    have "q < \<bar>cur_write_threshold ?t - write_threshold ?t\<bar> + p" using q(1,2) by (auto simp: ct)
    with Suc.IH [of ?t] Suc.prems(1,2)
    have ih: "cur_write_threshold (fold adjust_threshold (replicate n kf) ?t) =
      (if ?w < cur_write_threshold ?t then max ?w (cur_write_threshold ?t - q) else min ?w (cur_write_threshold ?t + q))"
      by (simp add: q_def)
    show ?thesis
    proof (cases "?w < ?c")
      case True
      then have "?w < ?c - p" using q(1,2) by simp
      then show ?thesis using ih ct True q(3) by (simp add: algebra_simps)
    next
      case less: False
      then have "?c + p < ?w" using q(1,2) by simp
      then show ?thesis using ih ct less q(3) by (simp add: algebra_simps)
    qed
  qed
qed simp

section \<open>Frames of the capture buffer\<close>

text \<open>The left channels of the periods that are read successfully, from the k-th read on.\<close>

definition captured :: "Hal \<Rightarrow> nat \<Rightarrow> nat \<Rightarrow> nat \<Rightarrow> int list" where
  "captured h p k m =
     concat (map (\<lambda>j. case hl_read h j (p * 2) of (r, xs) \<Rightarrow> if r = 0 then left xs else []) [k..<k + m])"

text \<open>What the provider still has to hand out when m more reads are made.\<close>

definition pending :: "Hal \<Rightarrow> stream_in \<Rightarrow> nat \<Rightarrow> int list" where
  "pending h s m =
     (let p = period_size (si_config s) in
      (if frames_in s = 0 then [] else drop (p - frames_in s) (take p (si_buffer s))) @ captured h p (si_reads s) m)"

definition buffer_ok :: "stream_in \<Rightarrow> bool" where
  "buffer_ok s =
     (si_pcm s \<noteq> NoPcm \<and> channels (si_config s) = 2 \<and> frames_in s \<le> period_size (si_config s) \<and>
      (frames_in s \<noteq> 0 \<longrightarrow> length (si_buffer s) = 2 * period_size (si_config s)))"

lemma captured_Suc: "captured h p k (Suc m) =
    (case hl_read h k (p * 2) of (r, xs) \<Rightarrow> if r = 0 then left xs else []) @ captured h p (Suc k) m"
  by (simp add: captured_def upt_conv_Cons del: upt_Suc)

lemma drop_rest:
  assumes "l \<le> f" and "f \<le> p" and "length ys = p"
  shows "(if f - l = 0 then [] else drop (p - (f - l)) ys) = drop l (drop (p - f) ys)"
proof (cases "l = f")
  case False
  have "p - (f - l) = l + (p - f)" using assms by simp
  then show ?thesis using False assms(1) by (simp add: drop_drop)
qed (use assms in simp)

lemma pull_pending:
  assumes "buffer_ok s" and "\<And>k. length (snd (hl_read h k (period_size (si_config s) * 2))) = 2 * period_size (si_config s)"
    and "pull h w s = (xs, t)"
  shows "buffer_ok t \<and> si_config t = si_config s \<and> si_reads s \<le> si_reads t \<and>
    xs @ pending h t m = pending h s (si_reads t - si_reads s + m)"
proof -
  let ?p = "period_size (si_config s)"
  obtain r d where rd: "hl_read h (si_reads s) (?p * 2) = (r, d)" by fastforce
  have d: "length d = 2 * ?p" using assms(2) [of "si_reads s"] rd by simp
  have buf: "take n (discard_right ?p d) = take n (left d)" if "n \<le> ?p" for n
    using discard_right_left [of d ?p] d that by (metis min.absorb1 take_take)
  show ?thesis
  proof (cases "frames_in s = 0")
    case z: True
    show ?thesis
    proof (cases "r = 0")
      case False
      then show ?thesis
        using assms(1,3) z rd
        by (auto simp: pull_def get_next_buffer_def release_buffer_def buffer_ok_def pending_def captured_Suc Let_def)
    next
      case True
      have p: "xs = take (min w ?p) (left d)"
        "t = s\<lparr>read_status := 0, si_reads := Suc (si_reads s), si_buffer := discard_right ?p d,
             frames_in := ?p - length xs\<rparr>"
        using assms(1,3) z rd True buf [of "min w ?p"] d
        by (auto simp: pull_def get_next_buffer_def release_buffer_def buffer_ok_def Let_def)
      have l: "length xs = min w ?p" using p(1) d by simp
      have "xs @ (if ?p - length xs = 0 then [] else drop (length xs) (left d)) = left d"
        using l p(1) d by auto
      then show ?thesis
        using assms(1) p(2) l d buf [of ?p] z rd True
        by (auto simp: buffer_ok_def pending_def captured_Suc Let_def)
    qed
  next
    case False
    let ?rest = "drop (?p - frames_in s) (take ?p (si_buffer s))"
    have b: "length (si_buffer s) = 2 * ?p" "frames_in s \<le> ?p" using assms(1) False by (simp_all add: buffer_ok_def)
    have p: "xs = take (min w (frames_in s)) ?rest" "t = s\<lparr>frames_in := frames_in s - length xs\<rparr>"
      using assms(1,3) False b
      by (auto simp: pull_def get_next_buffer_def release_buffer_def buffer_ok_def Let_def take_drop min_def)
    have l: "length xs = min w (frames_in s)" using p(1) b by simp
    have r: "length ?rest = frames_in s" using b by simp
    have d: "(if frames_in s - length xs = 0 then [] else drop (?p - (frames_in s - length xs)) (take ?p (si_buffer s)))
        = drop (length xs) ?rest" (is "?D = _")
      using l b by (intro drop_rest) simp_all
    have "xs = take (length xs) ?rest" using p(1) r by (simp add: min_def)
    then have "xs @ ?D = take (length xs) ?rest @ ?D" by (rule arg_cong [where f = "\<lambda>ys. ys @ ?D"])
    also have "\<dots> = take (length xs) ?rest @ drop (length xs) ?rest" by (simp only: d)
    also have "\<dots> = ?rest" by (rule append_take_drop_id)
    finally have "xs @ ?D = ?rest" .
    then show ?thesis using assms(1) p(2) l False by (auto simp: buffer_ok_def pending_def Let_def)
  qed
qed

text \<open>C11: the provider that feeds the capture resampler loses nothing and repeats nothing: whatever sizes
  the resampler asks for, and whichever reads of the driver fail in between, the frames it gets
  followed by those still to come are the left channels of the periods read successfully, in order.\<close>

theorem provider_lossless:
  assumes "buffer_ok s" and "\<And>k. length (snd (hl_read h k (period_size (si_config s) * 2))) = 2 * period_size (si_config s)"
    and "pulls h ws s = (xs, t)"
  shows "buffer_ok t \<and> si_reads s \<le> si_reads t \<and>
    xs @ pending h t m = pending h s (si_reads t - si_reads s + m)"
  using assms
proof (induction ws arbitrary: s xs)
  case (Cons w ws)
  obtain ys u where u: "pull h w s = (ys, u)" by fastforce
  obtain zs where zs: "pulls h ws u = (zs, t)" "xs = ys @ zs" using Cons.prems(3) u by (auto split: prod.splits)
  note 1 = pull_pending [OF Cons.prems(1,2) u]
  have 2: "buffer_ok t \<and> si_reads u \<le> si_reads t \<and> zs @ pending h t m = pending h u (si_reads t - si_reads u + m)"
    using 1 Cons.prems(2) by (intro Cons.IH [OF _ _ zs(1)]) simp_all
  have "xs @ pending h t m = ys @ pending h u (si_reads t - si_reads u + m)" using 2 zs(2) by simp
  also have "\<dots> = pending h s (si_reads u - si_reads s + (si_reads t - si_reads u + m))"
    using 1 [of "si_reads t - si_reads u + m"] by (simp only:)
  also have "si_reads u - si_reads s + (si_reads t - si_reads u + m) = si_reads t - si_reads s + m"
    using 1 [of 0] 2 by simp
  finally show ?case using 1 [of 0] 2 by (meson le_trans)
qed simp

definition demo_hal :: Hal where
  "demo_hal =
     \<lparr>m_out_sco = 0x70, m_out_wired = 0xC, m_out_speaker = 0x2, m_in_sco = 0x8, m_in_mic = 0x80000004,
      m_bit_in = 0x80000000, hl_mixer = demo_mixer, hl_open = (\<lambda>b ad. True), hl_resampler = True,
      hl_read = (\<lambda>k n. (if k = 1 then - 5 else 0, map (\<lambda>i. int i + 20 * int k) [0..<n])),
      hl_requests = (\<lambda>n s. [n]), hl_convert = (\<lambda>n xs. xs), hl_avail = (\<lambda>k. Some 4096), hl_size = 4096,
      hl_garbage = 0, hl_resample = (\<lambda>xs. xs), hl_write = (\<lambda>xs. 0)\<rparr>"

definition small_in :: stream_in where
  "small_in =
     \<lparr>si_pcm = Pcm, si_config = \<lparr>channels = 2, rate = 8, period_size = 4, period_count = 4\<rparr>, si_standby = False,
      requested_rate = 4, si_resampler = True, si_buffer = [], frames_in = 0, read_status = 0, si_reads = 0\<rparr>"

lemma small_pulls: "si_reads (snd (pulls demo_hal [3, 3, 2, 9] small_in)) = 3"
  by code_simp

text \<open>Two successful reads around a failed one.\<close>

theorem provider_lossless_witness:
  "case pulls demo_hal [3, 3, 2, 9] small_in of
     (xs, t) \<Rightarrow> xs @ pending demo_hal t 0 = [0, 2, 4, 6, 40, 42, 44, 46]"
proof -
  obtain xs t where p: "pulls demo_hal [3, 3, 2, 9] small_in = (xs, t)" by fastforce
  have b: "buffer_ok small_in" by (simp add: buffer_ok_def small_in_def)
  have l: "length (snd (hl_read demo_hal k (period_size (si_config small_in) * 2))) = 2 * period_size (si_config small_in)" for k
    by (simp add: demo_hal_def small_in_def)
  have "pending demo_hal small_in 3 = [0, 2, 4, 6, 40, 42, 44, 46]" by code_simp
  then show ?thesis
    using provider_lossless [OF b l p, of 0] small_pulls unfolding p by (simp add: small_in_def del: pulls.simps)
qed

section \<open>Routes\<close>

definition route_values :: "audio_route \<Rightarrow> string \<Rightarrow> (ctl \<times> int) list" where
  "route_values ar name =
     (case path_get_by_name ar name of
        None \<Rightarrow> [] | Some i \<Rightarrow> path_values (items (mp_setting (items (ar_path ar) ! i))))"

definition routes_known :: "audio_route \<Rightarrow> bool" where
  "routes_known ar =
     (routes_wf ar \<and> distinct (map ms_ctl (ar_state ar)) \<and>
      list_all (\<lambda>p. list_all (\<lambda>s. st_ctl s \<in> set (map ms_ctl (ar_state ar))) (items (mp_setting p))) (items (ar_path ar)))"

lemma path_get_state [simp]: "path_get_by_name (ar\<lparr>ar_state := x\<rparr>) n = path_get_by_name ar n"
  by (simp add: path_get_by_name_def)

lemma route_values_state [simp]: "route_values (ar\<lparr>ar_state := x\<rparr>) n = route_values ar n"
  by (simp add: route_values_def split: option.splits)

lemma pick_nil: "map (pick []) ms = ms"
  by (rule map_idI) (simp add: pick_def)

lemma apply_path_pick:
  assumes "routes_known ar"
  shows "audio_route_apply_path name ar = Some (ar\<lparr>ar_state := map (pick (route_values ar name)) (ar_state ar)\<rparr>)"
proof (cases "path_get_by_name ar name")
  case None
  then show ?thesis by (simp add: audio_route_apply_path_def route_values_def pick_nil)
next
  case (Some i)
  let ?ss = "items (mp_setting (items (ar_path ar) ! i))"
  have i: "i < length (items (ar_path ar))" using Some by (auto simp: path_get_by_name_def Let_def split: if_splits)
  have "distinct (map st_ctl ?ss)" "set (map st_ctl ?ss) \<subseteq> set (map ms_ctl (ar_state ar))"
    using assms i by (auto simp: routes_known_def routes_wf_def setting_keys_def list_all_length in_set_conv_nth)
  then show ?thesis
    using assms Some path_apply_map [of "ar_state ar" ?ss]
    by (simp add: audio_route_apply_path_def route_values_def routes_known_def)
qed

lemma pick_ctl [simp]: "ms_ctl (pick vs m) = ms_ctl m" "old_value (pick vs m) = old_value m"
  by (simp_all add: pick_def split: option.splits)

lemma apply_paths_pick:
  "routes_known ar \<Longrightarrow> foldM audio_route_apply_path names ar =
    Some (ar\<lparr>ar_state := map (\<lambda>m. fold (\<lambda>n. pick (route_values ar n)) names m) (ar_state ar)\<rparr>)"
proof (induction names arbitrary: ar)
  case (Cons n names)
  let ?ar = "ar\<lparr>ar_state := map (pick (route_values ar n)) (ar_state ar)\<rparr>"
  have "routes_known ?ar" using Cons.prems by (simp add: routes_known_def routes_wf_def path_names_def comp_def)
  from Cons.IH [OF this] have "foldM audio_route_apply_path names ?ar =
      Some (?ar\<lparr>ar_state := map (\<lambda>m. fold (\<lambda>n. pick (route_values ?ar n)) names m) (ar_state ?ar)\<rparr>)" .
  then show ?case using apply_path_pick [OF Cons.prems, of n] by (simp add: comp_def)
qed simp

lemma fold_pick:
  "ms_ctl (fold (\<lambda>n. pick (f n)) names m) = ms_ctl m \<and>
   new_value (fold (\<lambda>n. pick (f n)) names m) =
     fold (\<lambda>n v. case map_of (f n) (ms_ctl m) of None \<Rightarrow> v | Some x \<Rightarrow> x) names (new_value m)"
proof (induction names arbitrary: m)
  case (Cons n names)
  then show ?case by (simp add: pick_def split: option.splits)
qed simp

text \<open>C17: a new playback device reroutes the mixer as a whole: afterwards every control holds the value of
  the last of the paths for the devices in use that names it (speaker, headphone, microphone, in this
  order), every other control its reset value; nothing is left to be written, and of the device
  nothing changes but what the switch itself does.\<close>

theorem routing_applied:
  assumes "routes_known (ad_route ad)" and "word_of_int (atoi (take 31 v)) = val"
    and "out_device ad \<noteq> val" and "val \<noteq> 0"
  shows "case out_set_parameters h (Some v) ad of
      None \<Rightarrow> False
    | Some (calls, ad1) \<Rightarrow>
        map (\<lambda>m. (ms_ctl m, old_value m)) (ar_state (ad_route ad1)) =
          map (\<lambda>m. (ms_ctl m, fold (\<lambda>n v. case map_of (route_values (ad_route ad) n) (ms_ctl m) of None \<Rightarrow> v | Some x \<Rightarrow> x)
              (route_names h (route_out h val ad)) (reset_value m))) (ar_state (ad_route ad)) \<and>
        update_mixer_state (hl_mixer h) (ar_state (ad_route ad1)) = ([], ar_state (ad_route ad1)) \<and>
        ad1\<lparr>ad_route := ad_route ad\<rparr> = route_out h val ad"
proof -
  let ?r = "route_out h val ad"
  let ?ar = "(ad_route ad)\<lparr>ar_state := reset_mixer_state (ar_state (ad_route ad))\<rparr>"
  have r: "ad_route ?r = ad_route ad" by (simp add: route_out_def do_out_standby_def)
  have k: "routes_known ?ar"
    using assms(1) by (simp add: routes_known_def routes_wf_def path_names_def reset_mixer_state_def comp_def)
  have o: "out_set_parameters h (Some v) ad = select_devices h ?r"
    using assms(2-4) by (simp add: out_set_parameters_def Let_def)
  have u: "ms_ctl (snd (update_ctl mx m)) = ms_ctl m" "old_value (snd (update_ctl mx m)) = new_value m"
    "update_ctl mx (snd (update_ctl mx m)) = ([], snd (update_ctl mx m))" for mx m
    by (simp_all add: update_ctl_def)
  define ms where "ms = map (\<lambda>m. fold (\<lambda>n. pick (route_values (ad_route ad) n)) (route_names h ?r) m) (ar_state ?ar)"
  have f: "foldM audio_route_apply_path (route_names h ?r) ?ar = Some ((ad_route ad)\<lparr>ar_state := ms\<rparr>)"
    using apply_paths_pick [OF k, of "route_names h ?r"] by (simp add: ms_def)
  have n: "map (\<lambda>m. (ms_ctl m, new_value m)) ms =
      map (\<lambda>m. (ms_ctl m, fold (\<lambda>n v. case map_of (route_values (ad_route ad) n) (ms_ctl m) of None \<Rightarrow> v | Some x \<Rightarrow> x)
              (route_names h ?r) (reset_value m))) (ar_state (ad_route ad))"
    by (simp add: ms_def reset_mixer_state_def comp_def fold_pick)
  have s: "out_set_parameters h (Some v) ad =
      Some (fst (update_mixer_state (hl_mixer h) ms), ?r\<lparr>ad_route := (ad_route ad)\<lparr>ar_state := snd (update_mixer_state (hl_mixer h) ms)\<rparr>\<rparr>)"
    unfolding o by (simp add: select_devices_def r f Let_def split: prod.splits)
  have i: "?r\<lparr>ad_route := x, ad_route := ad_route ad\<rparr> = ?r" for x
    using r by (cases ?r) simp
  have m: "map (\<lambda>m. (ms_ctl m, old_value m)) (snd (update_mixer_state (hl_mixer h) ms)) = map (\<lambda>m. (ms_ctl m, new_value m)) ms"
    "update_mixer_state (hl_mixer h) (snd (update_mixer_state (hl_mixer h) ms)) = ([], snd (update_mixer_state (hl_mixer h) ms))"
    by (simp_all add: update_mixer_state_def u comp_def)
  show ?thesis unfolding s using m n i by simp
qed

text \<open>A driver whose buffer is full when the first write comes: one sleep of the longest time.\<close>

theorem write_wait_bounded_witness:
  "case out_write (demo_hal\<lparr>hl_avail := (\<lambda>k. Some 0)\<rparr>) [1, 2] (adev_open demo_hal 8000 demo_route) of
     None \<Rightarrow> False
   | Some (r, ys, sleeps, ad1) \<Rightarrow> sleeps = [23219] \<and> sum_list sleeps \<le> 23219"
proof -
  let ?h = "demo_hal\<lparr>hl_avail := (\<lambda>k. Some 0)\<rparr>" and ?ad = "adev_open demo_hal 8000 demo_route"
  let ?s = "ad_out (adapt_buffer ?h (snd (out_ready ?h ?ad)))"
  have s: "cur_write_threshold ?s = 1024" "so_config ?s = pcm_config_out" "so_pcm ?s = Pcm"
    "fst (out_ready ?h ?ad) = 0" "\<not> out_sco ?h (adapt_buffer ?h (snd (out_ready ?h ?ad)))"
    by (simp_all add: out_ready_def start_output_stream_def out_config_def open_out_def adapt_buffer_def adev_open_def
        out_sco_def pcm_config_out_def out_get_sample_rate_def OUT_SHORT_PERIOD_COUNT_def demo_hal_def Let_def)
  have h: "hl_size ?h = 4096" "hl_avail ?h k = Some 0" for k by (simp_all add: demo_hal_def)
  have f: "fill_in_time ?h ?s" by (simp add: fill_in_time_def s h pcm_config_out_def)
  have t: "throttle ?h 1024 44100 kf 0 0 [] = Some (4096, [23219])" for kf
    using h by (subst throttle.simps) (simp add: sleep_time_def wrap32_id MIN_WRITE_SLEEP_US_def MAX_WRITE_SLEEP_US_def)
  have y: "out_samples ?h [1, 2] ?s = Some [1, 2]"
    by (simp add: out_samples_def s pcm_config_out_def out_get_sample_rate_def)
  have "\<exists>r ys ad1. out_write ?h [1, 2] ?ad = Some (r, ys, [23219], ad1)"
  proof -
    obtain ad1 where q: "out_ready ?h ?ad = (0, ad1)" using s(4) by (cases "out_ready ?h ?ad") simp
    show ?thesis using s t y unfolding q by (simp add: out_write_def q Let_def pcm_config_out_def)
  qed
  then show ?thesis using write_wait_bounded [OF f, of "[1, 2]"] by auto
qed

theorem routing_applied_witness:
  "case out_set_parameters demo_hal (Some ''4'') ((adev_open demo_hal 8000 demo_route)\<lparr>in_device := 0\<rparr>) of
     None \<Rightarrow> False
   | Some (calls, ad1) \<Rightarrow> map old_value (ar_state (ad_route ad1)) = [5, 6]"
proof -
  let ?ad = "(adev_open demo_hal 8000 demo_route)\<lparr>in_device := 0\<rparr>"
  have k: "routes_known (ad_route ?ad)"
    by (simp add: adev_open_def routes_known_def routes_wf_def path_names_def setting_keys_def demo_route_def demo_ctl_def)
  have a: "word_of_int (atoi (take 31 ''4'')) = (4 :: u32)" "out_device ?ad \<noteq> 4" "(4 :: u32) \<noteq> 0"
    by (code_simp, simp_all add: adev_open_def demo_hal_def)
  have n: "route_names demo_hal (route_out demo_hal 4 ?ad) = [''headphone'']"
    by (simp add: route_names_def route_out_def adev_open_def demo_hal_def do_out_standby_def)
  have e: "map (\<lambda>m. (ms_ctl m, fold (\<lambda>n v. case map_of (route_values (ad_route ?ad) n) (ms_ctl m) of None \<Rightarrow> v | Some x \<Rightarrow> x)
      [''headphone''] (reset_value m))) (ar_state (ad_route ?ad)) = [(Some 0, 5), (Some 1, 6)]"
    by (simp add: adev_open_def demo_route_def demo_ctl_def route_values_def path_get_by_name_def)
  show ?thesis
    using routing_applied [OF k a, of demo_hal] unfolding n e
    by (auto split: option.splits)
qed

end
