(* ===== verification/Nv12_Resize.thy ===== *)
theory Nv12_Resize
  imports C_Prelude
begin

text \<open>
  The frame scaler of the camera HALs (\<open>VT_resizeFrame_Video_opt2_lp\<close> in
  src/mx6/libcamera/NV12_resize.c and the table \<open>bWeights\<close> of its header): bilinear scaling of an
  NV12 frame with 3 bit fractions. A plane is the list of its bytes; reading or writing outside it
  is the result \<open>None\<close>, and so are a division by zero and a loop that never ends (the 16 bit loop
  counters cannot reach a size of 65536).
\<close>

section \<open>Blending four pixels\<close>

definition bWeights :: "nat list list list" where
  "bWeights =
    [[[64, 0, 0, 0], [56, 0, 0, 8], [48, 0, 0, 16], [40, 0, 0, 24],
      [32, 0, 0, 32], [24, 0, 0, 40], [16, 0, 0, 48], [8, 0, 0, 56]],
     [[56, 8, 0, 0], [49, 7, 1, 7], [42, 6, 2, 14], [35, 5, 3, 21],
      [28, 4, 4, 28], [21, 3, 5, 35], [14, 2, 6, 42], [7, 1, 7, 49]],
     [[48, 16, 0, 0], [42, 14, 2, 6], [36, 12, 4, 12], [30, 10, 6, 18],
      [24, 8, 8, 24], [18, 6, 10, 30], [12, 4, 12, 36], [6, 2, 14, 42]],
     [[40, 24, 0, 0], [35, 21, 3, 5], [30, 18, 6, 10], [25, 15, 9, 15],
      [20, 12, 12, 20], [15, 9, 15, 25], [10, 6, 18, 30], [5, 3, 21, 35]],
     [[32, 32, 0, 0], [28, 28, 4, 4], [24, 24, 8, 8], [20, 20, 12, 12],
      [16, 16, 16, 16], [12, 12, 20, 20], [8, 8, 24, 24], [4, 4, 28, 28]],
     [[24, 40, 0, 0], [21, 35, 5, 3], [18, 30, 10, 6], [15, 25, 15, 9],
      [12, 20, 20, 12], [9, 15, 25, 15], [6, 10, 30, 18], [3, 5, 35, 21]],
     [[16, 48, 0, 0], [14, 42, 6, 2], [12, 36, 12, 4], [10, 30, 18, 6],
      [8, 24, 24, 8], [6, 18, 30, 10], [4, 12, 36, 12], [2, 6, 42, 14]],
     [[8, 56, 0, 0], [7, 49, 7, 1], [6, 42, 14, 2], [5, 35, 21, 3],
      [4, 28, 28, 4], [3, 21, 35, 5], [2, 14, 42, 6], [1, 7, 49, 7]]]"

text \<open>The accumulator has 16 bits; the pixels are A, B, C, D as in the source: C has weight 3, D
  weight 2.\<close>

definition acc16 :: "nat \<Rightarrow> nat" where
  "acc16 n = n mod 65536"

definition blend :: "nat \<Rightarrow> nat \<Rightarrow> u8 \<Rightarrow> u8 \<Rightarrow> u8 \<Rightarrow> u8 \<Rightarrow> u8" where
  "blend xf yf in11 in12 in21 in22 =
     (let w = bWeights ! xf ! yf;
          a1 = acc16 (w ! 0 * unat in11);
          a2 = acc16 (a1 + w ! 1 * unat in12);
          a3 = acc16 (a2 + w ! 3 * unat in21);
          a4 = acc16 (a3 + w ! 2 * unat in22)
      in word_of_nat (a4 div 64))"

section \<open>Positions\<close>

text \<open>The product of a counter and the scale is a 32 bit number; its position part has 16 bits.\<close>

definition scale_pos :: "nat \<Rightarrow> nat \<Rightarrow> nat" where
  "scale_pos i factor = (i * factor mod 4294967296 div 512) mod 65536"

definition scale_frac :: "nat \<Rightarrow> nat \<Rightarrow> nat" where
  "scale_frac i factor = (i * factor mod 4294967296 div 64) mod 8"

definition plane_get :: "u8 list \<Rightarrow> int \<Rightarrow> u8 option" where
  "plane_get p i = (if 0 \<le> i \<and> i < int (length p) then Some (p ! nat i) else None)"

definition plane_put :: "int \<Rightarrow> u8 \<Rightarrow> u8 list \<Rightarrow> u8 list option" where
  "plane_put i v p = (if 0 \<le> i \<and> i < int (length p) then Some (p[nat i := v]) else None)"

text \<open>Four pixels around a position: \<open>dx\<close> to the next column, \<open>dy\<close> to the next row.\<close>

definition sample :: "u8 list \<Rightarrow> int \<Rightarrow> int \<Rightarrow> int \<Rightarrow> nat \<Rightarrow> nat \<Rightarrow> u8 option" where
  "sample p i dx dy xf yf =
     (case (plane_get p i, plane_get p (i + dx), plane_get p (i + dy), plane_get p (i + dy + dx)) of
        (Some a, Some b, Some c, Some d) \<Rightarrow> Some (blend xf yf a b c d)
      | _ \<Rightarrow> None)"

section \<open>The frame\<close>

record ConvImage =
  im_width :: int
  im_height :: int
  im_stride :: int
  im_lp :: bool
  im_luma :: "u8 list option"
  im_chroma :: "u8 list"
  im_offset :: int

record CropRect =
  cr_x :: nat
  cr_y :: nat
  cr_width :: nat
  cr_height :: nat

text \<open>The loops over rows and columns, in their order.\<close>

definition pixels :: "nat \<Rightarrow> nat \<Rightarrow> (nat \<times> nat) list" where
  "pixels rows cols = concat (map (\<lambda>r. map (Pair r) [0..<cols]) [0..<rows])"

definition luma_pixel ::
    "u8 list \<Rightarrow> int \<Rightarrow> int \<Rightarrow> nat \<Rightarrow> nat \<Rightarrow> nat \<times> nat \<Rightarrow> u8 option" where
  "luma_pixel inp offs stride fx fy rc =
     (case rc of
        (row, col) \<Rightarrow>
          sample inp (offs + int (scale_pos row fy) * stride + int (scale_pos col fx)) 1 stride
            (scale_frac col fx) (scale_frac row fy))"

definition luma_step ::
    "u8 list \<Rightarrow> int \<Rightarrow> int \<Rightarrow> nat \<Rightarrow> nat \<Rightarrow> int \<Rightarrow> int \<Rightarrow> nat \<times> nat \<Rightarrow> u8 list \<Rightarrow> u8 list option" where
  "luma_step inp offs stride fx fy base ostride rc out =
     (case luma_pixel inp offs stride fx fy rc of
        None \<Rightarrow> None
      | Some v \<Rightarrow> plane_put (base + int (fst rc) * ostride + int (snd rc)) v out)"

text \<open>Cb and Cr of one position; \<open>width\<close> is the distance from one output row to the next.\<close>

definition chroma_step ::
    "u8 list \<Rightarrow> int \<Rightarrow> int \<Rightarrow> nat \<Rightarrow> nat \<Rightarrow> int \<Rightarrow> int \<Rightarrow> nat \<times> nat \<Rightarrow> u8 list \<Rightarrow> u8 list option" where
  "chroma_step inp offs stride fx fy base width rc out =
     (case rc of
        (row, col) \<Rightarrow>
          (let i = offs + int (scale_pos row fy) * stride + 2 * int (scale_pos col fx);
               xf = scale_frac col fx; yf = scale_frac row fy;
               q = base + int row * width + 2 * int col
           in case sample inp i 2 stride xf yf of
                None \<Rightarrow> None
              | Some cb \<Rightarrow>
                  (case sample inp (i + 1) 2 stride xf yf of
                     None \<Rightarrow> None
                   | Some cr \<Rightarrow>
                       (case plane_put q cb out of None \<Rightarrow> None | Some out' \<Rightarrow> plane_put (q + 1) cr out'))))"

definition VT_resizeFrame_Video_opt2_lp ::
    "ConvImage \<Rightarrow> ConvImage \<Rightarrow> CropRect option \<Rightarrow> (bool \<times> ConvImage) option" where
  "VT_resizeFrame_Video_opt2_lp i_img o_img cropout =
     (case (im_luma i_img, im_luma o_img) of
        (Some inY, Some outY) \<Rightarrow>
          (let (cox, coy, codx, cody) =
                 (case cropout of
                    None \<Rightarrow> (0, 0, nat (im_width o_img mod 4294967296), nat (im_height o_img mod 4294967296))
                  | Some c \<Rightarrow> (cr_x c, cr_y c, cr_width c, cr_height c));
               idx = nat (im_width i_img mod 65536);
               idy = nat (im_height i_img mod 65536)
           in if idx < 1 \<or> idy < 1 \<or> im_stride i_img < 1 then Some (False, o_img)
              else if codx = 0 \<or> cody = 0 then None
              else
                (let fx = (idx - 1) * 512 div codx; fy = (idy - 1) * 512 div cody in
                 if im_lp i_img \<and> im_lp o_img then
                   (let base = int cox + int coy * im_width o_img in
                    if cody > 65535 \<or> codx > 65535 then None
                    else
                      (case foldM (luma_step inY (im_offset i_img) (im_stride i_img) fx fy base (im_stride o_img))
                              (pixels cody codx) outY of
                         None \<Rightarrow> None
                       | Some outY' \<Rightarrow>
                           (case foldM (chroma_step (im_chroma i_img) (im_offset i_img div 2) (im_stride i_img) fx fy base
                                   (2 * int (codx div 2) + im_stride o_img - int codx))
                                   (pixels (cody div 2) (codx div 2)) (im_chroma o_img) of
                              None \<Rightarrow> None
                            | Some outC' \<Rightarrow> Some (True, o_img\<lparr>im_luma := Some outY', im_chroma := outC'\<rparr>))))
                 else Some (False, o_img)))
      | _ \<Rightarrow> Some (False, o_img))"

section \<open>Weights and blends\<close>

definition weights_ok :: "nat list \<Rightarrow> bool" where
  "weights_ok w = (length w = 4 \<and> w ! 0 + w ! 1 + w ! 2 + w ! 3 = 64)"

lemma bWeights_ok: "list_all (\<lambda>ws. length ws = 8 \<and> list_all weights_ok ws) bWeights \<and> length bWeights = 8"
  by (simp add: bWeights_def weights_ok_def)

lemma weights_at: "xf < 8 \<Longrightarrow> yf < 8 \<Longrightarrow> weights_ok (bWeights ! xf ! yf)"
  using bWeights_ok by (simp add: list_all_length)

lemma weighted_le:
  fixes w0 w1 w2 w3 :: nat
  assumes "w0 + w1 + w2 + w3 = 64" and "a \<le> m" "b \<le> m" "c \<le> m" "d \<le> m"
  shows "w0 * a + w1 * b + w3 * c + w2 * d \<le> 64 * m"
proof -
  have "w0 * a + w1 * b + w3 * c + w2 * d \<le> w0 * m + w1 * m + w3 * m + w2 * m"
    using assms by (intro add_mono mult_le_mono2)
  also have "\<dots> = (w0 + w1 + w2 + w3) * m" by (simp add: algebra_simps)
  finally show ?thesis using assms by simp
qed

lemma weighted_ge:
  fixes w0 w1 w2 w3 :: nat
  assumes "w0 + w1 + w2 + w3 = 64" and "m \<le> a" "m \<le> b" "m \<le> c" "m \<le> d"
  shows "64 * m \<le> w0 * a + w1 * b + w3 * c + w2 * d"
proof -
  have "(w0 + w1 + w2 + w3) * m = w0 * m + w1 * m + w3 * m + w2 * m" by (simp add: algebra_simps)
  also have "\<dots> \<le> w0 * a + w1 * b + w3 * c + w2 * d" using assms by (intro add_mono mult_le_mono2)
  finally show ?thesis using assms by simp
qed

lemma blend_exact:
  assumes "xf < 8" and "yf < 8"
  shows "unat (blend xf yf a b c d) =
    (bWeights ! xf ! yf ! 0 * unat a + bWeights ! xf ! yf ! 1 * unat b +
     bWeights ! xf ! yf ! 3 * unat c + bWeights ! xf ! yf ! 2 * unat d) div 64"
proof -
  let ?w = "bWeights ! xf ! yf"
  have s: "?w ! 0 + ?w ! 1 + ?w ! 2 + ?w ! 3 = 64" using weights_at [OF assms] by (simp add: weights_ok_def)
  have u: "unat x \<le> 255" for x :: u8
  proof -
    have "unat x < 2 ^ LENGTH(8)" by (rule unsigned_less)
    then show ?thesis by simp
  qed
  let ?t = "?w ! 0 * unat a + ?w ! 1 * unat b + ?w ! 3 * unat c + ?w ! 2 * unat d"
  have t: "?t \<le> 64 * 255" by (rule weighted_le [OF s u u u u])
  then have "blend xf yf a b c d = word_of_nat (?t div 64)"
    by (simp add: blend_def acc16_def Let_def)
  moreover have "?t div 64 < 256" using t by simp
  ultimately show ?thesis by (simp add: unat_of_nat)
qed

text \<open>C33: scaling never overflows its 16 bit accumulator and never invents a value: each scaled pixel
  lies between the smallest and the largest of the four pixels it is made of, for every fraction.\<close>

theorem blend_between:
  assumes "xf < 8" and "yf < 8"
  shows "Min {unat a, unat b, unat c, unat d} \<le> unat (blend xf yf a b c d) \<and>
    unat (blend xf yf a b c d) \<le> Max {unat a, unat b, unat c, unat d}"
proof -
  let ?w = "bWeights ! xf ! yf" and ?S = "{unat a, unat b, unat c, unat d}"
  have s: "?w ! 0 + ?w ! 1 + ?w ! 2 + ?w ! 3 = 64" using weights_at [OF assms] by (simp add: weights_ok_def)
  let ?t = "?w ! 0 * unat a + ?w ! 1 * unat b + ?w ! 3 * unat c + ?w ! 2 * unat d"
  have "?t \<le> 64 * Max ?S" by (rule weighted_le [OF s]) simp_all
  moreover have "64 * Min ?S \<le> ?t" by (rule weighted_ge [OF s]) simp_all
  ultimately have "Min ?S \<le> ?t div 64 \<and> ?t div 64 \<le> Max ?S" by linarith
  then show ?thesis unfolding blend_exact [OF assms] .
qed

theorem blend_between_witness: "Min {10, 20, 30, 40 :: nat} \<le> unat (blend 3 5 10 20 30 40)"
  using blend_between [of 3 5 10 20 30 40] by simp

section \<open>Reading and writing inside the planes\<close>

text \<open>A source row or column that is read stays one short of the last one, so that its neighbour
  exists too: for the luma plane always, for the chroma plane, which has half the rows, as long as
  the frame is not doubled.\<close>

lemma scaled_le:
  fixes i c n :: nat
  shows "i * (n * 512 div c) div 512 * c \<le> i * n"
proof -
  define q where "q = n * 512 div c"
  define y where "y = i * q div 512"
  have "512 * y \<le> i * q" unfolding y_def by (rule times_div_less_eq_dividend)
  then have "512 * (y * c) \<le> i * (c * q)" using mult_le_mono1 [of "512 * y" "i * q" c] by (simp add: ac_simps)
  also have "\<dots> \<le> i * (n * 512)" unfolding q_def by (intro mult_le_mono2 times_div_less_eq_dividend)
  finally have "y * c \<le> i * n" by simp
  then show ?thesis by (simp add: y_def q_def)
qed

lemma luma_pos:
  fixes i c n :: nat
  assumes "i < c" and "0 < n"
  shows "i * (n * 512 div c) div 512 < n"
proof (rule ccontr)
  assume "\<not> i * (n * 512 div c) div 512 < n"
  then have "n * c \<le> i * (n * 512 div c) div 512 * c" by (intro mult_le_mono1) simp
  also have "\<dots> \<le> i * n" by (rule scaled_le)
  also have "\<dots> < c * n" using assms by simp
  finally show False by (simp add: mult.commute)
qed

lemma chroma_pos:
  fixes i c k :: nat
  assumes "2 * i + 2 \<le> c" and "2 \<le> k" and "c + 3 \<le> 4 * k"
  shows "i * ((2 * k - 1) * 512 div c) div 512 + 2 \<le> k"
proof (rule ccontr)
  let ?y = "i * ((2 * k - 1) * 512 div c) div 512"
  assume "\<not> ?y + 2 \<le> k"
  then have y: "k - 1 \<le> ?y" by simp
  obtain j where k: "k = j + 2" using assms(2) by (metis add.commute le_Suc_ex)
  have "(j + 1) * c \<le> ?y * c" using y k by (intro mult_le_mono1) simp
  also have "\<dots> \<le> i * (2 * k - 1)" by (rule scaled_le)
  finally have "2 * ((j + 1) * c) \<le> 2 * i * (2 * j + 3)" using k by (simp add: algebra_simps)
  also have "\<dots> \<le> (c - 2) * (2 * j + 3)" using assms(1) by (intro mult_le_mono1) simp
  finally have "2 * j * c + 2 * c \<le> (c - 2) * (2 * j + 3)" by (simp add: algebra_simps)
  moreover obtain e where c: "c = e + 2" using assms(1) by (metis add.commute add_leD2 le_Suc_ex)
  ultimately have "2 * j * e + 4 * j + 2 * e + 4 \<le> 2 * j * e + 3 * e" by (simp add: algebra_simps)
  then show False using assms(3) k c by linarith
qed

lemma scale_pos_small:
  fixes i c n :: nat
  assumes "i < c" and "n < 65536"
  shows "scale_pos i (n * 512 div c) = i * (n * 512 div c) div 512"
proof -
  have "i * (n * 512 div c) \<le> c * (n * 512 div c)" using assms by simp
  also have "\<dots> \<le> n * 512" by (rule times_div_less_eq_dividend)
  also have "\<dots> < 65536 * 512" using assms by simp
  finally have b: "i * (n * 512 div c) < 33554432" by simp
  then have "i * (n * 512 div c) mod 4294967296 = i * (n * 512 div c)" by simp
  moreover have "i * (n * 512 div c) div 512 < 65536" using b by linarith
  ultimately show ?thesis by (simp add: scale_pos_def)
qed

lemma scale_frac_small: "scale_frac i f < 8"
  by (simp add: scale_frac_def)

lemma plane_get_some: "0 \<le> i \<Longrightarrow> i < int (length p) \<Longrightarrow> plane_get p i = Some (p ! nat i)"
  by (simp add: plane_get_def)

lemma sample_some:
  assumes "0 \<le> i" and "0 \<le> dx" and "0 \<le> dy" and "i + dy + dx < int (length p)"
  shows "sample p i dx dy xf yf =
    Some (blend xf yf (p ! nat i) (p ! nat (i + dx)) (p ! nat (i + dy)) (p ! nat (i + dy + dx)))"
  using assms by (simp add: sample_def plane_get_some)

lemma row_end:
  fixes y x s h w :: int
  assumes "0 \<le> y" and "y + 1 \<le> h" and "0 \<le> x" and "x < w" and "w \<le> s"
  shows "y * s + x < h * s"
proof -
  have "y * s + x < y * s + s" using assms by simp
  also have "\<dots> = (y + 1) * s" by (simp add: algebra_simps)
  also have "\<dots> \<le> h * s" using assms by (intro mult_right_mono) auto
  finally show ?thesis .
qed

text \<open>A frame whose planes hold all its rows, without an offset.\<close>

definition frame_ok :: "nat \<Rightarrow> nat \<Rightarrow> int \<Rightarrow> u8 list \<Rightarrow> u8 list \<Rightarrow> bool" where
  "frame_ok w h stride luma chroma =
     (int w \<le> stride \<and> int h * stride \<le> int (length luma) \<and> int (h div 2) * stride \<le> int (length chroma))"

lemma luma_inside:
  assumes "frame_ok w h stride luma chroma" and "2 \<le> w" and "2 \<le> h" and "w < 65536" and "h < 65536"
    and "r < cody" and "c < codx"
  shows "luma_pixel luma 0 stride ((w - 1) * 512 div codx) ((h - 1) * 512 div cody) (r, c) \<noteq> None"
proof -
  let ?y = "scale_pos r ((h - 1) * 512 div cody)" and ?x = "scale_pos c ((w - 1) * 512 div codx)"
  have y: "?y < h - 1" using scale_pos_small [of r cody "h - 1"] luma_pos [of r cody "h - 1"] assms by simp
  have x: "?x < w - 1" using scale_pos_small [of c codx "w - 1"] luma_pos [of c codx "w - 1"] assms by simp
  have "(int ?y + 1) * stride + (int ?x + 1) < int h * stride"
    using x y assms(1-3) by (intro row_end [where w = "int w"]) (auto simp: frame_ok_def)
  then have e: "int ?y * stride + int ?x + stride + 1 < int (length luma)"
    using assms(1) by (simp add: frame_ok_def algebra_simps)
  have s: "0 \<le> stride" using assms(1) by (simp add: frame_ok_def)
  then have "0 \<le> int ?y * stride + int ?x" by simp
  then show ?thesis
    using e s sample_some [of "int ?y * stride + int ?x" 1 stride luma] by (simp add: luma_pixel_def)
qed

lemma chroma_inside:
  assumes "frame_ok w h stride luma chroma" and "even w" and "even h" and "4 \<le> w" and "4 \<le> h" and "w < 65536" and "h < 65536"
    and "r < cody div 2" and "c < codx div 2" and "codx + 3 \<le> 2 * w" and "cody + 3 \<le> 2 * h"
  shows "sample chroma (int (scale_pos r ((h - 1) * 512 div cody)) * stride + 2 * int (scale_pos c ((w - 1) * 512 div codx)) + k)
    2 stride xf yf \<noteq> None \<or> k \<notin> {0, 1}"
proof (cases "k \<in> {0, 1}")
  case True
  let ?y = "scale_pos r ((h - 1) * 512 div cody)" and ?x = "scale_pos c ((w - 1) * 512 div codx)"
  obtain wk hk where e: "w = 2 * wk" "h = 2 * hk" using assms(2,3) by (auto elim!: evenE)
  have y: "?y + 2 \<le> h div 2"
    using scale_pos_small [of r cody "h - 1"] chroma_pos [of r cody hk] assms e by simp
  have x: "?x + 2 \<le> w div 2"
    using scale_pos_small [of c codx "w - 1"] chroma_pos [of c codx wk] assms e by simp
  have s: "0 \<le> stride" using assms(1) by (simp add: frame_ok_def)
  have "(int ?y + 1) * stride + (2 * int ?x + 3) < int (h div 2) * stride"
    using x y e assms(1) by (intro row_end [where w = "int w"]) (auto simp: frame_ok_def)
  then have l: "int ?y * stride + 2 * int ?x + k + stride + 2 < int (length chroma)"
    using assms(1) True by (auto simp: frame_ok_def algebra_simps)
  have "0 \<le> int ?y * stride" using s by simp
  then show ?thesis
    using l s True sample_some [of "int ?y * stride + 2 * int ?x + k" 2 stride chroma xf yf] by auto
qed simp

lemma plane_put_some:
  "0 \<le> i \<Longrightarrow> i < int (length p) \<Longrightarrow> plane_put i v p = Some (p[nat i := v])"
  by (simp add: plane_put_def)

lemma foldM_puts:
  "(\<And>x. x \<in> set xs \<Longrightarrow> val x \<noteq> None \<and> 0 \<le> pos x \<and> pos x < int (length out)) \<Longrightarrow> distinct (map pos xs) \<Longrightarrow>
   \<exists>out'. foldM (\<lambda>x p. case val x of None \<Rightarrow> None | Some v \<Rightarrow> plane_put (pos x) v p) xs out = Some out' \<and>
     length out' = length out \<and> (\<forall>x\<in>set xs. Some (out' ! nat (pos x)) = val x) \<and>
     (\<forall>i. int i \<notin> pos ` set xs \<longrightarrow> out' ! i = out ! i)"
proof (induction xs arbitrary: out)
  case (Cons x xs)
  obtain v where v: "val x = Some v" "0 \<le> pos x" "pos x < int (length out)"
    using Cons.prems(1) [of x] by auto
  let ?o = "out[nat (pos x) := v]"
  have "\<exists>out'. foldM (\<lambda>x p. case val x of None \<Rightarrow> None | Some v \<Rightarrow> plane_put (pos x) v p) xs ?o = Some out' \<and>
     length out' = length ?o \<and> (\<forall>x\<in>set xs. Some (out' ! nat (pos x)) = val x) \<and>
     (\<forall>i. int i \<notin> pos ` set xs \<longrightarrow> out' ! i = ?o ! i)"
    by (rule Cons.IH) (use Cons.prems in \<open>auto\<close>)
  then obtain q where q: "foldM (\<lambda>x p. case val x of None \<Rightarrow> None | Some v \<Rightarrow> plane_put (pos x) v p) xs ?o = Some q"
    "length q = length out" "\<forall>x\<in>set xs. Some (q ! nat (pos x)) = val x"
    "\<forall>i. int i \<notin> pos ` set xs \<longrightarrow> q ! i = ?o ! i" by auto
  have "int (nat (pos x)) \<notin> pos ` set xs" using Cons.prems(2) v(2) by auto
  then have "q ! nat (pos x) = v" using q(4) v(2,3) by simp
  then show ?case using q v by (auto simp: plane_put_some nth_list_update_if)
qed simp

lemma pixels_product: "pixels rows cols = List.product [0..<rows] [0..<cols]"
  by (simp add: pixels_def product_concat_map)

lemma pixels_mem: "x \<in> set (pixels rows cols) \<Longrightarrow> \<exists>r c. x = (r, c) \<and> r < rows \<and> c < cols"
  by (auto simp: pixels_product)

lemma pixel_pos_inj:
  fixes s :: int
  assumes "int cols \<le> s" and "c < cols" and "c' < cols" and "int r * s + int c = int r' * s + int c'"
  shows "r = r' \<and> c = c'"
proof -
  have "(int a * s + int b) div s = int a" if "b < cols" for a b
    using that assms(1) by (simp add: div_pos_pos_trivial)
  from this [OF assms(2), of r] this [OF assms(3), of r'] show ?thesis using assms(4) by simp
qed

lemma pixel_pos_distinct:
  "int cols \<le> s \<Longrightarrow> distinct (map (\<lambda>rc. int (fst rc) * s + int (snd rc)) (pixels rows cols))"
  unfolding pixels_product
  by (auto simp: distinct_map distinct_product inj_on_def dest: pixel_pos_inj)

text \<open>C24: A frame with even sides of at least 4 that is scaled so that each side of the result is at most
  twice that of the source less 3, into planes that hold the result, is scaled without a read or a write outside any
  plane; every byte of the luma result is the blend of its four source pixels, and bytes between the rows are kept.\<close>

theorem resize_in_bounds:
  assumes inp: "frame_ok w h stride luma chroma" "even w" "even h" "4 \<le> w" "4 \<le> h" "w < 65536" "h < 65536"
    and size: "0 < codx" "0 < cody" "codx + 3 \<le> 2 * w" "cody + 3 \<le> 2 * h" "codx < 65536" "cody < 65536"
    and outp: "frame_ok codx cody ostride oluma ochroma"
  shows "case VT_resizeFrame_Video_opt2_lp
        \<lparr>im_width = int w, im_height = int h, im_stride = stride, im_lp = True, im_luma = Some luma, im_chroma = chroma, im_offset = 0\<rparr>
        \<lparr>im_width = int codx, im_height = int cody, im_stride = ostride, im_lp = True, im_luma = Some oluma, im_chroma = ochroma, im_offset = 0\<rparr>
        None of
      None \<Rightarrow> False
    | Some (r, img) \<Rightarrow>
        r \<and> length (im_chroma img) = length ochroma \<and>
        (case im_luma img of
           None \<Rightarrow> False
         | Some p \<Rightarrow>
             length p = length oluma \<and>
             list_all (\<lambda>(row, col). Some (p ! nat (int row * ostride + int col)) =
               luma_pixel luma 0 stride ((w - 1) * 512 div codx) ((h - 1) * 512 div cody) (row, col)) (pixels cody codx) \<and>
             list_all (\<lambda>i. int i \<in> (\<lambda>(row, col). int row * ostride + int col) ` set (pixels cody codx) \<or> p ! i = oluma ! i)
               [0..<length p])"
proof -
  let ?fx = "(w - 1) * 512 div codx" and ?fy = "(h - 1) * 512 div cody"
  let ?val = "luma_pixel luma 0 stride ?fx ?fy" and ?pos = "\<lambda>rc. int (fst rc) * ostride + int (snd rc)"
  have st: "int codx \<le> ostride" "0 < stride" using outp inp by (auto simp: frame_ok_def)
  have l: "?val x \<noteq> None \<and> 0 \<le> ?pos x \<and> ?pos x < int (length oluma)" if mem: "x \<in> set (pixels cody codx)" for x
  proof -
    obtain r c where x: "x = (r, c)" "r < cody" "c < codx" using pixels_mem [OF mem] by blast
    have "int r * ostride + int c < int cody * ostride"
      using x st by (intro row_end [where w = "int codx"]) auto
    then show ?thesis
      using luma_inside [OF inp(1) _ _ inp(6,7) x(2,3)] inp(4,5) x st outp by (auto simp: frame_ok_def)
  qed
  have step: "luma_step luma 0 stride ?fx ?fy 0 ostride = (\<lambda>x p. case ?val x of None \<Rightarrow> None | Some v \<Rightarrow> plane_put (?pos x) v p)"
    by (intro ext) (simp add: luma_step_def split: option.splits)
  obtain p where p: "foldM (luma_step luma 0 stride ?fx ?fy 0 ostride) (pixels cody codx) oluma = Some p"
    "length p = length oluma" "\<forall>x\<in>set (pixels cody codx). Some (p ! nat (?pos x)) = ?val x"
    "\<forall>i. int i \<notin> ?pos ` set (pixels cody codx) \<longrightarrow> p ! i = oluma ! i"
    using foldM_puts [of "pixels cody codx" ?val ?pos oluma, OF l pixel_pos_distinct [OF st(1)]] unfolding step by blast
  let ?ow = "2 * int (codx div 2) + ostride - int codx"
  have cs: "\<exists>q'. chroma_step chroma 0 stride ?fx ?fy 0 ?ow x q = Some q' \<and> length q' = length ochroma"
    if m: "x \<in> set (pixels (cody div 2) (codx div 2))" and len: "length q = length ochroma" for x q
  proof -
    obtain r c where x: "x = (r, c)" "r < cody div 2" "c < codx div 2" using pixels_mem [OF m] by blast
    obtain cb where cb: "sample chroma (int (scale_pos r ?fy) * stride + 2 * int (scale_pos c ?fx)) 2 stride (scale_frac c ?fx) (scale_frac r ?fy) = Some cb"
      using chroma_inside [OF inp x(2,3) size(3,4), of 0] by auto
    obtain cr where cr: "sample chroma (int (scale_pos r ?fy) * stride + 2 * int (scale_pos c ?fx) + 1) 2 stride (scale_frac c ?fx) (scale_frac r ?fy) = Some cr"
      using chroma_inside [OF inp x(2,3) size(3,4), of 1] by auto
    let ?q = "int r * ?ow + 2 * int c"
    have ow: "2 * int (codx div 2) \<le> ?ow" "?ow \<le> ostride" using st by linarith+
    have "int r * ?ow + (2 * int c + 1) < int (cody div 2) * ?ow"
      using x ow by (intro row_end [where w = "2 * int (codx div 2)"]) auto
    also have "\<dots> \<le> int (cody div 2) * ostride" using ow by (intro mult_left_mono) auto
    also have "\<dots> \<le> int (length ochroma)" using outp by (simp add: frame_ok_def)
    finally have e: "?q + 1 < int (length q)" using len by simp
    have "0 \<le> ?q" using ow x(3) by simp
    then show ?thesis using e x cb cr len by (simp add: chroma_step_def plane_put_some Let_def)
  qed
  obtain q where q: "foldM (chroma_step chroma 0 stride ?fx ?fy 0 ?ow) (pixels (cody div 2) (codx div 2)) ochroma = Some q"
    "length q = length ochroma"
    using foldM_inv [of "\<lambda>q. length q = length ochroma" ochroma "pixels (cody div 2) (codx div 2)" "chroma_step chroma 0 stride ?fx ?fy 0 ?ow"] cs
    by blast
  have m: "nat (int w mod 65536) = w" "nat (int h mod 65536) = h" "nat (int codx mod 4294967296) = codx"
    "nat (int cody mod 4294967296) = cody" using inp size by simp_all
  have g: "list_all (\<lambda>i. int i \<in> ?pos ` set (pixels cody codx) \<or> p ! i = oluma ! i) [0..<length p]"
    using p(4) by (auto simp: list_all_iff)
  show ?thesis
    using inp(4,5) size p(1-3) q st g
    by (simp add: VT_resizeFrame_Video_opt2_lp_def m Let_def list_all_iff case_prod_beta)
qed

text \<open>A source of 4 by 4 pixels and a result of the given size.\<close>

definition demo_source :: ConvImage where
  "demo_source =
     \<lparr>im_width = 4, im_height = 4, im_stride = 4, im_lp = True, im_luma = Some (replicate 16 100),
      im_chroma = replicate 8 50, im_offset = 0\<rparr>"

definition demo_target :: "nat \<Rightarrow> nat \<Rightarrow> ConvImage" where
  "demo_target w h =
     \<lparr>im_width = int w, im_height = int h, im_stride = int w, im_lp = True, im_luma = Some (replicate (w * h) 0),
      im_chroma = replicate (w * (h div 2)) 0, im_offset = 0\<rparr>"

theorem resize_in_bounds_witness:
  "case VT_resizeFrame_Video_opt2_lp demo_source (demo_target 2 2) None of None \<Rightarrow> False | Some (r, img) \<Rightarrow> r"
proof -
  have f: "frame_ok 4 4 4 (replicate 16 100) (replicate 8 50)" "frame_ok 2 2 2 (replicate 4 0) (replicate 2 0)"
    by (simp_all add: frame_ok_def)
  show ?thesis
    using resize_in_bounds [of 4 4 4 "replicate 16 100" "replicate 8 50" 2 2 2 "replicate 4 0" "replicate 2 0"] f
    by (auto simp: demo_source_def demo_target_def split: option.splits prod.splits)
qed

text \<open>The bound is needed, and less than double the size does not do: scaled from 4 rows to 6, the same source is
  read past its chroma plane.\<close>

lemma resize_reads_past_chroma:
  "VT_resizeFrame_Video_opt2_lp demo_source (demo_target 4 6) None = None"
proof -
  have s: "sample (replicate 8 50) 4 2 4 0 0 = None" by (simp add: sample_def plane_get_def)
  have "chroma_step (replicate 8 50) 0 4 384 256 0 w (2, 0) out = None" for w out
    by (simp add: chroma_step_def scale_pos_def scale_frac_def Let_def s)
  moreover have "(2, 0) \<in> set (pixels 3 2)" by (simp add: pixels_product)
  ultimately have "foldM (chroma_step (replicate 8 50) 0 4 384 256 0 w) (pixels 3 2) out = None" for w out
    by (intro foldM_none) auto
  then show ?thesis
    by (simp add: VT_resizeFrame_Video_opt2_lp_def demo_source_def demo_target_def split: option.splits)
qed

end
