(* ===== verification/Wireless_Ptt.thy ===== *)
theory Wireless_Ptt
  imports C_Prelude
begin

text \<open>
  The daemon of the push-to-talk radio (src/wirelessptt/wireless.c): finding the radio and its
  serial port, the lines that choose power, sleep and direction, the audio route, the command with
  its answer, and the loop over the keyboard's events. The state is the static variables of the file
  and the list of what was written and run; what the files and the clock answer is a parameter. A
  write past an array, a string without an end and a name that is used uninitialized have the result
  \<open>None\<close>. The functions that read commands from a console are not modelled: only \<open>main1\<close>, which is
  not compiled, calls them.
\<close>

section \<open>State\<close>

datatype radio_op =
    ROpen string int
  | RWrite int string
  | RClose int
  | Run string

text \<open>
  The parameter: the entries of the device directory (\<open>None\<close> when it cannot be read), which files
  exist, the results of \<open>open\<close>, \<open>write\<close> and \<open>tcgetattr\<close>, and the bytes that a descriptor has ready.
\<close>

record Frs =
  w_dir :: "string list option"
  w_exists :: "string \<Rightarrow> bool"
  w_open :: "radio_op list \<Rightarrow> string \<Rightarrow> int"
  w_write :: "radio_op list \<Rightarrow> int \<Rightarrow> string \<Rightarrow> int"
  w_ready :: "radio_op list \<Rightarrow> int \<Rightarrow> string option"
  w_tcgetattr :: "radio_op list \<Rightarrow> int \<Rightarrow> bool"
  w_evname :: "int \<Rightarrow> string option"

record Radio =
  DEV_NAME_SYSFS :: string
  SQ_SYSFS :: string
  VOXDEC_SYSFS :: string
  PTT_SYSFS :: string
  PD_SYSFS :: string
  HL_SYSFS :: string
  dev_fd :: int
  wireless_open :: bool
  wireless_speek :: bool
  ticks :: "64 word"
  radio_log :: "radio_op list"

definition rdid :: "radio_op \<Rightarrow> Radio \<Rightarrow> Radio" where
  "rdid x s = s\<lparr>radio_log := radio_log s @ [x]\<rparr>"

section \<open>Lines\<close>

text \<open>\<open>memcmp (a, b, 4)\<close> of two strings with their ends.\<close>

definition same4 :: "string \<Rightarrow> string \<Rightarrow> bool" where
  "same4 a b = (take 4 (a @ [NUL]) = take 4 (b @ [NUL]))"

text \<open>The digit is written as an \<open>int\<close> of four bytes, least significant first.\<close>

definition write_level :: "Frs \<Rightarrow> int \<Rightarrow> char \<Rightarrow> Radio \<Rightarrow> Radio" where
  "write_level w fd val s = rdid (RClose fd) (rdid (RWrite fd [val, NUL, NUL, NUL]) s)"

definition set_speek_dir :: "Frs \<Rightarrow> string \<Rightarrow> Radio \<Rightarrow> Radio" where
  "set_speek_dir w dir s =
     (let fd = w_open w (radio_log s) (PTT_SYSFS s); s1 = rdid (ROpen (PTT_SYSFS s) fd) s in
      if fd < 0 then s1
      else if same4 dir ''SEND'' then write_level w fd CHR ''0'' s1
      else if same4 dir ''RECV'' then write_level w fd CHR ''1'' s1
      else s1)"

definition set_power :: "Frs \<Rightarrow> string \<Rightarrow> Radio \<Rightarrow> Radio" where
  "set_power w p s =
     (let fd = w_open w (radio_log s) (HL_SYSFS s); s1 = rdid (ROpen (HL_SYSFS s) fd) s in
      if fd < 0 then s1
      else if same4 p ''LOW'' then write_level w fd CHR ''0'' s1
      else if same4 p ''HIGH'' then write_level w fd CHR ''1'' s1
      else s1)"

definition set_sleep :: "Frs \<Rightarrow> string \<Rightarrow> Radio \<Rightarrow> Radio" where
  "set_sleep w mode s =
     (let fd = w_open w (radio_log s) (PD_SYSFS s); s1 = rdid (ROpen (PD_SYSFS s) fd) s in
      if fd < 0 then s1
      else if same4 mode ''SLEEP'' then write_level w fd CHR ''0'' s1
      else if same4 mode ''WAKE'' then write_level w fd CHR ''1'' s1
      else s1)"

section \<open>Sound\<close>

definition quoted :: "string \<Rightarrow> string" where
  "quoted t = CHR 0x27 # t @ [CHR 0x27]"

definition tinymix_command :: "string \<Rightarrow> string \<Rightarrow> Radio \<Rightarrow> Radio" where
  "tinymix_command control val s =
     rdid (Run (take 1023 (''/system/bin/tinymix '' @ quoted control @ '' '' @ quoted val))) s"

definition route_begin :: "(string \<times> string) list" where
  "route_begin = [(''MIXINR PGA Switch'', ''0''), (''MIXINL PGA Switch'', ''0'')]"

definition route_on :: "(string \<times> string) list" where
  "route_on =
     [(''HPMIXL IN4R Switch'', ''1''), (''SPKOUTL Mixer IN4R Switch'', ''1''),
      (''MIXINL IN2L Switch'', ''1''), (''HPMIXL MIXINL Switch'', ''1''), (''SPKOUTL Mixer MIXINL Switch'', ''1''),
      (''HPOUTL PGA'', ''Mixer''), (''Headphone Mixer Switch'', ''1''), (''Headphone Volume'', ''121''),
      (''Headphone Switch'', ''1''),
      (''SPKOUTL PGA'', ''Mixer''), (''Speaker Mixer Switch'', ''1''), (''Speaker Switch'', ''1''),
      (''Speaker Volume'', ''121'')]"

definition route_off :: "(string \<times> string) list" where
  "route_off =
     [(''HPMIXL IN4R Switch'', ''0''), (''SPKOUTL Mixer IN4R Switch'', ''0''), (''MIXINL IN2L Switch'', ''0''),
      (''Headphone Mixer Switch'', ''0''), (''Headphone Mixer Switch'', ''0''), (''HPOUTL PGA'', ''DAC''),
      (''Speaker Mixer Switch'', ''0''), (''SPKOUTL PGA'', ''DAC'')]"

definition set_audio_route :: "bool \<Rightarrow> Radio \<Rightarrow> Radio" where
  "set_audio_route enable s =
     fold (\<lambda>(c, v). tinymix_command c v) (route_begin @ (if enable then route_on else route_off)) s"

definition open_wireless :: "Frs \<Rightarrow> bool \<Rightarrow> Radio \<Rightarrow> Radio" where
  "open_wireless w on s =
     (if on then set_audio_route True (set_sleep w ''WAKE'' (set_power w ''HIGH'' s))
      else set_audio_route False (set_sleep w ''SLEEP'' (set_power w ''LOW'' s)))"

section \<open>Commands\<close>

text \<open>The answer is read byte by byte into an array of 128 bytes until nothing is ready, and printed
  as a string: the array must keep a zero.\<close>

definition RBUF :: nat where "RBUF = 128"

fun read_ack :: "string \<Rightarrow> string \<Rightarrow> string option" where
  "read_ack [] rbuf = (if length rbuf < RBUF then Some rbuf else None)"
| "read_ack (c # cs) rbuf = (if length rbuf < RBUF then read_ack cs (rbuf @ [c]) else None)"

definition send_cmd_wait_ack :: "Frs \<Rightarrow> string \<Rightarrow> Radio \<Rightarrow> (string \<times> Radio) option" where
  "send_cmd_wait_ack w buf s =
     (let sbuf = buf @ [CR, NL] in
      if RBUF \<le> length sbuf then None
      else
        (let s1 = rdid (RWrite (dev_fd s) sbuf) s in
         if w_write w (radio_log s) (dev_fd s) sbuf \<noteq> int (length sbuf) then Some ([], s1)
         else
           (case w_ready w (radio_log s1) (dev_fd s1) of
              None \<Rightarrow> Some ([], s1)
            | Some cs \<Rightarrow> map_option (\<lambda>r. (r, s1)) (read_ack cs []))))"

section \<open>Opening the radio\<close>

definition cleanup :: "Radio \<Rightarrow> Radio" where
  "cleanup s = (if dev_fd s = - 1 then s else (rdid (RClose (dev_fd s)) s)\<lparr>dev_fd := - 1\<rparr>)"

definition uart_config :: "Frs \<Rightarrow> Radio \<Rightarrow> int" where
  "uart_config w s = (if w_tcgetattr w (radio_log s) (dev_fd s) then 0 else - 1)"

definition uart_word :: "string \<Rightarrow> string" where
  "uart_word t = takeWhile (\<lambda>c. \<not> isspace c) (dropWhile isspace (cstr t))"

text \<open>The file's first 32 bytes must hold an end and a word.\<close>

definition uart_open :: "Frs \<Rightarrow> Radio \<Rightarrow> (int \<times> Radio) option" where
  "uart_open w s =
     (let fd = w_open w (radio_log s) (DEV_NAME_SYSFS s); s1 = rdid (ROpen (DEV_NAME_SYSFS s) fd) s in
      if fd < 0 then Some (- 1, s1)
      else
        (case w_ready w (radio_log s1) fd of
           None \<Rightarrow> Some (- 1, rdid (RClose fd) s1)
         | Some t \<Rightarrow>
             (let buf = take 32 t in
              if length (cstr buf) = 32 \<or> uart_word buf = [] then None
              else
                (let s2 = cleanup (rdid (RClose fd) s1);
                     n = w_open w (radio_log s2) (uart_word buf);
                     s3 = (rdid (ROpen (uart_word buf) n) s2)\<lparr>dev_fd := n\<rparr>
                 in if n < 0 then Some (- 1, s3)
                    else if uart_config w s3 < 0 then Some (- 1, cleanup s3)
                    else Some (0, s3)))))"

definition dir_filter :: "string \<Rightarrow> bool" where
  "dir_filter d_name = (take 7 d_name = ''sr_frs.'')"

definition sysfs_path :: "string \<Rightarrow> string \<Rightarrow> string" where
  "sysfs_path d_name leaf = take 255 (''/sys/bus/platform/devices/'' @ d_name @ leaf)"

definition sysfs_names :: "string \<Rightarrow> Radio \<Rightarrow> Radio" where
  "sysfs_names n s =
     s\<lparr>DEV_NAME_SYSFS := sysfs_path n ''/dev_name'', SQ_SYSFS := sysfs_path n ''/sq_gpios'',
       PD_SYSFS := sysfs_path n ''/pd_gpios'', PTT_SYSFS := sysfs_path n ''/ptt_gpios'',
       HL_SYSFS := sysfs_path n ''/hl_gpios'', VOXDEC_SYSFS := sysfs_path n ''/voxdec_gpios''\<rparr>"

definition radio_init :: "Frs \<Rightarrow> Radio \<Rightarrow> (int \<times> Radio) option" where
  "radio_init w s =
     (case w_dir w of
        None \<Rightarrow> Some (- 1, s)
      | Some entries \<Rightarrow>
          (case filter dir_filter entries of
             [n] \<Rightarrow>
               (let s1 = sysfs_names n s in
                if list_all (w_exists w)
                     [DEV_NAME_SYSFS s1, SQ_SYSFS s1, PD_SYSFS s1, PTT_SYSFS s1, HL_SYSFS s1, VOXDEC_SYSFS s1]
                then
                  (case uart_open w s1 of
                     None \<Rightarrow> None
                   | Some (r, s2) \<Rightarrow> Some (if r < 0 then - 1 else 0, s2))
                else Some (- 1, s1))
           | _ \<Rightarrow> Some (- 1, s)))"

section \<open>Keys\<close>

record key_event =
  ev_code :: nat
  ev_value :: int
  ev_sec :: int
  ev_usec :: int

definition KEY_F1 :: nat where "KEY_F1 = 59"
definition KEY_F2 :: nat where "KEY_F2 = 60"
definition KEY_F3 :: nat where "KEY_F3 = 61"

lemmas key_defs = KEY_F1_def KEY_F2_def KEY_F3_def

text \<open>The milliseconds are a \<open>long\<close> of 32 bits, then extended with their sign.\<close>

definition get_ticks :: "int \<Rightarrow> int \<Rightarrow> 64 word" where
  "get_ticks sec usec = word_of_int (wrap32 (wrap32 (sec * 1000) + usec div 1000))"

definition KEYBOARD_BL :: string where "KEYBOARD_BL = ''/sys/class/timed_output/key_bl/enable''"

definition process_keybl :: "Frs \<Rightarrow> Radio \<Rightarrow> Radio" where
  "process_keybl w s =
     (let fd = w_open w (radio_log s) KEYBOARD_BL; s1 = rdid (ROpen KEYBOARD_BL fd) s in
      if fd < 0 then s1 else rdid (RClose fd) (rdid (RWrite fd ''2000'') s1))"

definition connect_key :: "Frs \<Rightarrow> key_event \<Rightarrow> Radio \<Rightarrow> Radio option" where
  "connect_key w e s =
     (if ev_code e = KEY_F1 \<and> ev_value e = 0
      then map_option snd (send_cmd_wait_ack w ''AT+DMOCONNECT'' s) else Some s)"

definition power_key :: "Frs \<Rightarrow> key_event \<Rightarrow> Radio \<Rightarrow> Radio" where
  "power_key w e s =
     (if ev_code e = KEY_F2 \<and> ev_value e = 1 then s\<lparr>ticks := get_ticks (ev_sec e) (ev_usec e)\<rparr>
      else if ev_code e = KEY_F2 \<and> ev_value e = 0 then
        (if 2 * 1000 \<le> get_ticks (ev_sec e) (ev_usec e) - ticks s
         then (let s1 = s\<lparr>wireless_open := \<not> wireless_open s\<rparr> in open_wireless w (wireless_open s1) s1)
         else s)
      else s)"

definition talk_key :: "Frs \<Rightarrow> key_event \<Rightarrow> Radio \<Rightarrow> Radio" where
  "talk_key w e s =
     (if wireless_open s \<and> ev_code e = KEY_F3 then
        (if ev_value e = 1 \<and> \<not> wireless_speek s then (set_speek_dir w ''SEND'' s)\<lparr>wireless_speek := True\<rparr>
         else if ev_value e = 0 \<and> wireless_speek s then (set_speek_dir w ''RECV'' s)\<lparr>wireless_speek := False\<rparr>
         else s)
      else s)"

definition key_step :: "Frs \<Rightarrow> key_event \<Rightarrow> Radio \<Rightarrow> Radio option" where
  "key_step w e s =
     map_option (\<lambda>s1. talk_key w e (power_key w e s1)) (connect_key w e (process_keybl w s))"

text \<open>The keyboard is the first of ten devices whose name has \<open>.kpp\<close> in it; without one the
  descriptor of the last device that was tried is left.\<close>

fun find_keyboard :: "Frs \<Rightarrow> nat list \<Rightarrow> int \<Rightarrow> Radio \<Rightarrow> int \<times> Radio" where
  "find_keyboard w [] fd s = (fd, s)"
| "find_keyboard w (i # is) _ s =
     (let p = ''/dev/input/event'' @ show_dec i; fd = w_open w (radio_log s) p; s1 = rdid (ROpen p fd) s in
      if fd < 0 then find_keyboard w is fd s1
      else
        (case w_evname w fd of
           None \<Rightarrow> find_keyboard w is fd (rdid (RClose fd) s1)
         | Some n \<Rightarrow>
             if is_infix ''.kpp'' (take 31 n) then (fd, s1)
             else find_keyboard w is fd (rdid (RClose fd) s1)))"

text \<open>The daemon: the result of \<open>init\<close> is not used; the loop ends when reading the keyboard fails,
  here at the end of the list.\<close>

definition radio_start :: "Frs \<Rightarrow> Radio \<Rightarrow> (int \<times> Radio) option" where
  "radio_start w s =
     (case find_keyboard w [0..<10] (- 1) s of
        (fd, s1) \<Rightarrow>
          (case radio_init w s1 of
             None \<Rightarrow> None
           | Some (ignored, s2) \<Rightarrow> Some (fd, set_speek_dir w ''RECV'' s2)))"

definition radio_run :: "Frs \<Rightarrow> key_event list \<Rightarrow> Radio \<Rightarrow> Radio option" where
  "radio_run w es s = foldM (key_step w) es s"

section \<open>Levels\<close>

text \<open>
  The level of a line is the digit that was written last to its file while it was open: the
  specification of what the hardware sees.
\<close>

fun watch :: "string \<Rightarrow> radio_op \<Rightarrow> (int \<times> string) option \<times> char option \<Rightarrow> (int \<times> string) option \<times> char option" where
  "watch p (ROpen q fd) (cur, l) = (if fd < 0 then None else Some (fd, q), l)"
| "watch p (RWrite fd x) (cur, l) = (cur, if cur = Some (fd, p) then Some (hd x) else l)"
| "watch p (RClose fd) (cur, l) = (None, l)"
| "watch p (Run c) (cur, l) = (cur, l)"

definition scan :: "string \<Rightarrow> Radio \<Rightarrow> (int \<times> string) option \<times> char option" where
  "scan p s = fold (watch p) (radio_log s) (None, None)"

definition level :: "string \<Rightarrow> Radio \<Rightarrow> char option" where
  "level p s = snd (scan p s)"

lemma scan_rdid [simp]: "scan p (rdid x s) = watch p x (scan p s)"
  by (simp add: scan_def rdid_def)

lemma scan_fields [simp]:
  "scan p (s\<lparr>wireless_open := a\<rparr>) = scan p s" "scan p (s\<lparr>wireless_speek := a\<rparr>) = scan p s"
  "scan p (s\<lparr>ticks := t\<rparr>) = scan p s" "scan p (s\<lparr>dev_fd := f\<rparr>) = scan p s"
  by (simp_all add: scan_def)

definition same_flags :: "Radio \<Rightarrow> Radio \<Rightarrow> bool" where
  "same_flags s t =
     (wireless_open t = wireless_open s \<and> wireless_speek t = wireless_speek s \<and> ticks t = ticks s \<and>
      PTT_SYSFS t = PTT_SYSFS s \<and> HL_SYSFS t = HL_SYSFS s \<and> PD_SYSFS t = PD_SYSFS s)"

lemma same_flags_rdid [simp]: "same_flags s (rdid x t) = same_flags s t"
  by (simp add: same_flags_def rdid_def)

lemma same_flags_refl [simp]: "same_flags s s"
  by (simp add: same_flags_def)

lemma same_flags_level [simp]: "same_flags s (write_level w fd c t) = same_flags s t"
  by (simp add: write_level_def)

lemma scan_write_level:
  "0 \<le> fd \<Longrightarrow> scan p (write_level w fd c (rdid (ROpen q fd) s)) = (None, if q = p then Some c else level p s)"
  by (cases "scan p s") (simp add: write_level_def level_def)

lemma scan_speek:
  "d = ''SEND'' \<or> d = ''RECV'' \<Longrightarrow>
   scan p (set_speek_dir w d s) =
     (None, if p = PTT_SYSFS s \<and> 0 \<le> w_open w (radio_log s) (PTT_SYSFS s)
            then Some (if d = ''SEND'' then CHR ''0'' else CHR ''1'') else level p s) \<and>
   same_flags s (set_speek_dir w d s)"
  by (cases "scan p s") (auto simp: set_speek_dir_def same4_def scan_write_level level_def Let_def)

lemma scan_power:
  "d = ''LOW'' \<or> d = ''HIGH'' \<Longrightarrow>
   scan p (set_power w d s) =
     (None, if p = HL_SYSFS s \<and> 0 \<le> w_open w (radio_log s) (HL_SYSFS s)
            then Some (if d = ''HIGH'' then CHR ''1'' else CHR ''0'') else level p s) \<and>
   same_flags s (set_power w d s)"
  by (cases "scan p s") (auto simp: set_power_def same4_def scan_write_level level_def Let_def)

lemma scan_sleep:
  "d = ''SLEEP'' \<or> d = ''WAKE'' \<Longrightarrow>
   scan p (set_sleep w d s) =
     (None, if p = PD_SYSFS s \<and> 0 \<le> w_open w (radio_log s) (PD_SYSFS s)
            then Some (if d = ''WAKE'' then CHR ''1'' else CHR ''0'') else level p s) \<and>
   same_flags s (set_sleep w d s)"
  by (cases "scan p s") (auto simp: set_sleep_def same4_def scan_write_level level_def Let_def)

lemma scan_keybl:
  "p \<noteq> KEYBOARD_BL \<Longrightarrow> scan p (process_keybl w s) = (None, level p s) \<and> same_flags s (process_keybl w s)"
  by (cases "scan p s") (auto simp: process_keybl_def level_def Let_def)

lemma scan_mix: "scan p (fold (\<lambda>(c, v). tinymix_command c v) xs s) = scan p s \<and>
    same_flags s (fold (\<lambda>(c, v). tinymix_command c v) xs s)"
proof (induction xs arbitrary: s)
  case (Cons x xs)
  have "same_flags (tinymix_command (fst x) (snd x) s) t = same_flags s t" for t
    by (simp add: tinymix_command_def same_flags_def rdid_def)
  then show ?case using Cons.IH [of "tinymix_command (fst x) (snd x) s"]
    by (cases x; cases "scan p s") (simp add: tinymix_command_def)
qed simp

lemma scan_route: "scan p (set_audio_route on s) = scan p s \<and> same_flags s (set_audio_route on s)"
  unfolding set_audio_route_def by (rule scan_mix)

section \<open>Lines and flags\<close>

lemmas same_flagsD = same_flags_def [THEN iffD1]

definition digit_of :: "bool \<Rightarrow> char" where
  "digit_of b = (if b then CHR ''1'' else CHR ''0'')"

lemma open_wireless_levels:
  assumes "\<And>l p. 0 \<le> w_open w l p"
  shows "scan p (open_wireless w on s) =
      (None, if p = PD_SYSFS s \<or> p = HL_SYSFS s then Some (digit_of on) else level p s) \<and>
    same_flags s (open_wireless w on s)"
proof -
  define c where "c = (if on then ''HIGH'' else ''LOW'')"
  define d where "d = (if on then ''WAKE'' else ''SLEEP'')"
  define s1 where "s1 = set_power w c s"
  define s2 where "s2 = set_sleep w d s1"
  have o: "open_wireless w on s = set_audio_route on s2"
    by (simp add: open_wireless_def s2_def s1_def c_def d_def)
  have 1: "scan p s1 = (None, if p = HL_SYSFS s then Some (digit_of on) else level p s) \<and> same_flags s s1"
    unfolding s1_def using scan_power [of c p w s] assms by (auto simp: c_def digit_of_def)
  have 2: "scan p s2 = (None, if p = PD_SYSFS s1 then Some (digit_of on) else level p s1) \<and> same_flags s1 s2"
    unfolding s2_def using scan_sleep [of d p w s1] assms by (auto simp: d_def digit_of_def)
  show ?thesis using 1 2 scan_route [of p on s2] by (auto simp: o level_def same_flags_def)
qed

lemma send_cmd_scan:
  assumes "send_cmd_wait_ack w c s = Some (r, t)" and "fst (scan p s) = None"
  shows "scan p t = scan p s \<and> same_flags s t"
proof -
  have "t = rdid (RWrite (dev_fd s) (c @ [CR, NL])) s"
    using assms(1) by (auto simp: send_cmd_wait_ack_def Let_def split: if_splits option.splits)
  then show ?thesis using assms(2) by (cases "scan p s") auto
qed

text \<open>What the connect key leaves: the key light and the command change no level.\<close>

lemma connect_scan:
  assumes "connect_key w e (process_keybl w s) = Some t" and "p \<noteq> KEYBOARD_BL"
  shows "scan p t = (None, level p s) \<and> same_flags s t"
proof -
  note k = scan_keybl [OF assms(2), of w s]
  show ?thesis
  proof (cases "ev_code e = KEY_F1 \<and> ev_value e = 0")
    case True
    then obtain r where "send_cmd_wait_ack w ''AT+DMOCONNECT'' (process_keybl w s) = Some (r, t)"
      using assms(1) by (auto simp: connect_key_def)
    from send_cmd_scan [OF this, of p] show ?thesis using k by (auto simp: same_flags_def)
  next
    case False
    then show ?thesis using assms(1) k by (auto simp: connect_key_def)
  qed
qed

definition radio_ok :: "Radio \<Rightarrow> bool" where
  "radio_ok s =
     (distinct [PTT_SYSFS s, HL_SYSFS s, PD_SYSFS s, KEYBOARD_BL] \<and>
      level (PTT_SYSFS s) s = Some (digit_of (\<not> wireless_speek s)) \<and>
      (if wireless_open s then level (HL_SYSFS s) s = Some (digit_of True) \<and> level (PD_SYSFS s) s = Some (digit_of True)
       else level (HL_SYSFS s) s \<noteq> Some (digit_of True) \<and> level (PD_SYSFS s) s \<noteq> Some (digit_of True)))"

lemma radio_ok_cong:
  assumes "radio_ok s" and "same_flags s t"
    and "\<And>p. p \<in> {PTT_SYSFS s, HL_SYSFS s, PD_SYSFS s} \<Longrightarrow> level p t = level p s"
  shows "radio_ok t"
  using assms by (auto simp: radio_ok_def same_flags_def)

lemma power_key_ok:
  assumes "\<And>l p. 0 \<le> w_open w l p" and "radio_ok s"
  shows "radio_ok (power_key w e s)"
proof -
  have t: "radio_ok (s\<lparr>ticks := x\<rparr>)" for x using assms(2) by (simp add: radio_ok_def level_def cong: if_cong)
  have "radio_ok (open_wireless w (\<not> wireless_open s) (s\<lparr>wireless_open := \<not> wireless_open s\<rparr>))"
    using assms(2) open_wireless_levels [OF assms(1), of _ "\<not> wireless_open s" "s\<lparr>wireless_open := \<not> wireless_open s\<rparr>"]
    by (auto simp: radio_ok_def level_def same_flags_def digit_of_def)
  then show ?thesis using t assms(2) by (simp add: power_key_def Let_def)
qed

lemma talk_key_ok:
  assumes "\<And>l p. 0 \<le> w_open w l p" and "radio_ok s"
  shows "radio_ok (talk_key w e s)"
proof -
  have "radio_ok ((set_speek_dir w (if b then ''SEND'' else ''RECV'') s)\<lparr>wireless_speek := b\<rparr>)" for b
    using assms scan_speek [of "if b then ''SEND'' else ''RECV''" _ w s]
    by (auto simp: radio_ok_def level_def same_flags_def digit_of_def)
  from this [of True] this [of False] show ?thesis using assms(2) by (simp add: talk_key_def)
qed

interpretation radio: partial_stepper "key_step w" "\<lambda>s. (\<forall>l p. 0 \<le> w_open w l p) \<and> radio_ok s" for w
proof unfold_locales
  fix s e t assume a: "(\<forall>l p. 0 \<le> w_open w l p) \<and> radio_ok s" and k: "key_step w e s = Some t"
  then obtain s1 where s1: "connect_key w e (process_keybl w s) = Some s1" and t: "t = talk_key w e (power_key w e s1)"
    by (auto simp: key_step_def)
  have "p \<noteq> KEYBOARD_BL \<Longrightarrow> level p s1 = level p s \<and> same_flags s s1" for p
    using connect_scan [OF s1] by (simp add: level_def)
  then have "radio_ok s1"
    using a by (intro radio_ok_cong [of s s1]) (auto simp: radio_ok_def)
  then show "(\<forall>l p. 0 \<le> w_open w l p) \<and> radio_ok t"
    using a power_key_ok talk_key_ok by (simp add: t)
qed

section \<open>From the start\<close>

definition radio_boot :: Radio where
  "radio_boot =
     \<lparr>DEV_NAME_SYSFS = [], SQ_SYSFS = [], VOXDEC_SYSFS = [], PTT_SYSFS = [], PD_SYSFS = [], HL_SYSFS = [],
      dev_fd = - 1, wireless_open = False, wireless_speek = False, ticks = 0, radio_log = []\<rparr>"

text \<open>Nothing is written before the direction is set for the first time.\<close>

definition quiet :: "Radio \<Rightarrow> bool" where
  "quiet s = (\<not> wireless_open s \<and> \<not> wireless_speek s \<and> list_all (\<lambda>x. case x of RWrite fd c \<Rightarrow> False | _ \<Rightarrow> True) (radio_log s))"

lemma quiet_simps [simp]:
  "quiet (rdid (ROpen p fd) s) = quiet s" "quiet (rdid (RClose fd) s) = quiet s"
  "quiet (s\<lparr>dev_fd := f\<rparr>) = quiet s" "quiet (sysfs_names n s) = quiet s"
  by (simp_all add: quiet_def rdid_def sysfs_names_def)

lemma quiet_cleanup [simp]: "quiet (cleanup s) = quiet s"
  by (simp add: cleanup_def)

lemma quiet_keyboard: "quiet s \<Longrightarrow> quiet (snd (find_keyboard w is fd s))"
  by (induction w "is" fd s rule: find_keyboard.induct) (auto simp: Let_def split: option.splits)

lemma quiet_uart: "uart_open w s = Some (r, t) \<Longrightarrow> quiet s \<Longrightarrow> quiet t"
  by (auto simp: uart_open_def Let_def split: if_splits option.splits)

lemma quiet_init: "radio_init w s = Some (r, t) \<Longrightarrow> quiet s \<Longrightarrow> quiet t"
  by (auto simp: radio_init_def Let_def split: if_splits option.splits list.splits dest: quiet_uart)

lemma quiet_level: "quiet s \<Longrightarrow> level p s = None"
proof -
  have "list_all (\<lambda>x. case x of RWrite fd c \<Rightarrow> False | _ \<Rightarrow> True) l \<Longrightarrow>
      snd (fold (watch p) l (c, None)) = None" for l c
  proof (induction l arbitrary: c)
    case (Cons x l)
    then show ?case by (cases x) auto
  qed simp
  then show "quiet s \<Longrightarrow> level p s = None" by (simp add: quiet_def level_def scan_def)
qed

lemma start_ok:
  assumes "\<And>l p. 0 \<le> w_open w l p" and "radio_start w radio_boot = Some (fd, s)"
    and "distinct [PTT_SYSFS s, HL_SYSFS s, PD_SYSFS s, KEYBOARD_BL]"
  shows "radio_ok s"
proof -
  obtain s1 where k: "find_keyboard w [0..<10] (- 1) radio_boot = (fd, s1)"
    using assms(2) by (auto simp: radio_start_def split: prod.splits option.splits)
  obtain r s2 where i: "radio_init w s1 = Some (r, s2)" and s: "s = set_speek_dir w ''RECV'' s2"
    using assms(2) k by (auto simp: radio_start_def split: option.splits)
  have "quiet radio_boot" by (simp add: quiet_def radio_boot_def)
  then have q: "quiet s2" using quiet_keyboard [of radio_boot w "[0..<10]" "- 1"] k quiet_init [OF i] by simp
  show ?thesis
    using assms(1,3) scan_speek [of "''RECV''" _ w s2] quiet_level [OF q] q
    by (auto simp: radio_ok_def s level_def same_flags_def digit_of_def quiet_def)
qed

text \<open>C16: the lines follow the daemon's flags: whatever keys are pressed after the start, the direction
  line was last set to sending exactly when the daemon counts as speaking, and power and sleep are at
  high and awake whenever the radio counts as open and at neither when it does not, as long as the
  files can be opened and the names of the lines differ.\<close>

theorem lines_follow_flags:
  assumes "\<And>l p. 0 \<le> w_open w l p" and "radio_start w radio_boot = Some (fd, s)"
    and "distinct [PTT_SYSFS s, HL_SYSFS s, PD_SYSFS s, KEYBOARD_BL]" and "radio_run w es s = Some t"
  shows "level (PTT_SYSFS t) t = Some (if wireless_speek t then CHR ''0'' else CHR ''1'') \<and>
    (if wireless_open t
     then level (HL_SYSFS t) t = Some CHR ''1'' \<and> level (PD_SYSFS t) t = Some CHR ''1''
     else level (HL_SYSFS t) t \<noteq> Some CHR ''1'' \<and> level (PD_SYSFS t) t \<noteq> Some CHR ''1'')"
  using radio.prun_inv [of w s es t] start_ok [OF assms(1-3)] assms(1,4)
  by (auto simp: radio_run_def radio_ok_def digit_of_def split: if_splits)

definition demo_frs :: Frs where
  "demo_frs =
     \<lparr>w_dir = Some [''.'', ''sr_frs.0'', ''soc''], w_exists = (\<lambda>p. True), w_open = (\<lambda>l p. 5),
      w_write = (\<lambda>l fd x. int (length x)), w_ready = (\<lambda>l fd. Some (''/dev/ttymxc3'' @ [NL])),
      w_tcgetattr = (\<lambda>l fd. True), w_evname = (\<lambda>fd. Some ''20b8000.kpp'')\<rparr>"

definition key :: "nat \<Rightarrow> int \<Rightarrow> int \<Rightarrow> key_event" where
  "key k v t = \<lparr>ev_code = k, ev_value = v, ev_sec = t, ev_usec = 0\<rparr>"

text \<open>Open the radio, then talk.\<close>

definition talk_session :: "key_event list" where
  "talk_session = [key KEY_F2 1 100, key KEY_F2 0 103, key KEY_F3 1 105]"

lemma demo_session:
  "case radio_start demo_frs radio_boot of
     None \<Rightarrow> False
   | Some (fd, s) \<Rightarrow> distinct [PTT_SYSFS s, HL_SYSFS s, PD_SYSFS s, KEYBOARD_BL] \<and>
       (case radio_run demo_frs talk_session s of None \<Rightarrow> False | Some t \<Rightarrow> wireless_speek t \<and> wireless_open t)"
  by code_simp

theorem lines_follow_flags_witness:
  "case radio_start demo_frs radio_boot of
     None \<Rightarrow> False
   | Some (fd, s) \<Rightarrow>
       (case radio_run demo_frs talk_session s of
          None \<Rightarrow> False | Some t \<Rightarrow> level (PTT_SYSFS t) t = Some CHR ''0'' \<and> level (PD_SYSFS t) t = Some CHR ''1'')"
proof -
  obtain fd s t where s: "radio_start demo_frs radio_boot = Some (fd, s)"
    "distinct [PTT_SYSFS s, HL_SYSFS s, PD_SYSFS s, KEYBOARD_BL]" "radio_run demo_frs talk_session s = Some t"
    "wireless_speek t" "wireless_open t"
    using demo_session by (auto split: option.splits prod.splits)
  have "0 \<le> w_open demo_frs l p" for l p by (simp add: demo_frs_def)
  from lines_follow_flags [OF this s(1-3)] show ?thesis using s by simp
qed

section \<open>A closed radio that talks\<close>

text \<open>Closing the radio while the talk key is held leaves it sending: from then on, until the
  power key is used again, no other key changes the direction line, the release of the talk key
  included, so what it was at stays, whatever the files answer.\<close>

theorem closed_radio_keeps_direction:
  assumes "\<not> wireless_open s" and "PTT_SYSFS s \<noteq> KEYBOARD_BL"
    and "list_all (\<lambda>e. ev_code e \<noteq> KEY_F2) es" and "radio_run w es s = Some t"
  shows "level (PTT_SYSFS t) t = level (PTT_SYSFS s) s \<and> wireless_speek t = wireless_speek s \<and> \<not> wireless_open t"
  using assms unfolding radio_run_def
proof (induction es arbitrary: s)
  case (Cons e es)
  obtain s1 where k: "key_step w e s = Some s1" and r: "foldM (key_step w) es s1 = Some t"
    using Cons.prems(4) by (auto split: option.splits)
  obtain s2 where c: "connect_key w e (process_keybl w s) = Some s2" and s1: "s1 = talk_key w e (power_key w e s2)"
    using k by (auto simp: key_step_def)
  have 2: "level p s2 = level p s \<and> same_flags s s2" if "p \<noteq> KEYBOARD_BL" for p
    using connect_scan [OF c that] by (simp add: level_def)
  have "s1 = s2"
    using s1 Cons.prems(1,3) 2 [OF Cons.prems(2)] by (simp add: power_key_def talk_key_def same_flags_def)
  then show ?case
    using Cons.IH [of s1] Cons.prems r 2 [OF Cons.prems(2)] by (simp add: same_flags_def)
qed simp

text \<open>A radio that was closed in the middle of a talk.\<close>

definition stuck_radio :: Radio where
  "stuck_radio = radio_boot
     \<lparr>PTT_SYSFS := ''/ptt_gpios'', wireless_speek := True,
      radio_log := [ROpen ''/ptt_gpios'' 5, RWrite 5 [CHR ''0'', NUL, NUL, NUL], RClose 5]\<rparr>"

lemma stuck_release:
  "\<not> wireless_open stuck_radio \<and> PTT_SYSFS stuck_radio \<noteq> KEYBOARD_BL \<and>
   level (PTT_SYSFS stuck_radio) stuck_radio = Some CHR ''0'' \<and>
   radio_run demo_frs [key KEY_F3 0 204] stuck_radio \<noteq> None"
  by code_simp

theorem closed_radio_keeps_direction_witness:
  "case radio_run demo_frs [key KEY_F3 0 204] stuck_radio of
     None \<Rightarrow> False | Some t \<Rightarrow> level (PTT_SYSFS t) t = Some CHR ''0'' \<and> \<not> wireless_open t"
proof -
  obtain t where t: "radio_run demo_frs [key KEY_F3 0 204] stuck_radio = Some t" using stuck_release by blast
  have "list_all (\<lambda>e. ev_code e \<noteq> KEY_F2) [key KEY_F3 0 204]" by (simp add: key_def key_defs)
  from closed_radio_keeps_direction [OF _ _ this t] show ?thesis using stuck_release t by simp
qed

text \<open>The state before: the power key changes no direction.\<close>

lemma power_key_direction:
  assumes "distinct [PTT_SYSFS s, HL_SYSFS s, PD_SYSFS s]" and "\<And>l p. 0 \<le> w_open w l p"
  shows "level (PTT_SYSFS s) (power_key w e s) = level (PTT_SYSFS s) s \<and>
    wireless_speek (power_key w e s) = wireless_speek s"
  using assms(1) open_wireless_levels [OF assms(2), of "PTT_SYSFS s" "\<not> wireless_open s" "s\<lparr>wireless_open := \<not> wireless_open s\<rparr>"]
  by (auto simp: power_key_def Let_def level_def same_flags_def)

section \<open>The power key's time\<close>

text \<open>Whole milliseconds of a time.\<close>

definition ms :: "key_event \<Rightarrow> int" where
  "ms e = ev_sec e * 1000 + ev_usec e div 1000"

lemma get_ticks_ms: "get_ticks (ev_sec e) (ev_usec e) = word_of_int (wrap32 (ms e))"
  unfolding get_ticks_def ms_def wrap32_def
  by (metis (no_types) signed_take_bit_add signed_take_bit_signed_take_bit min.idem)

lemma word_diff_ge:
  fixes a b :: int
  assumes "- 2147483648 \<le> a" "a < 2147483648" "- 2147483648 \<le> b" "b < 2147483648"
  shows "((2000 :: 64 word) \<le> word_of_int b - word_of_int a) = (2000 \<le> b - a \<or> b < a)"
proof -
  have u: "uint (word_of_int b - word_of_int a :: 64 word) = (b - a) mod 2 ^ 64"
    by (simp add: uint_word_ariths uint_word_of_int mod_diff_eq)
  show ?thesis
  proof (cases "b < a")
    case True
    then have "(b - a) mod 2 ^ 64 = b - a + 2 ^ 64"
      using assms mod_add_self2 [of "b - a" "2 ^ 64"] mod_pos_pos_trivial [of "b - a + 2 ^ 64" "2 ^ 64"] by simp
    then show ?thesis using True assms u by (simp add: word_le_def)
  next
    case False
    then have "(b - a) mod 2 ^ 64 = b - a" using assms by (intro mod_pos_pos_trivial) simp_all
    then show ?thesis using False u by (simp add: word_le_def)
  qed
qed

lemma wrap32_mod: "wrap32 i = (i + 2147483648) mod 4294967296 - 2147483648"
  by (simp add: wrap32_def signed_take_bit_eq_take_bit_shift take_bit_eq_mod)

text \<open>A difference of less than 2^31 is kept or, when the first value wraps and the second does not, off by 2^32.\<close>

lemma wrap32_diff:
  assumes "a \<le> b" and "b - a < 2147483648" and "\<not> wrap32 b < wrap32 a"
  shows "wrap32 b - wrap32 a = b - a"
proof -
  let ?x = "(a + 2147483648) mod 4294967296" and ?d = "b - a"
  have x: "0 \<le> ?x" "?x < 4294967296" by simp_all
  have y: "(b + 2147483648) mod 4294967296 = (?x + ?d) mod 4294967296"
    using mod_add_left_eq [of "a + 2147483648" 4294967296 ?d] by (simp add: add.commute)
  show ?thesis
  proof (cases "?x + ?d < 4294967296")
    case True
    then show ?thesis using x assms(1) y by (simp add: wrap32_mod)
  next
    case False
    then have "(?x + ?d) mod 4294967296 = ?x + ?d - 4294967296"
      using x assms(2) mod_add_self2 [of "?x + ?d - 4294967296" 4294967296]
        mod_pos_pos_trivial [of "?x + ?d - 4294967296" 4294967296] by simp
    then show ?thesis using assms(2,3) y by (simp add: wrap32_mod)
  qed
qed

lemma open_wireless_flags: "wireless_open (open_wireless w b s) = wireless_open s"
proof -
  have "wireless_open (set_power w d t) = wireless_open t" "wireless_open (set_sleep w d t) = wireless_open t" for d t
    by (simp_all add: set_power_def set_sleep_def write_level_def rdid_def Let_def)
  then show ?thesis using scan_route [of "[]"] by (auto simp: open_wireless_def same_flags_def)
qed

text \<open>The power key works when it is held for two seconds or more, and never when it is shorter,
  unless the millisecond clock, which has 32 bits, passes its largest value while the key is down:
  then every press counts as long.\<close>

theorem power_key_hold:
  assumes "ev_code e1 = KEY_F2" and "ev_value e1 = 1" and "ev_code e2 = KEY_F2" and "ev_value e2 = 0"
    and "ms e1 \<le> ms e2" and "ms e2 - ms e1 < 2147483648"
  shows "(wireless_open (power_key w e2 (power_key w e1 s)) \<noteq> wireless_open s) =
    (2000 \<le> ms e2 - ms e1 \<or> wrap32 (ms e2) < wrap32 (ms e1))"
proof -
  have d: "(2000 \<le> wrap32 (ms e2) - wrap32 (ms e1) \<or> wrap32 (ms e2) < wrap32 (ms e1)) =
    (2000 \<le> ms e2 - ms e1 \<or> wrap32 (ms e2) < wrap32 (ms e1))"
    using wrap32_diff [OF assms(5,6)] by auto
  show ?thesis
    using assms(1-4) d word_diff_ge [OF wrap32_bounds [THEN conjunct1] wrap32_bounds [THEN conjunct2]
        wrap32_bounds [THEN conjunct1] wrap32_bounds [THEN conjunct2], of "ms e2" "ms e1"]
    by (simp add: power_key_def get_ticks_ms open_wireless_flags Let_def)
qed

theorem power_key_hold_witness:
  "wireless_open (power_key demo_frs (key KEY_F2 0 103) (power_key demo_frs (key KEY_F2 1 100) radio_boot)) \<and>
   \<not> wireless_open (power_key demo_frs (key KEY_F2 0 101) (power_key demo_frs (key KEY_F2 1 100) radio_boot))"
  using power_key_hold [of "key KEY_F2 1 100" "key KEY_F2 0 103" demo_frs radio_boot]
    power_key_hold [of "key KEY_F2 1 100" "key KEY_F2 0 101" demo_frs radio_boot]
  by (simp add: key_def ms_def radio_boot_def wrap32_id)

section \<open>Answers\<close>

lemma read_ack_full: "RBUF \<le> length acc \<Longrightarrow> read_ack cs acc = None"
  by (cases cs) simp_all

lemma read_ack_append: "length acc < RBUF \<Longrightarrow>
   read_ack cs acc = (if length acc + length cs < RBUF then Some (acc @ cs) else None)"
proof (induction cs acc rule: read_ack.induct)
  case (2 c cs rbuf)
  then show ?case by (cases "length rbuf + 1 < RBUF") (auto simp: read_ack_full)
qed simp

text \<open>A command goes out with its line end, and its answer is taken in whole when it has fewer than
  128 bytes; a longer one is written past the array on the stack, or leaves the string that is
  printed without an end.\<close>

theorem ack_fits:
  assumes "length buf + 2 < 128" and "w_write w (radio_log s) (dev_fd s) (buf @ [CR, NL]) = int (length buf + 2)"
    and "w_ready w (radio_log s @ [RWrite (dev_fd s) (buf @ [CR, NL])]) (dev_fd s) = Some cs"
  shows "send_cmd_wait_ack w buf s =
    (if length cs < 128 then Some (cs, s\<lparr>radio_log := radio_log s @ [RWrite (dev_fd s) (buf @ [CR, NL])]\<rparr>) else None)"
  using assms by (simp add: send_cmd_wait_ack_def rdid_def read_ack_append RBUF_def)

theorem ack_fits_witness:
  "case send_cmd_wait_ack demo_frs ''AT+DMOCONNECT'' radio_boot of
     None \<Rightarrow> False | Some (r, s) \<Rightarrow> r = ''/dev/ttymxc3'' @ [NL]"
  using ack_fits [of "''AT+DMOCONNECT''" demo_frs radio_boot "''/dev/ttymxc3'' @ [NL]"]
  by (simp add: demo_frs_def radio_boot_def)

end
