(* ===== verification/Alsa_Convert.thy ===== *)
theory Alsa_Convert
  imports C_Prelude "HOL-Library.Multiset"
begin

text \<open>
  The sample and rate arithmetic of the ALSA audio HAL (src/alsa/tinyalsa_hal.c): the conversion of
  recorded samples (\<open>convert_record_data\<close>), the channel order of the ESAI port
  (\<open>convert_output_for_esai\<close>), the rate of an S/PDIF input, the sizes of buffers and the texts with
  the supported rates and channels. A read or write outside an array has the result \<open>None\<close>.
\<close>

text \<open>The number of bits that are set.\<close>

definition popcount :: "u32 \<Rightarrow> nat" where
  "popcount w = length (filter (bit w) [0..<32])"

section \<open>Recorded samples\<close>

text \<open>A loop that takes \<open>w\<close> samples per round from the source.\<close>

fun convert_frames :: "nat \<Rightarrow> (int list \<Rightarrow> int list) \<Rightarrow> nat \<Rightarrow> int list \<Rightarrow> int list option" where
  "convert_frames w f 0 src = Some []"
| "convert_frames w f (Suc n) src =
     (if length src < w then None
      else map_option (\<lambda>ys. f (take w src) @ ys) (convert_frames w f n (drop w src)))"

text \<open>
  The source has 32 bit integers with samples of 24 bits when \<open>bit24\<close>, else 16 bit integers; the
  result are the 16 bit integers written. The five \<open>if\<close>s of the source exclude each other; with
  other flags nothing is written.
\<close>

definition convert_record_data :: "nat \<Rightarrow> bool \<Rightarrow> bool \<Rightarrow> bool \<Rightarrow> int list \<Rightarrow> int list option" where
  "convert_record_data frames bit24 mono2stereo stereo2mono src =
     (if bit24 \<and> mono2stereo \<and> \<not> stereo2mono then
        convert_frames 1 (\<lambda>d. [wrap16 (d ! 0 div 256), wrap16 (d ! 0 div 256)]) frames src
      else if bit24 \<and> \<not> mono2stereo \<and> stereo2mono then
        convert_frames 2
          (\<lambda>d. [wrap16 (wrap32 (d ! 0 * 256) div 131072 + wrap32 (d ! 1 * 256) div 131072)]) frames src
      else if bit24 \<and> \<not> mono2stereo \<and> \<not> stereo2mono then
        convert_frames 2 (\<lambda>d. [wrap16 (d ! 0 div 256), wrap16 (d ! 1 div 256)]) frames src
      else if \<not> bit24 \<and> mono2stereo \<and> \<not> stereo2mono then
        convert_frames 1 (\<lambda>d. [d ! 0, d ! 0]) frames src
      else if \<not> bit24 \<and> \<not> mono2stereo \<and> stereo2mono then
        convert_frames 2 (\<lambda>d. [wrap16 (d ! 0 div 2 + d ! 1 div 2)]) frames src
      else Some [])"

section \<open>The order of channels of ESAI\<close>

text \<open>Which sample of a frame comes out at each place: front left, back left, center, ...\<close>

definition esai_source :: "nat \<Rightarrow> nat list" where
  "esai_source ch = (if ch = 6 then [0, 4, 2, 1, 5, 3] else [0, 4, 2, 6, 1, 5, 3, 7])"

definition esai_frame :: "nat \<Rightarrow> nat \<Rightarrow> int list \<Rightarrow> int list" where
  "esai_frame ch i xs = put_at (i * ch) (map (\<lambda>k. xs ! (i * ch + k)) (esai_source ch)) xs"

text \<open>The buffer is changed in place; its bytes are counted in an \<open>int\<close>.\<close>

definition convert_output_for_esai :: "nat \<Rightarrow> int list \<Rightarrow> int list" where
  "convert_output_for_esai ch xs =
     (if ch = 6 \<or> ch = 8
      then fold (esai_frame ch) [0..<nat (wrap32 (int (2 * length xs)) div int (2 * ch))] xs
      else xs)"

section \<open>Rates and sizes\<close>

text \<open>The rate of an S/PDIF input, from the measured one.\<close>

definition spdif_rate :: "nat \<Rightarrow> nat" where
  "spdif_rate r =
     (if r \<le> 4000 then 0
      else if r \<le> (8000 + 11025) div 2 then 8000
      else if r \<le> (11025 + 16000) div 2 then 11025
      else if r \<le> (16000 + 22050) div 2 then 16000
      else if r \<le> (22050 + 32000) div 2 then 22050
      else if r \<le> (32000 + 44100) div 2 then 32000
      else if r \<le> (44100 + 48000) div 2 then 44100
      else if r \<le> (48000 + 64000) div 2 then 48000
      else if r \<le> (64000 + 88200) div 2 then 64000
      else if r \<le> (88200 + 96000) div 2 then 88200
      else if r \<le> (96000 + 176400) div 2 then 96000
      else if r \<le> (176400 + 196000) div 2 then 176400
      else 196000)"

definition input_rates :: "nat list" where
  "input_rates = [8000, 11025, 16000, 22050, 24000, 32000, 44100, 48000]"

definition EINVAL :: int where "EINVAL = 22"
definition ENOSYS :: int where "ENOSYS = 38"

text \<open>\<open>pcm16\<close>: the format is the one of 16 bits.\<close>

definition check_input_parameters :: "nat \<Rightarrow> bool \<Rightarrow> int \<Rightarrow> int" where
  "check_input_parameters r pcm16 ch =
     (if \<not> pcm16 then - EINVAL
      else if ch < 1 \<or> 2 < ch then - EINVAL
      else if r \<in> set input_rates then 0 else - EINVAL)"

definition CAPTURE_PERIOD_SIZE :: nat where "CAPTURE_PERIOD_SIZE = 1024"

text \<open>The product has 32 bits; \<open>hw\<close> is the rate of \<open>pcm_config_mm_in\<close>.\<close>

definition get_input_buffer_size :: "nat \<Rightarrow> nat \<Rightarrow> bool \<Rightarrow> int \<Rightarrow> nat" where
  "get_input_buffer_size hw r pcm16 ch =
     (if check_input_parameters r pcm16 ch \<noteq> 0 then 0
      else (unat (of_nat CAPTURE_PERIOD_SIZE * of_nat r :: u32) div hw + 15) div 16 * 16 * nat ch * 2)"

section \<open>What a stream can play\<close>

text \<open>
  The arrays are \<open>sup_channel_masks\<close> of three and \<open>sup_rates\<close> of 20 entries, ended by a zero; the
  text is put together in 256 bytes and a number in ten.
\<close>

fun channels_text :: "(u32 \<times> string) list \<Rightarrow> u32 list \<Rightarrow> bool \<Rightarrow> string \<Rightarrow> (bool \<times> string) option" where
  "channels_text table [] first v = None"
| "channels_text table (m # ms) first v =
     (if m = 0 then Some (first, v)
      else
        (case map_of table m of
           None \<Rightarrow> channels_text table ms first v
         | Some name \<Rightarrow>
             (let v1 = (if first then v else v @ ''|'') @ name in
              if 256 \<le> length v1 then None else channels_text table ms False v1)))"

definition show_int :: "int \<Rightarrow> string" where
  "show_int i = (if i < 0 then ''-'' @ show_dec (nat (- i)) else show_dec (nat i))"

fun rates_text :: "int list \<Rightarrow> bool \<Rightarrow> string \<Rightarrow> (bool \<times> string) option" where
  "rates_text [] first v = None"
| "rates_text (r # rs) first v =
     (if r = 0 then Some (first, v)
      else
        (let v1 = (if first then v else v @ ''|'') @ show_int r in
         if 10 \<le> length (show_int r) \<or> 256 \<le> length v1 then None else rates_text rs False v1))"

text \<open>The answers to a query for the channels and for the rates; both loops share the flag \<open>first\<close>.\<close>

definition out_get_parameters ::
  "(u32 \<times> string) list \<Rightarrow> bool \<Rightarrow> bool \<Rightarrow> u32 list \<Rightarrow> int list \<Rightarrow> (string option \<times> string option) option" where
  "out_get_parameters table channels rates masks rs =
     (case (if channels then map_option (map_prod id Some) (channels_text table masks True []) else Some (True, None)) of
        None \<Rightarrow> None
      | Some (first, c) \<Rightarrow>
          (if rates then map_option (\<lambda>(f, v). (c, Some v)) (rates_text rs first []) else Some (c, None)))"

text \<open>What the HDMI sink supports, from the values of its control: the masks for stereo, 5.1 and 7.1.\<close>

definition hdmi_masks :: "u32 \<times> u32 \<times> u32 \<Rightarrow> int list \<Rightarrow> u32 list" where
  "hdmi_masks names values =
     concat (map (\<lambda>c. if c = 2 then [fst names] else if c = 6 then [fst (snd names)]
                      else if c = 8 then [snd (snd names)] else []) values)"

definition out_read_hdmi_channel_masks ::
  "u32 \<times> u32 \<times> u32 \<Rightarrow> int list \<Rightarrow> u32 list \<Rightarrow> (int \<times> u32 list) option" where
  "out_read_hdmi_channel_masks names values masks =
     (let ms = hdmi_masks names values in
      if 20 < length values \<or> length masks < length ms then None
      else Some (if ms = [] then - ENOSYS else 0, put_at 0 ms masks))"

definition out_read_hdmi_rates :: "int list \<Rightarrow> int list \<Rightarrow> int list option" where
  "out_read_hdmi_rates values rs = (if length rs < length values then None else Some (put_at 0 values rs))"

section \<open>Frames\<close>

lemma convert_frames_map:
  "length src = w * n \<Longrightarrow>
   convert_frames w f n src = Some (concat (map (\<lambda>i. f (map (\<lambda>k. src ! (w * i + k)) [0..<w])) [0..<n]))"
proof (induction n arbitrary: src)
  case (Suc n)
  have "map (\<lambda>i. f (map (\<lambda>k. drop w src ! (w * i + k)) [0..<w])) [0..<n] =
        map (\<lambda>i. f (map (\<lambda>k. src ! (w * Suc i + k)) [0..<w])) [0..<n]"
    using Suc.prems by (simp add: ac_simps)
  moreover have "map (\<lambda>k. src ! k) [0..<w] = take w src"
    using Suc.prems by (intro nth_equalityI) simp_all
  ultimately show ?case
    using Suc by (simp add: upt_conv_Cons [of 0 "Suc n"] map_Suc_upt [symmetric] o_def add.assoc del: upt_Suc)
qed simp

lemma nth_frames:
  "(\<And>i. i < n \<Longrightarrow> length (g i) = w) \<Longrightarrow> i < n * w \<Longrightarrow> concat (map g [0..<n]) ! i = g (i div w) ! (i mod w)"
proof (induction n)
  case (Suc n)
  have len: "length (concat (map g [0..<n])) = n * w"
    using Suc.prems(1) by (induction n) simp_all
  show ?case
  proof (cases "i < n * w")
    case False
    then have d: "i div w = n"
      using Suc.prems(2) by (intro div_nat_eqI) (simp_all add: algebra_simps)
    then have "i mod w = i - n * w" using minus_div_mult_eq_mod [of i w] by simp
    then show ?thesis using False len d by (simp add: nth_append)
  qed (use Suc len in \<open>simp add: nth_append\<close>)
qed simp

lemma length_frames: "(\<And>i. i < n \<Longrightarrow> length (g i) = w) \<Longrightarrow> length (concat (map g [0..<n])) = n * w"
  by (induction n) simp_all

section \<open>Recorded samples are kept\<close>

text \<open>The sample of 24 bits in the low bytes of an integer, and a source sample at 16 bits.\<close>

definition s24 :: "int \<Rightarrow> int" where
  "s24 d = signed_take_bit 23 d"

definition level16 :: "bool \<Rightarrow> int \<Rightarrow> int" where
  "level16 bit24 d = (if bit24 then s24 d div 256 else d)"

definition recorded :: "bool \<Rightarrow> bool \<Rightarrow> bool \<Rightarrow> int list \<Rightarrow> nat \<Rightarrow> int" where
  "recorded bit24 mono2stereo stereo2mono src i =
     (if mono2stereo then level16 bit24 (src ! (i div 2))
      else if stereo2mono then level16 bit24 (src ! (2 * i)) div 2 + level16 bit24 (src ! (2 * i + 1)) div 2
      else level16 bit24 (src ! i))"

lemma s24_bounds: "- 8388608 \<le> s24 d \<and> s24 d < 8388608"
  using signed_take_bit_int_greater_eq_minus_exp [of 23 d] signed_take_bit_int_less_exp [of 23 d]
  by (simp add: s24_def)

lemma wrap16_s24: "wrap16 (d div 256) = s24 d div 256"
proof -
  have "signed_take_bit 15 (drop_bit 8 d) = drop_bit 8 (signed_take_bit 23 d)"
    by (rule bit_eqI) (auto simp: bit_simps min_def)
  then show ?thesis by (simp add: wrap16_def s24_def drop_bit_eq_div)
qed

lemma wrap32_s24: "wrap32 (d * 256) div 131072 = s24 d div 256 div 2"
proof -
  have "signed_take_bit 31 (push_bit 8 d) = push_bit 8 (signed_take_bit 23 d)"
    by (rule bit_eqI) (auto simp: bit_simps min_def)
  then have "wrap32 (d * 256) = s24 d * 256" by (simp add: wrap32_def s24_def push_bit_eq_mult)
  then show ?thesis by (simp add: zdiv_zmult2_eq [symmetric])
qed

lemma level16_bounds: "(bit24 \<or> - 32768 \<le> d \<and> d < 32768) \<Longrightarrow> - 32768 \<le> level16 bit24 d \<and> level16 bit24 d < 32768"
  using s24_bounds [of d] by (auto simp: level16_def)

lemma half_sum: "- 32768 \<le> a \<Longrightarrow> a < 32768 \<Longrightarrow> - 32768 \<le> b \<Longrightarrow> b < 32768 \<Longrightarrow>
    - 32768 \<le> a div 2 + b div 2 \<and> a div 2 + b div 2 < (32768 :: int)"
  by presburger

text \<open>C13: A recording is converted sample by sample: the 16 bit level of the source sample (the low
  24 bits of an integer, whatever its top byte holds), twice for mono to stereo, and for stereo to
  mono the sum of the two halved levels, which never leaves 16 bits. Nothing is read or
  written outside the frames.\<close>

theorem record_conversion_exact:
  assumes "\<not> (mono2stereo \<and> stereo2mono)" and "bit24 \<or> mono2stereo \<or> stereo2mono"
    and "length src = frames * (if mono2stereo then 1 else 2)"
    and "bit24 \<or> (\<forall>d \<in> set src. - 32768 \<le> d \<and> d < 32768)"
  shows "convert_record_data frames bit24 mono2stereo stereo2mono src =
           Some (map (recorded bit24 mono2stereo stereo2mono src) [0..<frames * (if stereo2mono then 1 else 2)]) \<and>
         (\<forall>i < frames * (if stereo2mono then 1 else 2).
            - 32768 \<le> recorded bit24 mono2stereo stereo2mono src i \<and> recorded bit24 mono2stereo stereo2mono src i < 32768)"
proof -
  let ?w = "if mono2stereo then 1 else 2 :: nat" and ?v = "if stereo2mono then 1 else 2 :: nat"
  let ?r = "recorded bit24 mono2stereo stereo2mono src"
  let ?g = "\<lambda>i. map (\<lambda>k. ?r (?v * i + k)) [0..<?v]"
  have in16: "- 32768 \<le> level16 bit24 (src ! j) \<and> level16 bit24 (src ! j) < 32768" if "j < length src" for j
    using assms(4) that by (intro level16_bounds) auto
  have bounds: "- 32768 \<le> ?r i \<and> ?r i < 32768" if "i < frames * ?v" for i
  proof (cases stereo2mono)
    case True
    then have "2 * i + 1 < length src" using that assms(1,3) by simp
    then show ?thesis
      using True assms(1) in16 [of "2 * i"] in16 [of "2 * i + 1"] by (simp add: recorded_def half_sum)
  next
    case False
    then show ?thesis
      using that assms(1,3) in16 [of "i div 2"] in16 [of i] by (auto simp: recorded_def split: if_splits)
  qed
  have level: "level16 True = (\<lambda>d. s24 d div 256)" "level16 False = (\<lambda>d. d)"
    by (simp_all add: level16_def fun_eq_iff)
  have two: "[0..<2] = [0, 1 :: nat]" by (simp add: upt_rec)
  have conv: "convert_record_data frames bit24 mono2stereo stereo2mono src = Some (concat (map ?g [0..<frames]))"
  proof (cases stereo2mono)
    case True
    have "wrap16 (?r i) = ?r i" if "i < frames" for i
      using bounds [of i] that True by (simp add: wrap16_id)
    then show ?thesis
      using True assms(1,3)
      by (cases bit24) (simp_all add: convert_record_data_def convert_frames_map recorded_def level
          wrap32_s24 two cong: map_cong)
  next
    case False
    then show ?thesis
      using assms(1,2,3)
      by (cases bit24; cases mono2stereo)
        (simp_all add: convert_record_data_def convert_frames_map recorded_def level wrap16_s24 two mult.commute)
  qed
  moreover have "concat (map ?g [0..<frames]) = map ?r [0..<frames * ?v]"
    by (intro nth_equalityI)
      (auto simp: length_frames [where w = ?v] nth_frames [where w = ?v])
  ultimately show ?thesis using conv bounds by simp
qed

theorem record_conversion_exact_witness:
  "convert_record_data 2 True False True [0x12000200, 0x34000400, -256, -512] = Some [3, -2]"
  using record_conversion_exact [of False True True "[0x12000200, 0x34000400, -256, -512]" 2]
  by (simp add: recorded_def level16_def s24_def upt_rec)

section \<open>The channels of ESAI keep their samples\<close>

lemma esai_source_facts:
  assumes "ch = 6 \<or> ch = 8"
  shows "length (esai_source ch) = ch" "c < ch \<Longrightarrow> esai_source ch ! c < ch" "distinct (esai_source ch)"
    "set (esai_source ch) = {0..<ch}"
proof -
  show "length (esai_source ch) = ch" "distinct (esai_source ch)" using assms by (auto simp: esai_source_def)
  show s: "set (esai_source ch) = {0..<ch}" using assms by (auto simp: esai_source_def)
  show "c < ch \<Longrightarrow> esai_source ch ! c < ch"
    using nth_mem [of c "esai_source ch"] s \<open>length (esai_source ch) = ch\<close> by simp
qed

lemma frame_start: "i < (m :: nat) \<Longrightarrow> i * ch + ch \<le> m * ch"
  by (metis Suc_leI add.commute mult_Suc mult_le_mono1)

lemma esai_frame_nth:
  assumes "ch = 6 \<or> ch = 8" and "i * ch + ch \<le> length xs" and "j < length xs"
  shows "esai_frame ch i xs ! j = (if j div ch = i then xs ! (i * ch + esai_source ch ! (j mod ch)) else xs ! j)"
proof -
  have ch: "0 < ch" "length (esai_source ch) = ch" using assms(1) by (auto simp: esai_source_facts)
  consider "j < i * ch" | "i * ch \<le> j" "j < i * ch + ch" | "i * ch + ch \<le> j" by linarith
  then show ?thesis
  proof cases
    case 1
    then have "j div ch < i" using ch by (simp add: less_mult_imp_div_less)
    then show ?thesis using 1 ch assms(2) by (simp add: esai_frame_def put_at_def nth_append)
  next
    case 2
    then have d: "j div ch = i" by (intro div_nat_eqI) (simp_all add: algebra_simps)
    then have "j mod ch = j - i * ch" using minus_div_mult_eq_mod [of j ch] by simp
    moreover have "j - i * ch < ch" using 2 by simp
    ultimately show ?thesis using 2 d ch assms(2) by (simp add: esai_frame_def put_at_def nth_append min_def)
  next
    case 3
    then have "i < j div ch" using ch by (metis Suc_le_eq add.commute less_eq_div_iff_mult_less_eq mult_Suc)
    moreover have "\<not> j - i * ch < ch" using 3 by simp
    ultimately show ?thesis using 3 ch assms(2,3) by (simp add: esai_frame_def put_at_def nth_append min_def)
  qed
qed

lemma esai_fold:
  assumes "ch = 6 \<or> ch = 8" and "m * ch \<le> length xs"
  shows "length (fold (esai_frame ch) [0..<m] xs) = length xs \<and>
         (\<forall>j < length xs. fold (esai_frame ch) [0..<m] xs ! j =
            (if j < m * ch then xs ! (j div ch * ch + esai_source ch ! (j mod ch)) else xs ! j))"
  using assms(2)
proof (induction m)
  case (Suc m)
  let ?ys = "fold (esai_frame ch) [0..<m] xs"
  have ch: "0 < ch" "length (esai_source ch) = ch" using assms(1) by (auto simp: esai_source_facts)
  have IH: "length ?ys = length xs"
    "\<And>j. j < length xs \<Longrightarrow> ?ys ! j = (if j < m * ch then xs ! (j div ch * ch + esai_source ch ! (j mod ch)) else xs ! j)"
    using Suc by simp_all
  have len: "length (esai_frame ch m ?ys) = length xs"
    using Suc.prems IH(1) ch by (simp add: esai_frame_def algebra_simps)
  have "esai_frame ch m ?ys ! j =
        (if j < Suc m * ch then xs ! (j div ch * ch + esai_source ch ! (j mod ch)) else xs ! j)"
    if j: "j < length xs" for j
  proof (cases "j div ch = m")
    case True
    then have "m * ch \<le> j" "j < Suc m * ch"
      using ch by (metis times_div_less_eq_dividend mult.commute, metis div_less_iff_less_mult lessI)
    moreover have "m * ch + esai_source ch ! (j mod ch) < length xs"
      using esai_source_facts(2) [OF assms(1), of "j mod ch"] ch Suc.prems by (simp add: algebra_simps)
    ultimately show ?thesis
      using True j IH Suc.prems assms(1) by (simp add: esai_frame_nth algebra_simps)
  next
    case False
    then have "(j < Suc m * ch) = (j < m * ch)"
      using ch by (metis div_less_iff_less_mult less_Suc_eq)
    then show ?thesis using False j IH Suc.prems assms(1) by (simp add: esai_frame_nth algebra_simps)
  qed
  then show ?case using len by simp
qed simp

lemma esai_frames:
  assumes "ch = 6 \<or> ch = 8" and "length xs = n * ch" and "2 * length xs < 2147483648"
  shows "convert_output_for_esai ch xs = map (\<lambda>j. xs ! (j div ch * ch + esai_source ch ! (j mod ch))) [0..<length xs]"
proof -
  have "nat (wrap32 (int (2 * length xs)) div int (2 * ch)) = n"
    using assms by (auto simp: wrap32_id)
  then have "convert_output_for_esai ch xs = fold (esai_frame ch) [0..<n] xs"
    using assms(1) by (auto simp: convert_output_for_esai_def)
  then show ?thesis using esai_fold [of ch n xs] assms by (intro nth_equalityI) simp_all
qed

lemma esai_index_inj:
  assumes "ch = 6 \<or> ch = 8"
  shows "inj_on (\<lambda>j. j div ch * ch + esai_source ch ! (j mod ch)) UNIV"
proof (rule inj_onI)
  fix i j
  let ?s = "\<lambda>j. esai_source ch ! (j mod ch)"
  assume e: "i div ch * ch + ?s i = j div ch * ch + ?s j"
  have ch: "0 < ch" "?s k < ch" for k using assms esai_source_facts(2) [OF assms, of "k mod ch"] by auto
  have "(k div ch * ch + ?s k) div ch = k div ch" "(k div ch * ch + ?s k) mod ch = ?s k" for k
    using ch(2) [of k] by simp_all
  then have "i div ch = j div ch" "?s i = ?s j" using e by metis+
  moreover have "i mod ch = j mod ch"
    using calculation(2) ch(1) esai_source_facts(1,3) [OF assms] by (simp add: nth_eq_iff_index_eq)
  ultimately show "i = j" by (metis div_mult_mod_eq)
qed

text \<open>C14: For six and eight channels every frame of the buffer is rearranged in place into the order of the
  ESAI port, the one of the comment above the function, and no sample is lost or doubled.\<close>

theorem esai_rearranges:
  assumes "ch = 6 \<or> ch = 8" and "length xs = n * ch" and "2 * length xs < 2147483648"
  shows "length (convert_output_for_esai ch xs) = length xs \<and>
         mset (convert_output_for_esai ch xs) = mset xs \<and>
         (\<forall>f < n. take ch (drop (f * ch) (convert_output_for_esai ch xs)) =
            map (\<lambda>c. xs ! (f * ch + c)) (if ch = 6 then [0, 4, 2, 1, 5, 3] else [0, 4, 2, 6, 1, 5, 3, 7]))"
proof -
  let ?p = "\<lambda>j. j div ch * ch + esai_source ch ! (j mod ch)"
  have ch: "0 < ch" using assms(1) by auto
  have out: "convert_output_for_esai ch xs = map (\<lambda>j. xs ! ?p j) [0..<length xs]"
    using assms by (rule esai_frames)
  have inj: "inj_on ?p {0..<length xs}" using esai_index_inj [OF assms(1)] inj_on_subset by blast
  have "?p j < length xs" if "j < length xs" for j
  proof -
    have "j div ch < n" using that assms(2) ch by (simp add: less_mult_imp_div_less)
    then show ?thesis
      using frame_start [of "j div ch" n ch] esai_source_facts(2) [OF assms(1), of "j mod ch"] ch assms(2) by simp
  qed
  then have "?p ` {0..<length xs} = {0..<length xs}" by (intro endo_inj_surj [OF _ _ inj]) auto
  then have "image_mset ?p (mset_set {0..<length xs}) = mset_set {0..<length xs}"
    using image_mset_mset_set [OF inj] by simp
  then have "image_mset (\<lambda>j. xs ! ?p j) (mset_set {0..<length xs}) = image_mset ((!) xs) (mset_set {0..<length xs})"
    by (metis (no_types, lifting) image_mset.comp comp_def image_mset_cong)
  then have ms: "mset (convert_output_for_esai ch xs) = mset xs"
    by (simp add: out) (metis map_nth mset_map mset_upt)
  have "take ch (drop (f * ch) (convert_output_for_esai ch xs)) = map (\<lambda>c. xs ! (f * ch + c)) (esai_source ch)"
    if "f < n" for f
    using that frame_start [of f n ch] assms(2) ch esai_source_facts(1) [OF assms(1)]
    by (intro nth_equalityI) (simp_all add: out)
  then show ?thesis using out ms by (simp add: esai_source_def)
qed

theorem esai_rearranges_witness:
  "take 6 (convert_output_for_esai 6 [1, 2, 3, 4, 5, 6]) = [1, 5, 3, 2, 6, 4] \<and>
   mset (convert_output_for_esai 6 [1, 2, 3, 4, 5, 6]) = mset [1, 2, 3, 4, 5, 6]"
  using esai_rearranges [of 6 "[1, 2, 3, 4, 5, 6]" 1] by simp

section \<open>Rates and sizes are near\<close>

definition spdif_rates :: "nat list" where
  "spdif_rates = [0, 8000, 11025, 16000, 22050, 32000, 44100, 48000, 64000, 88200, 96000, 176400, 196000]"

text \<open>The search through a growing table that stops at the first middle that is not exceeded.\<close>

fun first_near :: "nat \<Rightarrow> nat list \<Rightarrow> nat" where
  "first_near r [] = 0"
| "first_near r [b] = b"
| "first_near r (a # b # ts) = (if r \<le> (a + b) div 2 then a else first_near r (b # ts))"

lemma spdif_rate_search: "spdif_rate r = first_near r spdif_rates"
  by (simp add: spdif_rate_def spdif_rates_def)

lemma first_near_in: "ts \<noteq> [] \<Longrightarrow> first_near r ts \<in> set ts"
  by (induction r ts rule: first_near.induct) auto

lemma first_near_nearest:
  "sorted_wrt (<) ts \<Longrightarrow> t \<in> set ts \<Longrightarrow> \<bar>int r - int (first_near r ts)\<bar> \<le> \<bar>int r - int t\<bar>"
proof (induction r ts arbitrary: t rule: first_near.induct)
  case (3 r a b ts)
  show ?case
  proof (cases "r \<le> (a + b) div 2")
    case True
    then show ?thesis using "3.prems" by fastforce
  next
    case False
    have "sorted_wrt (<) (b # ts)" using "3.prems"(1) by simp
    then have "\<bar>int r - int (first_near r (b # ts))\<bar> \<le> \<bar>int r - int u\<bar>" if "u \<in> set (b # ts)" for u
      using "3.IH" [OF False] that by blast
    moreover have "\<bar>int r - int b\<bar> \<le> \<bar>int r - int a\<bar>" using False "3.prems"(1) by auto
    moreover have "t = a \<or> t \<in> set (b # ts)" using "3.prems"(2) by simp
    ultimately show ?thesis using False by (metis first_near.simps(3) list.set_intros(1) order_trans)
  qed
qed simp_all

text \<open>The rate taken for an S/PDIF input is one of the table that is nearest to the measured one.\<close>

theorem spdif_rate_nearest:
  "spdif_rate r \<in> set spdif_rates \<and>
   list_all (\<lambda>t. \<bar>int r - int (spdif_rate r)\<bar> \<le> \<bar>int r - int t\<bar>) spdif_rates"
proof -
  have "sorted_wrt (<) spdif_rates" "spdif_rates \<noteq> []" by (simp_all add: spdif_rates_def)
  then show ?thesis by (simp add: spdif_rate_search first_near_in first_near_nearest list_all_iff)
qed

lemma round_up_16: "x \<le> 16 * ((x + 15) div 16)" "16 * ((x + 15) div 16) < x + (16 :: nat)"
  by presburger+

text \<open>The size of a capture buffer is a whole multiple of 16 frames, holds a period at the
  requested rate, and exceeds it by less than 16 frames; parameters that are not accepted have none.\<close>

theorem input_buffer_holds_period:
  "if pcm16 \<and> (ch = 1 \<or> ch = 2) \<and> r \<in> set input_rates
   then \<exists>k. get_input_buffer_size hw r pcm16 ch = 16 * k * nat ch * 2 \<and>
            1024 * r div hw \<le> 16 * k \<and> 16 * k < 1024 * r div hw + 16
   else get_input_buffer_size hw r pcm16 ch = 0"
proof (cases "pcm16 \<and> (ch = 1 \<or> ch = 2) \<and> r \<in> set input_rates")
  case True
  then have "1024 * r < 4294967296" by (auto simp: input_rates_def)
  then have "unat (of_nat (1024 * r) :: u32) = 1024 * r"
    unfolding unat_of_nat by (intro mod_less) simp
  then have u: "unat (of_nat CAPTURE_PERIOD_SIZE * of_nat r :: u32) = 1024 * r"
    by (simp add: CAPTURE_PERIOD_SIZE_def)
  have "get_input_buffer_size hw r pcm16 ch = 16 * ((1024 * r div hw + 15) div 16) * nat ch * 2"
    using True u by (auto simp: get_input_buffer_size_def check_input_parameters_def)
  then show ?thesis using True round_up_16 [of "1024 * r div hw"] by auto
next
  case False
  then have "check_input_parameters r pcm16 ch \<noteq> 0" by (auto simp: check_input_parameters_def EINVAL_def)
  then show ?thesis unfolding if_not_P [OF False] by (simp add: get_input_buffer_size_def)
qed

theorem input_buffer_holds_period_witness:
  "\<exists>k. get_input_buffer_size 44100 16000 True 1 = 16 * k * nat 1 * 2 \<and>
       1024 * 16000 div 44100 \<le> 16 * k \<and> 16 * k < 1024 * 16000 div 44100 + (16 :: nat)"
  using input_buffer_holds_period [of True 1 16000 44100] by (simp add: input_rates_def)

section \<open>The texts with rates and channels\<close>

fun joined :: "string list \<Rightarrow> string" where
  "joined [] = []"
| "joined [w] = w"
| "joined (w # ws) = w @ ''|'' @ joined ws"

lemma joined_snoc: "ws \<noteq> [] \<Longrightarrow> joined (ws @ [w]) = joined ws @ ''|'' @ w"
  by (induction ws rule: joined.induct) simp_all

lemma joined_append_length: "length (joined ws) \<le> length (joined (ws @ vs))"
proof (induction ws rule: joined.induct)
  case (2 w)
  then show ?case by (cases vs) simp_all
qed simp_all

lemma rates_text_join:
  assumes "\<forall>r \<in> set rs. r \<noteq> 0 \<and> length (show_int r) < 10"
    and "length (joined (map show_int (qs @ rs))) < 256"
  shows "rates_text (rs @ 0 # z) (qs = []) (joined (map show_int qs)) =
           Some (qs @ rs = [], joined (map show_int (qs @ rs)))"
  using assms
proof (induction rs arbitrary: qs)
  case (Cons r rs)
  have v: "(if qs = [] then joined (map show_int qs) else joined (map show_int qs) @ ''|'') @ show_int r =
           joined (map show_int (qs @ [r]))"
    using joined_snoc [of "map show_int qs" "show_int r"] by (cases qs) simp_all
  have "length (joined (map show_int (qs @ [r]))) < 256"
    using Cons.prems(2) joined_append_length [of "map show_int (qs @ [r])" "map show_int rs"] by simp
  then show ?case using Cons.IH [of "qs @ [r]"] Cons.prems v by (simp add: Let_def)
qed simp

text \<open>Asked for the rates alone, a stream answers with all of them in decimal, separated by bars.\<close>

lemma rates_listed:
  assumes "\<forall>r \<in> set rs. r \<noteq> 0 \<and> length (show_int r) < 10" and "length (joined (map show_int rs)) < 256"
  shows "out_get_parameters table False True masks (rs @ 0 # z) = Some (None, Some (joined (map show_int rs)))"
  using rates_text_join [of rs "[]" z] assms by (simp add: out_get_parameters_def)

lemma channels_text_fault: "0 \<notin> set ms \<Longrightarrow> channels_text table ms first v = None"
  by (induction ms arbitrary: first v) (auto simp: Let_def split: option.splits)

lemma channels_text_short:
  assumes "0 \<in> set ms" and "\<forall>(k, name) \<in> set table. length name \<le> 40" and "length v + 41 * length ms < 256"
  shows "\<exists>f w. channels_text table ms first v = Some (f, w)"
  using assms
proof (induction ms arbitrary: first v)
  case (Cons m ms)
  show ?case
  proof (cases "m = 0 \<or> map_of table m = None")
    case True
    then show ?thesis using Cons by auto
  next
    case False
    then obtain name where n: "map_of table m = Some name" by auto
    then have "length name \<le> 40" using Cons.prems(2) map_of_SomeD by fast
    then have "length ((if first then v else v @ ''|'') @ name) + 41 * length ms < 256"
      using Cons.prems(3) by auto
    moreover have "0 \<in> set ms" using Cons.prems(1) False by auto
    ultimately show ?thesis
      using Cons.IH [of "(if first then v else v @ ''|'') @ name" False] Cons.prems(2) False n by (auto simp: Let_def)
  qed
qed simp

text \<open>The masks of an HDMI sink are read for a query inside their array exactly when the sink
  names fewer than three of 2, 6 and 8 channels. A sink with all three (the common one) fills the array, no zero ends
  it, and the query reads on behind it. More than three names are written past the array already.\<close>

theorem hdmi_query_in_array:
  assumes "length vals \<le> 20" and "0 \<notin> {st, s51, s71}" and "\<forall>(k, name) \<in> set table. length name \<le> 40"
  shows "(case out_read_hdmi_channel_masks (st, s51, s71) vals [0, 0, 0] of
            None \<Rightarrow> False
          | Some (r, masks) \<Rightarrow> (\<exists>a. out_get_parameters table True False masks rs = Some a)) =
         (length (filter (\<lambda>c. c \<in> {2, 6, 8}) vals) < 3)"
proof -
  let ?ms = "hdmi_masks (st, s51, s71) vals"
  have len: "length ?ms = length (filter (\<lambda>c. c \<in> {2, 6, 8}) vals)"
    by (induction vals) (auto simp: hdmi_masks_def)
  have nz: "0 \<notin> set ?ms" using assms(2) by (auto simp: hdmi_masks_def split: if_splits)
  consider "3 < length ?ms" | "length ?ms = 3" | "length ?ms < 3" by linarith
  then show ?thesis
  proof cases
    case 1
    then show ?thesis using len by (simp add: out_read_hdmi_channel_masks_def)
  next
    case 2
    then have "put_at 0 ?ms [0, 0, 0] = ?ms" by (simp add: put_at_def)
    then show ?thesis
      using 2 len nz assms(1)
      by (simp add: out_read_hdmi_channel_masks_def out_get_parameters_def channels_text_fault Let_def)
  next
    case 3
    then have "0 \<in> set (put_at 0 ?ms [0, 0, 0])"
      by (auto simp: put_at_def numeral_3_eq_3 less_Suc_eq_le le_Suc_eq)
    moreover have "length (put_at 0 ?ms [0, 0, 0]) = 3" using 3 by simp
    ultimately obtain f w where "channels_text table (put_at 0 ?ms [0, 0, 0]) True [] = Some (f, w)"
      using channels_text_short [of "put_at 0 ?ms [0, 0, 0]" table "[]" True] assms(3) by auto
    then show ?thesis
      using 3 len assms(1) by (simp add: out_read_hdmi_channel_masks_def out_get_parameters_def Let_def)
  qed
qed

theorem hdmi_query_in_array_witness:
  "(case out_read_hdmi_channel_masks (3, 0x3F, 0x63F) [2, 8] [0, 0, 0] of
      None \<Rightarrow> False
    | Some (r, masks) \<Rightarrow> (\<exists>a. out_get_parameters [(3, ''stereo'')] True False masks [44100, 0] = Some a)) \<and>
   \<not> (case out_read_hdmi_channel_masks (3, 0x3F, 0x63F) [2, 6, 8] [0, 0, 0] of
        None \<Rightarrow> False
      | Some (r, masks) \<Rightarrow> (\<exists>a. out_get_parameters [(3, ''stereo'')] True False masks [44100, 0] = Some a))"
  using hdmi_query_in_array [of "[2, 8]" 3 "0x3F" "0x63F" "[(3, ''stereo'')]" "[44100, 0]"]
    hdmi_query_in_array [of "[2, 6, 8]" 3 "0x3F" "0x63F" "[(3, ''stereo'')]" "[44100, 0]"]
  by simp

end
