(* ===== verification/Alsa_Config.thy ===== *)
theory Alsa_Config
  imports Alsa_Convert
begin

text \<open>
  The sound cards the ALSA audio HAL knows (src/alsa/audio_hardware.h and config_*.h): for each card
  the devices it serves and the mixer settings of every path, as the tables of the source list them.
  The bits of devices and the numbers of modes and sources are Android's, those of the sample formats
  tinyalsa's: the record \<open>Bits\<close> is a parameter.
\<close>

record Bits =
  out_earpiece :: u32
  out_speaker :: u32
  out_headset :: u32
  out_headphone :: u32
  out_sco :: u32
  out_digital :: u32
  out_anlg_dock :: u32
  out_dgtl_dock :: u32
  out_submix :: u32
  out_default :: u32
  out_all :: u32
  in_communication :: u32
  in_ambient :: u32
  in_builtin_mic :: u32
  in_sco :: u32
  in_headset :: u32
  in_digital :: u32
  in_voice_call :: u32
  in_back_mic :: u32
  in_submix :: u32
  in_anlg_dock :: u32
  in_dgtl_dock :: u32
  in_usb_accessory :: u32
  in_usb_device :: u32
  in_default :: u32
  bit_in :: u32
  mode_normal :: int
  mode_in_call :: int
  mode_count :: int
  source_camcorder :: int
  source_voice :: int
  format_s16 :: int
  format_s24 :: int
  ch_in_front :: u32
  ch_in_back :: u32
  ch_in_stereo :: u32
  ch_in_right :: u32
  ch_out_stereo :: u32
  ch_out_51 :: u32
  ch_out_71 :: u32

definition SUPPORTED_DEVICE_OUT_MODULE :: "Bits \<Rightarrow> u32" where
  "SUPPORTED_DEVICE_OUT_MODULE b =
     out_earpiece b OR out_speaker b OR out_headset b OR out_headphone b OR out_sco b OR out_digital b OR
     out_anlg_dock b OR out_dgtl_dock b OR out_submix b OR out_default b"

definition SUPPORTED_DEVICE_IN_MODULE :: "Bits \<Rightarrow> u32" where
  "SUPPORTED_DEVICE_IN_MODULE b =
     in_communication b OR in_ambient b OR in_builtin_mic b OR in_sco b OR in_headset b OR in_digital b OR
     in_voice_call b OR in_back_mic b OR in_submix b OR in_anlg_dock b OR in_dgtl_dock b OR
     in_usb_accessory b OR in_usb_device b OR in_default b"

section \<open>Settings and cards\<close>

record route_setting =
  ctl_name :: string
  intval :: int
  strval :: "string option"

definition by_value :: "string \<Rightarrow> int \<Rightarrow> route_setting" where
  "by_value n v = \<lparr>ctl_name = n, intval = v, strval = None\<rparr>"

definition by_text :: "string \<Rightarrow> string \<Rightarrow> route_setting" where
  "by_text n t = \<lparr>ctl_name = n, intval = 0, strval = Some t\<rparr>"

type_synonym route = "route_setting list"

text \<open>A path that a card does not have is NULL. Modes without a path are NULL too.\<close>

record audio_card =
  driver_name :: string
  supported_out :: u32
  supported_in :: u32
  defaults :: "route option"
  bt_output :: "route option"
  speaker_output :: "route option"
  hs_output :: "route option"
  earpiece_output :: "route option"
  vx_hs_mic_input :: "route option"
  mm_main_mic_input :: "route option"
  vx_main_mic_input :: "route option"
  mm_hs_mic_input :: "route option"
  vx_bt_mic_input :: "route option"
  mm_bt_mic_input :: "route option"
  audio_modes :: "route list"
  card_no :: int
  out_rate :: nat
  out_channels :: int
  in_rate :: nat
  in_channels :: int
  in_format :: int

text \<open>A card without paths.\<close>

definition plain_card :: "string \<Rightarrow> u32 \<Rightarrow> u32 \<Rightarrow> int \<Rightarrow> audio_card" where
  "plain_card name outs ins no =
     \<lparr>driver_name = name, supported_out = outs, supported_in = ins, defaults = None, bt_output = None,
      speaker_output = None, hs_output = None, earpiece_output = None, vx_hs_mic_input = None,
      mm_main_mic_input = None, vx_main_mic_input = None, mm_hs_mic_input = None, vx_bt_mic_input = None,
      mm_bt_mic_input = None, audio_modes = [], card_no = no, out_rate = 0, out_channels = 0, in_rate = 0,
      in_channels = 0, in_format = 0\<rparr>"

definition codec_out :: "Bits \<Rightarrow> u32" where
  "codec_out b = out_earpiece b OR out_speaker b OR out_headset b OR out_headphone b OR out_anlg_dock b OR
     out_sco b OR out_default b"

definition codec_in :: "Bits \<Rightarrow> u32" where
  "codec_in b = in_communication b OR in_ambient b OR in_builtin_mic b OR in_headset b OR in_back_mic b OR
     in_sco b OR in_default b"

definition hdmi_card :: "Bits \<Rightarrow> audio_card" where
  "hdmi_card b = plain_card ''imx-hdmi-soc'' (out_digital b) 0 0"

definition usbaudio_card :: "Bits \<Rightarrow> audio_card" where
  "usbaudio_card b = plain_card ''USB-Audio'' (out_dgtl_dock b) (in_usb_device b OR in_dgtl_dock b) 0"

definition spdif_card :: "Bits \<Rightarrow> audio_card" where
  "spdif_card b = plain_card ''imx-spdif'' 0 (in_digital b) 0"

definition cs42888_card :: "Bits \<Rightarrow> audio_card" where
  "cs42888_card b = plain_card ''cs42888-audio'' (codec_out b) (codec_in b) 0"

definition null_card :: audio_card where
  "null_card = plain_card ''null_card'' 0 0 (- 1)"

section \<open>The codec wm8962\<close>

definition defaults_wm8962 :: route where
  "defaults_wm8962 = [by_value ''Digital Playback Volume'' 96]"

definition bt_output_wm8962 :: route where
  "bt_output_wm8962 = []"

definition speaker_output_wm8962 :: route where
  "speaker_output_wm8962 = [by_value ''Speaker Switch'' 1, by_value ''Speaker Volume'' 121,
     by_text ''SPKOUTL PGA'' ''DAC'', by_text ''SPKOUTR PGA'' ''Mixer'',
     by_value ''Speaker Mixer Switch'' 0, by_value ''Headphone Switch'' 1,
     by_value ''Headphone Volume'' 121, by_text ''HPOUTL PGA'' ''DAC'']"

definition hs_output_wm8962 :: route where
  "hs_output_wm8962 = [by_value ''Headphone Switch'' 1, by_value ''Headphone Volume'' 121,
     by_text ''HPOUTL PGA'' ''DAC'']"

definition earpiece_output_wm8962 :: route where
  "earpiece_output_wm8962 = []"

definition vx_hs_mic_input_wm8962 :: route where
  "vx_hs_mic_input_wm8962 = [by_value ''Capture Switch'' 1, by_value ''Capture Volume'' 63,
     by_value ''Digital Capture Volume'' 127, by_value ''MIXINL IN2L Switch'' 1,
     by_value ''MIXINL PGA Switch'' 0]"

definition mm_main_mic_input_wm8962 :: route where
  "mm_main_mic_input_wm8962 = [by_value ''Capture Switch'' 1, by_value ''Capture Volume'' 63,
     by_value ''Digital Capture Volume'' 127, by_value ''MIXINL IN2L Switch'' 1,
     by_value ''MIXINL PGA Switch'' 0]"

definition vx_main_mic_input_wm8962 :: route where
  "vx_main_mic_input_wm8962 = [by_value ''Capture Switch'' 1, by_value ''Capture Volume'' 63,
     by_value ''Digital Capture Volume'' 127, by_value ''MIXINL IN2L Switch'' 1,
     by_value ''MIXINL PGA Switch'' 0]"

definition mm_hs_mic_input_wm8962 :: route where
  "mm_hs_mic_input_wm8962 = [by_value ''Capture Switch'' 1, by_value ''Capture Volume'' 63,
     by_value ''Digital Capture Volume'' 127, by_value ''MIXINR IN3R Switch'' 1,
     by_value ''MIXINR IN3R Volume'' 7]"

definition vx_bt_mic_input_wm8962 :: route where
  "vx_bt_mic_input_wm8962 = [by_value ''Capture Switch'' 1, by_value ''Capture Volume'' 63,
     by_value ''Digital Capture Volume'' 127, by_value ''MIXINL IN2L Switch'' 1,
     by_value ''MIXINL PGA Switch'' 0]"

definition mm_bt_mic_input_wm8962 :: route where
  "mm_bt_mic_input_wm8962 = []"

definition audio_mode_normal_wm8962 :: route where
  "audio_mode_normal_wm8962 = [by_text ''AudioMode'' ''SlaveMusic'']"

definition audio_mode_incall_wm8962 :: route where
  "audio_mode_incall_wm8962 = [by_text ''AudioMode'' ''SlaveCall'']"

definition wm8962_card :: "Bits \<Rightarrow> audio_card" where
  "wm8962_card b =
     \<lparr>driver_name = ''wm8962-audio'', supported_out = codec_out b, supported_in = codec_in b,
      defaults = Some defaults_wm8962, bt_output = Some bt_output_wm8962, speaker_output = Some speaker_output_wm8962,
      hs_output = Some hs_output_wm8962, earpiece_output = Some earpiece_output_wm8962,
      vx_hs_mic_input = Some vx_hs_mic_input_wm8962, mm_main_mic_input = Some mm_main_mic_input_wm8962,
      vx_main_mic_input = Some vx_main_mic_input_wm8962, mm_hs_mic_input = Some mm_hs_mic_input_wm8962,
      vx_bt_mic_input = Some vx_bt_mic_input_wm8962, mm_bt_mic_input = Some mm_bt_mic_input_wm8962,
      audio_modes = [audio_mode_normal_wm8962, audio_mode_normal_wm8962, audio_mode_incall_wm8962, audio_mode_normal_wm8962],
      card_no = 0, out_rate = 0, out_channels = 0, in_rate = 0, in_channels = 0, in_format = 0\<rparr>"

section \<open>The codec wm8958\<close>

definition defaults_wm8958 :: route where
  "defaults_wm8958 = [by_value ''AIF1DAC Mux'' 0, by_value ''AIF2DAC Mux'' 0,
     by_value ''DAC1L Mixer AIF1.1 Switch'' 1, by_value ''DAC1L Mixer AIF1.2 Switch'' 0,
     by_value ''DAC1L Mixer AIF2 Switch'' 0, by_value ''DAC1L Mixer Left Sidetone Switch'' 0,
     by_value ''DAC1L Mixer Right Sidetone Switch'' 0, by_value ''DAC1R Mixer AIF1.1 Switch'' 1,
     by_value ''DAC1R Mixer AIF1.2 Switch'' 0, by_value ''DAC1R Mixer AIF2 Switch'' 0,
     by_value ''DAC1R Mixer Left Sidetone Switch'' 0, by_value ''DAC1R Mixer Right Sidetone Switch'' 0,
     by_value ''DAC1 Switch'' 1]"

definition bt_output_wm8958 :: route where
  "bt_output_wm8958 = [by_value ''AIF2ADC Mux'' 1, by_value ''AIF3ADC Mux'' 2]"

definition speaker_output_wm8958 :: route where
  "speaker_output_wm8958 = [by_value ''SPKL DAC1 Switch'' 1, by_value ''SPKL DAC1 Volume'' 1,
     by_value ''SPKR DAC1 Switch'' 1, by_value ''SPKR DAC1 Volume'' 1,
     by_value ''SPKL Boost SPKL Switch'' 1, by_value ''SPKR Boost SPKR Switch'' 1,
     by_value ''Speaker Mixer Volume'' 3, by_value ''Speaker Switch'' 1, by_value ''Speaker Volume'' 60]"

definition hs_output_wm8958 :: route where
  "hs_output_wm8958 = [by_value ''Left Headphone Mux'' 1, by_value ''Right Headphone Mux'' 1,
     by_value ''Headphone Switch'' 1, by_value ''Headphone Volume'' 57]"

definition earpiece_output_wm8958 :: route where
  "earpiece_output_wm8958 = [by_value ''Earpiece Switch'' 1, by_value ''Earpiece Volume'' 1]"

definition vx_hs_mic_input_wm8958 :: route where
  "vx_hs_mic_input_wm8958 = [by_value ''IN1L Switch'' 1, by_value ''IN1L Volume'' 27,
     by_value ''MIXINL IN1L Switch'' 1, by_value ''MIXINL IN1L Volume'' 1,
     by_value ''IN1L PGA IN1LN Switch'' 1, by_value ''IN1L PGA IN1LP Switch'' 1,
     by_value ''ADCL Mux'' 0, by_value ''ADC OSR'' 0, by_value ''DAC2 Left Sidetone Volume'' 12,
     by_value ''DAC2 Switch'' 1, by_value ''AIF2ADC Mux'' 0,
     by_value ''AIF2DAC2L Mixer Left Sidetone Switch'' 1]"

definition mm_main_mic_input_wm8958 :: route where
  "mm_main_mic_input_wm8958 = [by_value ''IN1L Switch'' 1, by_value ''IN1L Volume'' 27,
     by_value ''MIXINL IN1L Switch'' 1, by_value ''MIXINL IN1L Volume'' 1,
     by_value ''IN1L PGA IN1LN Switch'' 1, by_value ''IN1L PGA IN1LP Switch'' 1,
     by_value ''ADCL Mux'' 0, by_value ''AIF1ADC1L Mixer ADC/DMIC Switch'' 1]"

definition vx_main_mic_input_wm8958 :: route where
  "vx_main_mic_input_wm8958 = [by_value ''IN1R Switch'' 1, by_value ''IN1R Volume'' 27,
     by_value ''MIXINR IN1R Switch'' 1, by_value ''MIXINR IN1R Volume'' 1,
     by_value ''IN1R PGA IN1RN Switch'' 1, by_value ''IN1R PGA IN1RP Switch'' 1,
     by_value ''ADCR Mux'' 0, by_value ''ADC OSR'' 0, by_value ''DAC2 Right Sidetone Volume'' 12,
     by_value ''DAC2 Switch'' 1, by_value ''AIF2ADC Mux'' 0,
     by_value ''AIF2DAC2R Mixer Right Sidetone Switch'' 1]"

definition mm_hs_mic_input_wm8958 :: route where
  "mm_hs_mic_input_wm8958 = [by_value ''IN1R Switch'' 1, by_value ''IN1R Volume'' 27,
     by_value ''MIXINR IN1R Switch'' 1, by_value ''MIXINR IN1R Volume'' 1,
     by_value ''IN1R PGA IN1RN Switch'' 1, by_value ''IN1R PGA IN1RP Switch'' 1,
     by_value ''ADCR Mux'' 0, by_value ''AIF1ADC1L Mixer ADC/DMIC Switch'' 1]"

definition vx_bt_mic_input_wm8958 :: route where
  "vx_bt_mic_input_wm8958 = [by_value ''AIF1ADC1L Mixer AIF2 Switch'' 1,
     by_value ''AIF1ADC1R Mixer AIF2 Switch'' 1]"

definition mm_bt_mic_input_wm8958 :: route where
  "mm_bt_mic_input_wm8958 = [by_value ''AIF1ADC1L Mixer AIF2 Switch'' 1,
     by_value ''AIF1ADC1R Mixer AIF2 Switch'' 1]"

definition wm8958_card :: "Bits \<Rightarrow> audio_card" where
  "wm8958_card b =
     \<lparr>driver_name = ''wm8958-audio'', supported_out = codec_out b, supported_in = codec_in b,
      defaults = Some defaults_wm8958, bt_output = Some bt_output_wm8958, speaker_output = Some speaker_output_wm8958,
      hs_output = Some hs_output_wm8958, earpiece_output = Some earpiece_output_wm8958,
      vx_hs_mic_input = Some vx_hs_mic_input_wm8958, mm_main_mic_input = Some mm_main_mic_input_wm8958,
      vx_main_mic_input = Some vx_main_mic_input_wm8958, mm_hs_mic_input = Some mm_hs_mic_input_wm8958,
      vx_bt_mic_input = Some vx_bt_mic_input_wm8958, mm_bt_mic_input = Some mm_bt_mic_input_wm8958,
      audio_modes = [],
      card_no = 0, out_rate = 0, out_channels = 0, in_rate = 0, in_channels = 0, in_format = 0\<rparr>"

section \<open>All cards\<close>

text \<open>\<open>audio_card_list\<close>: the null card is the last one.\<close>

definition audio_card_list :: "Bits \<Rightarrow> audio_card list" where
  "audio_card_list b =
     [wm8958_card b, wm8962_card b, hdmi_card b, usbaudio_card b, spdif_card b, cs42888_card b, null_card]"

text \<open>The numbers of one release of Android and tinyalsa, for the examples.\<close>

definition demo_bits :: Bits where
  "demo_bits =
     \<lparr>out_earpiece = 0x1, out_speaker = 0x2, out_headset = 0x4, out_headphone = 0x8, out_sco = 0x70, out_digital = 0x400,
      out_anlg_dock = 0x800, out_dgtl_dock = 0x1000, out_submix = 0x8000, out_default = 0x40000000, out_all = 0x4000FFFF,
      in_communication = 0x1, in_ambient = 0x2, in_builtin_mic = 0x4, in_sco = 0x8, in_headset = 0x10, in_digital = 0x20,
      in_voice_call = 0x40, in_back_mic = 0x80, in_submix = 0x100, in_anlg_dock = 0x200, in_dgtl_dock = 0x400,
      in_usb_accessory = 0x800, in_usb_device = 0x1000, in_default = 0x40000000, bit_in = 0x80000000,
      mode_normal = 0, mode_in_call = 2, mode_count = 4, source_camcorder = 5, source_voice = 7,
      format_s16 = 0, format_s24 = 2, ch_in_front = 0x10, ch_in_back = 0x20, ch_in_stereo = 0xC, ch_in_right = 0x8,
      ch_out_stereo = 0x3, ch_out_51 = 0x3F, ch_out_71 = 0x63F\<rparr>"

lemma driver_names:
  "map driver_name (audio_card_list b) =
     [''wm8958-audio'', ''wm8962-audio'', ''imx-hdmi-soc'', ''USB-Audio'', ''imx-spdif'', ''cs42888-audio'', ''null_card'']"
  by (simp add: audio_card_list_def wm8958_card_def wm8962_card_def hdmi_card_def usbaudio_card_def spdif_card_def
      cs42888_card_def null_card_def plain_card_def)

end
