(* ===== verification/Alsa_Cards.thy ===== *)
theory Alsa_Cards
  imports Alsa_Config
begin

text \<open>
  The list of sound cards of the ALSA audio HAL (src/alsa/tinyalsa_hal.c): \<open>scan_available_device\<close>,
  which finds the cards of the system among the known ones, and the lookups by device. The list holds
  pointers to the static descriptions, so several of its entries can be the one null card: the model
  keeps the descriptions in a store and the list has their places in it. Following a NULL entry and
  a name that does not fit \<open>usb_card_name\<close> have the result \<open>None\<close>.
\<close>

definition MAX_AUDIO_CARD_NUM :: nat where "MAX_AUDIO_CARD_NUM = 4"
definition MAX_AUDIO_CARD_SCAN :: nat where "MAX_AUDIO_CARD_SCAN = 4"
definition SUPPORT_CARD_NUM :: nat where "SUPPORT_CARD_NUM = 7"

text \<open>A mixer is known by the number of its card; \<open>None\<close> is NULL.\<close>

record Cards =
  cards :: "audio_card list"
  card_list :: "nat option list"
  mixers :: "int option list"
  audio_card_num :: nat
  mm_rate :: nat
  usb_card_name :: string

text \<open>
  The parameter: driver and name of the cards that can be opened, whether their mixer can, the rate
  and the number of channels near a wanted one (playback first; \<open>None\<close> is a failure), and whether
  they record in 16 and in 24 bits.
\<close>

record Sys =
  sys_card :: "nat \<Rightarrow> (string \<times> string) option"
  sys_mixer :: "nat \<Rightarrow> bool"
  sys_rate :: "nat \<Rightarrow> bool \<Rightarrow> nat option"
  sys_channels :: "nat \<Rightarrow> bool \<Rightarrow> int option"
  sys_s16 :: "nat \<Rightarrow> bool"
  sys_s24 :: "nat \<Rightarrow> bool"

section \<open>Lookups\<close>

text \<open>The first card of the list that serves one of the devices.\<close>

fun card_serving :: "(audio_card \<Rightarrow> u32) \<Rightarrow> audio_card list \<Rightarrow> u32 \<Rightarrow> nat option list \<Rightarrow> audio_card option option" where
  "card_serving sel cs d [] = Some None"
| "card_serving sel cs d (None # ps) = None"
| "card_serving sel cs d (Some p # ps) = (if sel (cs ! p) AND d \<noteq> 0 then Some (Some (cs ! p)) else card_serving sel cs d ps)"

definition serving :: "bool \<Rightarrow> audio_card \<Rightarrow> u32" where
  "serving out c = (if out then supported_out c else supported_in c)"

definition get_card_for_device :: "bool \<Rightarrow> u32 \<Rightarrow> 'a Cards_scheme \<Rightarrow> int option" where
  "get_card_for_device out d ad =
     map_option (\<lambda>c. case c of None \<Rightarrow> - 1 | Some k \<Rightarrow> card_no k) (card_serving (serving out) (cards ad) d (card_list ad))"

definition adev_get_rate_for_device :: "bool \<Rightarrow> u32 \<Rightarrow> 'a Cards_scheme \<Rightarrow> nat option" where
  "adev_get_rate_for_device out d ad =
     map_option (\<lambda>c. case c of None \<Rightarrow> 0 | Some k \<Rightarrow> if out then out_rate k else in_rate k)
       (card_serving (serving out) (cards ad) d (card_list ad))"

definition adev_get_channels_for_device :: "bool \<Rightarrow> u32 \<Rightarrow> 'a Cards_scheme \<Rightarrow> int option" where
  "adev_get_channels_for_device out d ad =
     map_option (\<lambda>c. case c of None \<Rightarrow> 0 | Some k \<Rightarrow> if out then out_channels k else in_channels k)
       (card_serving (serving out) (cards ad) d (card_list ad))"

text \<open>The format for playback is never set after its initial value.\<close>

definition adev_get_format_for_device :: "bool \<Rightarrow> u32 \<Rightarrow> 'a Cards_scheme \<Rightarrow> int option" where
  "adev_get_format_for_device out d ad =
     map_option (\<lambda>c. case c of None \<Rightarrow> 0 | Some k \<Rightarrow> if out then 0 else in_format k)
       (card_serving (serving out) (cards ad) d (card_list ad))"

section \<open>The scan\<close>

text \<open>What is left to serve, for playback and for recording.\<close>

type_synonym left = "u32 \<times> u32"

definition left_take :: "audio_card \<Rightarrow> left \<Rightarrow> left" where
  "left_take c l = (fst l AND NOT (supported_out c), snd l AND NOT (supported_in c))"

definition left_give :: "audio_card \<Rightarrow> left \<Rightarrow> left" where
  "left_give c l = (fst l OR supported_out c, snd l OR supported_in c)"

fun left_after :: "audio_card list \<Rightarrow> nat option list \<Rightarrow> left \<Rightarrow> left option" where
  "left_after cs [] l = Some l"
| "left_after cs (None # ps) l = None"
| "left_after cs (Some p # ps) l = left_after cs ps (left_take (cs ! p) l)"

text \<open>The known card of a driver: the first whose name occurs in the driver's.\<close>

definition known_card :: "audio_card list \<Rightarrow> string \<Rightarrow> nat option" where
  "known_card cs driver = List.find (\<lambda>j. is_infix (driver_name (cs ! j)) driver) [0..<length cs]"

text \<open>
  The search for a card in the list from place \<open>m\<close> on. A USB card with a new name (or any, when
  \<open>rescan\<close>) is taken out again. The results are whether there is nothing left to do, the place for
  the card, the number of cards, what is left, and the state.
\<close>

function scan_listed ::
  "bool \<Rightarrow> nat \<Rightarrow> string \<Rightarrow> nat \<Rightarrow> nat \<Rightarrow> bool \<Rightarrow> nat \<Rightarrow> left \<Rightarrow> 'a Cards_scheme \<Rightarrow>
   (bool \<times> nat \<times> nat \<times> left \<times> 'a Cards_scheme) option" where
  "scan_listed rescan j name m k scanned n l ad =
     (if m < k then
        (case card_list ad ! m of
           None \<Rightarrow> None
         | Some p \<Rightarrow>
             (let c = cards ad ! p in
              if driver_name (cards ad ! j) = driver_name c then
                (if driver_name c = ''USB-Audio'' \<and> (name \<noteq> usb_card_name ad \<or> rescan) then
                   (if 128 \<le> length name then None
                    else scan_listed rescan j name (Suc m) (k - 1) False m (left_give c l) (ad\<lparr>usb_card_name := name\<rparr>))
                 else scan_listed rescan j name (Suc m) k True n l ad)
              else scan_listed rescan j name (Suc m) k scanned n l ad))
      else Some (scanned, n, k, l, ad))"
  by pat_completeness auto

termination
  by (relation "measure (\<lambda>(rescan, j, name, m, k, scanned, n, l, ad). k - m)") auto

declare scan_listed.simps [simp del]

text \<open>The properties of the card that are asked for; a failure leaves the old value.\<close>

definition probe_card :: "Bits \<Rightarrow> Sys \<Rightarrow> nat \<Rightarrow> audio_card \<Rightarrow> audio_card" where
  "probe_card b w i c =
     c\<lparr>out_rate := (case sys_rate w i True of None \<Rightarrow> out_rate c | Some r \<Rightarrow> r),
       out_channels := (case sys_channels w i True of None \<Rightarrow> out_channels c | Some n \<Rightarrow> n),
       in_rate := (case sys_rate w i False of None \<Rightarrow> in_rate c | Some r \<Rightarrow> r),
       in_channels := (case sys_channels w i False of None \<Rightarrow> in_channels c | Some n \<Rightarrow> n),
       in_format := (if sys_s16 w i then format_s16 b else if sys_s24 w i then format_s24 b else in_format c)\<rparr>"

text \<open>Card \<open>j\<close> comes to place \<open>n\<close>; the first result is whether its mixer could be opened.\<close>

definition enter_card :: "Bits \<Rightarrow> Sys \<Rightarrow> nat \<Rightarrow> nat \<Rightarrow> nat \<Rightarrow> 'a Cards_scheme \<Rightarrow> bool \<times> 'a Cards_scheme" where
  "enter_card b w i j n ad =
     (let c = (cards ad ! j)\<lparr>card_no := int i\<rparr>;
          usb = (driver_name c = ''USB-Audio'');
          ad1 = ad\<lparr>card_list := (card_list ad)[n := Some j], cards := (cards ad)[j := c],
                   mixers := (mixers ad)[n := (if usb \<or> \<not> sys_mixer w i then None else Some (int i))]\<rparr>
      in if \<not> usb \<and> \<not> sys_mixer w i then (False, ad1)
         else
           (let c1 = probe_card b w i c
            in (True, ad1\<lparr>cards := (cards ad1)[j := c1],
                          mm_rate := (if mm_rate ad < out_rate c1 then out_rate c1 else mm_rate ad)\<rparr>)))"

text \<open>The loop over the cards of the system; the result has the number of cards, \<open>None\<close> when a mixer
  could not be opened.\<close>

fun scan_loop ::
  "Bits \<Rightarrow> Sys \<Rightarrow> bool \<Rightarrow> nat list \<Rightarrow> nat \<Rightarrow> left \<Rightarrow> 'a Cards_scheme \<Rightarrow> (nat option \<times> left \<times> 'a Cards_scheme) option" where
  "scan_loop b w rescan [] k l ad = Some (Some k, l, ad)"
| "scan_loop b w rescan (i # is) k l ad =
     (case sys_card w i of
        None \<Rightarrow> Some (Some k, l, ad)
      | Some (driver, name) \<Rightarrow>
          (case known_card (cards ad) driver of
             None \<Rightarrow> scan_loop b w rescan is k l ad
           | Some j \<Rightarrow>
               (case scan_listed rescan j name 0 k False k l ad of
                  None \<Rightarrow> None
                | Some (scanned, n, k1, l1, ad1) \<Rightarrow>
                    if scanned \<or> MAX_AUDIO_CARD_NUM \<le> n then scan_loop b w rescan is k1 l1 ad1
                    else
                      (case enter_card b w i j n ad1 of
                         (ok, ad2) \<Rightarrow>
                           if ok then scan_loop b w rescan is (Suc k1) (left_take (cards ad2 ! j) l1) ad2
                           else Some (None, l1, ad2)))))"

text \<open>The places that are left point to the null card, which serves what no other card does.\<close>

definition fill_null :: "nat \<Rightarrow> left \<Rightarrow> 'a Cards_scheme \<Rightarrow> 'a Cards_scheme" where
  "fill_null k l ad =
     (if k < MAX_AUDIO_CARD_NUM then
        (let z = SUPPORT_CARD_NUM - 1 in
         ad\<lparr>card_list := take k (card_list ad) @ replicate (MAX_AUDIO_CARD_NUM - k) (Some z),
            cards := (cards ad)[z := (cards ad ! z)\<lparr>supported_out := fst l, supported_in := snd l\<rparr>]\<rparr>)
      else ad)"

definition scan_available_device :: "Bits \<Rightarrow> Sys \<Rightarrow> bool \<Rightarrow> 'a Cards_scheme \<Rightarrow> (int \<times> 'a Cards_scheme) option" where
  "scan_available_device b w rescan ad =
     (case left_after (cards ad) (take (audio_card_num ad) (card_list ad))
             (SUPPORTED_DEVICE_OUT_MODULE b, SUPPORTED_DEVICE_IN_MODULE b) of
        None \<Rightarrow> None
      | Some l \<Rightarrow>
          (case scan_loop b w rescan [0..<MAX_AUDIO_CARD_SCAN] (audio_card_num ad) l ad of
             None \<Rightarrow> None
           | Some (None, l1, ad1) \<Rightarrow> Some (- EINVAL, ad1)
           | Some (Some k, l1, ad1) \<Rightarrow>
               (let ad2 = ad1\<lparr>audio_card_num := k\<rparr> in
                if card_list ad2 ! 0 = None then Some (- EINVAL, ad2) else Some (0, fill_null k l1 ad2))))"

section \<open>The list of cards stays in order\<close>

text \<open>The first \<open>k\<close> places point to different cards other than the null card, and the store keeps its names.\<close>

definition cards_wf :: "nat \<Rightarrow> 'a Cards_scheme \<Rightarrow> bool" where
  "cards_wf k ad =
     (length (card_list ad) = MAX_AUDIO_CARD_NUM \<and> k \<le> MAX_AUDIO_CARD_NUM \<and>
      map driver_name (cards ad) =
        [''wm8958-audio'', ''wm8962-audio'', ''imx-hdmi-soc'', ''USB-Audio'', ''imx-spdif'', ''cs42888-audio'', ''null_card''] \<and>
      (\<forall>m < k. \<exists>p < SUPPORT_CARD_NUM - 1. card_list ad ! m = Some p) \<and> distinct (take k (card_list ad)))"

lemmas card_numbers = MAX_AUDIO_CARD_NUM_def SUPPORT_CARD_NUM_def MAX_AUDIO_CARD_SCAN_def

lemma cards_wf_length: "cards_wf k ad \<Longrightarrow> length (cards ad) = SUPPORT_CARD_NUM"
  unfolding cards_wf_def by (drule conjunct2, drule conjunct2, drule conjunct1, drule arg_cong [where f = length])
    (simp add: card_numbers)

lemma cards_wf_mono: "cards_wf k ad \<Longrightarrow> j \<le> k \<Longrightarrow> cards_wf j ad"
  by (auto simp: cards_wf_def) (metis distinct_take min.absorb1 take_take)

lemma same_driver:
  assumes "cards_wf k ad" and "p < SUPPORT_CARD_NUM" and "q < SUPPORT_CARD_NUM"
  shows "(driver_name (cards ad ! p) = driver_name (cards ad ! q)) = (p = q)"
proof -
  have "distinct (map driver_name (cards ad))" using assms(1) by (simp add: cards_wf_def)
  then show ?thesis
    using assms cards_wf_length [OF assms(1)] nth_eq_iff_index_eq [of "map driver_name (cards ad)" p q] by simp
qed

lemma listed_place: "cards_wf k ad \<Longrightarrow> m < k \<Longrightarrow> \<exists>p < SUPPORT_CARD_NUM - 1. card_list ad ! m = Some p"
  by (simp add: cards_wf_def)

lemma listed_once:
  assumes "cards_wf k ad" and "m < k" and "q < k" and "card_list ad ! m = card_list ad ! q"
  shows "m = q"
proof -
  have "distinct (take k (card_list ad))" "length (take k (card_list ad)) = k" using assms(1) by (auto simp: cards_wf_def)
  then show ?thesis using assms nth_eq_iff_index_eq [of "take k (card_list ad)" m q] by simp
qed

lemma scan_listed_none:
  assumes "cards_wf k ad" and "j < SUPPORT_CARD_NUM - 1" and "\<forall>q. m \<le> q \<and> q < k' \<longrightarrow> card_list ad ! q \<noteq> Some j" and "k' \<le> k"
  shows "scan_listed rescan j name m k' s n l ad = Some (s, n, k', l, ad)"
  using assms
proof (induction "k' - m" arbitrary: m)
  case 0
  then show ?case by (simp add: scan_listed.simps [of rescan j name m])
next
  case (Suc d)
  then have m: "m < k'" by simp
  then obtain p where p: "p < SUPPORT_CARD_NUM - 1" "card_list ad ! m = Some p"
    using listed_place [OF assms(1), of m] assms(4) by auto
  then have "p \<noteq> j" using Suc.prems(3) m by auto
  then have "driver_name (cards ad ! j) \<noteq> driver_name (cards ad ! p)"
    using same_driver [OF assms(1), of j p] p assms(2) by simp
  moreover have "scan_listed rescan j name (Suc m) k' s n l ad = Some (s, n, k', l, ad)"
    using Suc.hyps(1) [of "Suc m"] Suc.hyps(2) Suc.prems by simp
  ultimately show ?case using m p by (simp add: scan_listed.simps [of rescan j name m] Let_def)
qed

lemma cards_wf_usb [simp]: "cards_wf k (ad\<lparr>usb_card_name := x\<rparr>) = cards_wf k ad"
  by (simp add: cards_wf_def)

lemma scan_listed_found:
  assumes "cards_wf k ad" and "j < SUPPORT_CARD_NUM - 1" and "m \<le> q" and "q < k" and "card_list ad ! q = Some j"
    and "length name < 128"
  shows "scan_listed rescan j name m k s n l ad =
           (if driver_name (cards ad ! j) = ''USB-Audio'' \<and> (name \<noteq> usb_card_name ad \<or> rescan)
            then Some (False, q, k - 1, left_give (cards ad ! j) l, ad\<lparr>usb_card_name := name\<rparr>)
            else Some (True, n, k, l, ad))"
  using assms(3)
proof (induction "q - m" arbitrary: m)
  case 0
  then have mq: "m = q" by simp
  have last: "\<forall>r. Suc q \<le> r \<and> r < k \<longrightarrow> card_list ad ! r \<noteq> Some j"
    using listed_once [OF assms(1,4)] assms(5) by (metis Suc_n_not_le_n)
  let ?usb = "driver_name (cards ad ! j) = ''USB-Audio'' \<and> (name \<noteq> usb_card_name ad \<or> rescan)"
  have "scan_listed rescan j name (Suc q) (k - 1) False q (left_give (cards ad ! j) l) (ad\<lparr>usb_card_name := name\<rparr>) =
        Some (False, q, k - 1, left_give (cards ad ! j) l, ad\<lparr>usb_card_name := name\<rparr>)"
    using last assms(1,2) by (intro scan_listed_none [of k]) auto
  moreover have "scan_listed rescan j name (Suc q) k True n l ad = Some (True, n, k, l, ad)"
    using last assms(1,2) by (intro scan_listed_none [of k]) auto
  ultimately show ?case
    using assms(4,5,6) mq by (subst scan_listed.simps) (auto simp: Let_def)
next
  case (Suc d)
  then have m: "m < q" "m < k" using assms(4) by simp_all
  then obtain p where p: "p < SUPPORT_CARD_NUM - 1" "card_list ad ! m = Some p" using listed_place [OF assms(1)] by blast
  then have "p \<noteq> j" using listed_once [OF assms(1), of m q] m assms(4,5) by auto
  then have "driver_name (cards ad ! j) \<noteq> driver_name (cards ad ! p)"
    using same_driver [OF assms(1), of j p] p assms(2) by simp
  then show ?case
    using Suc.hyps(1) [of "Suc m"] Suc.hyps(2) m p by (simp add: scan_listed.simps [of rescan j name m] Let_def)
qed

text \<open>What is not left is served by a card of the list.\<close>

definition covered :: "u32 \<times> u32 \<Rightarrow> nat \<Rightarrow> left \<Rightarrow> 'a Cards_scheme \<Rightarrow> bool" where
  "covered all k l ad =
     (\<forall>i. (bit (fst all) i \<longrightarrow> bit (fst l) i \<or> (\<exists>m < k. \<exists>p. card_list ad ! m = Some p \<and> bit (supported_out (cards ad ! p)) i)) \<and>
          (bit (snd all) i \<longrightarrow> bit (snd l) i \<or> (\<exists>m < k. \<exists>p. card_list ad ! m = Some p \<and> bit (supported_in (cards ad ! p)) i)))"

lemma left_after_bits:
  assumes "\<forall>q \<in> set ps. q \<noteq> None"
  shows "\<exists>l'. left_after cs ps l = Some l' \<and>
           (\<forall>i. (bit (fst l) i \<longrightarrow> bit (fst l') i \<or> (\<exists>p. Some p \<in> set ps \<and> bit (supported_out (cs ! p)) i)) \<and>
                (bit (snd l) i \<longrightarrow> bit (snd l') i \<or> (\<exists>p. Some p \<in> set ps \<and> bit (supported_in (cs ! p)) i)))"
  using assms
proof (induction ps arbitrary: l)
  case (Cons q ps)
  then obtain p where q: "q = Some p" by auto
  obtain l' where l': "left_after cs ps (left_take (cs ! p) l) = Some l'"
    and b: "\<And>i. (bit (fst (left_take (cs ! p) l)) i \<longrightarrow> bit (fst l') i \<or> (\<exists>p. Some p \<in> set ps \<and> bit (supported_out (cs ! p)) i)) \<and>
                (bit (snd (left_take (cs ! p) l)) i \<longrightarrow> bit (snd l') i \<or> (\<exists>p. Some p \<in> set ps \<and> bit (supported_in (cs ! p)) i))"
    using Cons.IH [of "left_take (cs ! p) l"] Cons.prems by auto
  show ?case
  proof (intro exI [of _ l'] conjI allI)
    show "left_after cs (q # ps) l = Some l'" using q l' by simp
    fix i
    have "bit (fst l) i \<Longrightarrow> bit (fst (left_take (cs ! p) l)) i \<or> bit (supported_out (cs ! p)) i"
      "bit (snd l) i \<Longrightarrow> bit (snd (left_take (cs ! p) l)) i \<or> bit (supported_in (cs ! p)) i"
      by (auto simp: left_take_def bit_simps dest: bit_imp_le_length)
    then show "bit (fst l) i \<longrightarrow> bit (fst l') i \<or> (\<exists>p. Some p \<in> set (q # ps) \<and> bit (supported_out (cs ! p)) i)"
      "bit (snd l) i \<longrightarrow> bit (snd l') i \<or> (\<exists>p. Some p \<in> set (q # ps) \<and> bit (supported_in (cs ! p)) i)"
      using b [of i] q by auto
  qed
qed simp

lemma left_after_covered:
  assumes "cards_wf k ad"
  shows "\<exists>l. left_after (cards ad) (take k (card_list ad)) all = Some l \<and> covered all k l ad"
proof -
  have k: "k \<le> length (card_list ad)" using assms by (simp add: cards_wf_def)
  have "\<forall>q \<in> set (take k (card_list ad)). q \<noteq> None"
    using listed_place [OF assms] k by (auto simp: in_set_conv_nth) blast
  from left_after_bits [OF this, of "cards ad" all]
  obtain l where "left_after (cards ad) (take k (card_list ad)) all = Some l"
    and "\<And>i. (bit (fst all) i \<longrightarrow> bit (fst l) i \<or> (\<exists>p. Some p \<in> set (take k (card_list ad)) \<and> bit (supported_out (cards ad ! p)) i)) \<and>
              (bit (snd all) i \<longrightarrow> bit (snd l) i \<or> (\<exists>p. Some p \<in> set (take k (card_list ad)) \<and> bit (supported_in (cards ad ! p)) i))"
    by blast
  then show ?thesis using k by (fastforce simp: covered_def in_set_conv_nth)
qed

lemma enter_card_store:
  assumes "cards_wf k ad" and "j < SUPPORT_CARD_NUM - 1" and "enter_card b w i j n ad = (ok, ad2)"
  shows "card_list ad2 = (card_list ad)[n := Some j]" "length (cards ad2) = SUPPORT_CARD_NUM"
    "map driver_name (cards ad2) = map driver_name (cards ad)"
    "supported_out (cards ad2 ! p) = supported_out (cards ad ! p)"
    "supported_in (cards ad2 ! p) = supported_in (cards ad ! p)"
    "audio_card_num ad2 = audio_card_num ad"
proof -
  have len: "length (cards ad) = SUPPORT_CARD_NUM" by (rule cards_wf_length [OF assms(1)])
  have upd: "map driver_name ((cards ad)[j := c]) = map driver_name (cards ad)" if "driver_name c = driver_name (cards ad ! j)" for c
    using that assms(2) len by (simp add: map_update) (metis list_update_id map_update nth_map diff_less less_trans card_numbers(2) zero_less_numeral zero_less_one)
  show "card_list ad2 = (card_list ad)[n := Some j]" "length (cards ad2) = SUPPORT_CARD_NUM"
    "map driver_name (cards ad2) = map driver_name (cards ad)"
    "supported_out (cards ad2 ! p) = supported_out (cards ad ! p)"
    "supported_in (cards ad2 ! p) = supported_in (cards ad ! p)"
    "audio_card_num ad2 = audio_card_num ad"
    using assms(2,3) len
    by (auto simp: enter_card_def Let_def probe_card_def upd nth_list_update split: if_splits)
qed

lemma bit_left_take:
  "bit (fst (left_take c l)) i = (bit (fst l) i \<and> \<not> bit (supported_out c) i)"
  "bit (snd (left_take c l)) i = (bit (snd l) i \<and> \<not> bit (supported_in c) i)"
  by (auto simp: left_take_def bit_simps dest: bit_imp_le_length)

lemma bit_left_give:
  "bit (fst (left_give c l)) i = (bit (fst l) i \<or> bit (supported_out c) i)"
  "bit (snd (left_give c l)) i = (bit (snd l) i \<or> bit (supported_in c) i)"
  by (auto simp: left_give_def bit_simps)

text \<open>A card that comes to the end of the list, or back to its place.\<close>

lemma enter_new:
  assumes wf: "cards_wf k ad" and j: "j < SUPPORT_CARD_NUM - 1" and k: "k < MAX_AUDIO_CARD_NUM"
    and new: "\<forall>q < k. card_list ad ! q \<noteq> Some j" and cov: "covered all k l ad"
    and e: "enter_card b w i j k ad = (ok, ad2)"
  shows "cards_wf (Suc k) ad2 \<and> covered all (Suc k) (left_take (cards ad2 ! j) l) ad2"
proof -
  note st = enter_card_store [OF wf j e]
  have len: "length (card_list ad) = MAX_AUDIO_CARD_NUM" using wf by (simp add: cards_wf_def)
  have at: "card_list ad2 ! m = (if m = k then Some j else card_list ad ! m)" if "m \<le> k" for m
    using st(1) that k len by (simp add: nth_list_update)
  have "take (Suc k) (card_list ad2) = take k (card_list ad) @ [Some j]"
    using st(1) k len by (simp add: take_Suc_conv_app_nth)
  moreover have "Some j \<notin> set (take k (card_list ad))" using new k len by (auto simp: in_set_conv_nth)
  moreover have "\<exists>p < SUPPORT_CARD_NUM - 1. card_list ad2 ! m = Some p" if "m < Suc k" for m
    using that at [of m] listed_place [OF wf, of m] j by auto
  ultimately have "cards_wf (Suc k) ad2" using wf k len st by (simp add: cards_wf_def)
  moreover have "covered all (Suc k) (left_take (cards ad2 ! j) l) ad2"
  proof (unfold covered_def, intro allI conjI impI)
    fix i
    have old: "\<exists>m < Suc k. \<exists>p. card_list ad2 ! m = Some p \<and> P p" if "\<exists>m < k. \<exists>p. card_list ad ! m = Some p \<and> P p" for P
      using that at by (metis less_SucI less_imp_le nat_neq_iff)
    have new: "\<exists>m < Suc k. \<exists>p. card_list ad2 ! m = Some p \<and> P p" if "P j" for P
      using that at [of k] by auto
    show "bit (fst (left_take (cards ad2 ! j) l)) i \<or> (\<exists>m < Suc k. \<exists>p. card_list ad2 ! m = Some p \<and> bit (supported_out (cards ad2 ! p)) i)"
      if "bit (fst all) i"
      using cov that old [of "\<lambda>p. bit (supported_out (cards ad ! p)) i"] new [of "\<lambda>p. bit (supported_out (cards ad ! p)) i"] st(4)
      by (auto simp: covered_def bit_left_take)
    show "bit (snd (left_take (cards ad2 ! j) l)) i \<or> (\<exists>m < Suc k. \<exists>p. card_list ad2 ! m = Some p \<and> bit (supported_in (cards ad2 ! p)) i)"
      if "bit (snd all) i"
      using cov that old [of "\<lambda>p. bit (supported_in (cards ad ! p)) i"] new [of "\<lambda>p. bit (supported_in (cards ad ! p)) i"] st(5)
      by (auto simp: covered_def bit_left_take)
  qed
  ultimately show ?thesis ..
qed

lemma enter_again:
  assumes wf: "cards_wf k ad" and j: "j < SUPPORT_CARD_NUM - 1" and q: "q < k" "card_list ad ! q = Some j"
    and cov: "covered all k l ad" and e: "enter_card b w i j q ad = (ok, ad2)"
  shows "cards_wf k ad2 \<and> covered all k (left_take (cards ad2 ! j) (left_give (cards ad ! j) l)) ad2"
proof -
  note st = enter_card_store [OF wf j e]
  have same: "card_list ad2 = card_list ad" using st(1) q by (metis list_update_id)
  have "cards_wf k ad2" using wf st same by (simp add: cards_wf_def)
  moreover have "covered all k (left_take (cards ad2 ! j) (left_give (cards ad ! j) l)) ad2"
    using cov q same st(4,5) by (auto simp: covered_def bit_left_take bit_left_give)
  ultimately show ?thesis ..
qed

lemma known_card_range:
  assumes "cards_wf k ad" and "known_card (cards ad) driver = Some j" and "\<not> is_infix ''null_card'' driver"
  shows "j < SUPPORT_CARD_NUM - 1"
proof -
  have j: "j < SUPPORT_CARD_NUM" "is_infix (driver_name (cards ad ! j)) driver"
    using assms(2) cards_wf_length [OF assms(1)] by (auto simp: known_card_def find_Some_iff)
  have "map driver_name (cards ad) ! 6 = ''null_card''" using assms(1) by (simp add: cards_wf_def)
  then have "driver_name (cards ad ! 6) = ''null_card''"
    using cards_wf_length [OF assms(1)] by (simp add: card_numbers)
  then have "j \<noteq> 6" using j(2) assms(3) by auto
  then show ?thesis using j(1) by (simp add: card_numbers)
qed

definition sys_ok :: "Sys \<Rightarrow> bool" where
  "sys_ok w = (\<forall>i driver name. sys_card w i = Some (driver, name) \<longrightarrow> \<not> is_infix ''null_card'' driver \<and> length name < 128)"

lemma covered_usb [simp]: "covered all k l (ad\<lparr>usb_card_name := x\<rparr>) = covered all k l ad"
  by (simp add: covered_def)

lemma scan_loop_ok:
  assumes "sys_ok w" and "cards_wf k ad" and "covered all k l ad" and "audio_card_num ad \<le> k"
  shows "\<exists>r l' ad'. scan_loop b w rescan is k l ad = Some (r, l', ad') \<and> audio_card_num ad' = audio_card_num ad \<and>
           (case r of None \<Rightarrow> cards_wf (audio_card_num ad) ad' | Some k' \<Rightarrow> cards_wf k' ad' \<and> covered all k' l' ad')"
  using assms(2-4)
proof (induction "is" arbitrary: k l ad)
  case (Cons i "is")
  show ?case
  proof (cases "sys_card w i")
    case None
    then show ?thesis using Cons.prems by simp
  next
    case (Some dn)
    then obtain driver name where dn: "sys_card w i = Some (driver, name)" by (cases dn) simp
    have ok: "\<not> is_infix ''null_card'' driver" "length name < 128" using assms(1) dn by (auto simp: sys_ok_def)
    show ?thesis
    proof (cases "known_card (cards ad) driver")
      case None
      then show ?thesis using Cons.IH [OF Cons.prems] dn by simp
    next
      case (Some j)
      have j: "j < SUPPORT_CARD_NUM - 1" by (rule known_card_range [OF Cons.prems(1) Some ok(1)])
      show ?thesis
      proof (cases "\<exists>q < k. card_list ad ! q = Some j")
        case True
        then obtain q where q: "q < k" "card_list ad ! q = Some j" by blast
        note f = scan_listed_found [OF Cons.prems(1) j _ q ok(2), of 0 rescan False k l]
        show ?thesis
        proof (cases "driver_name (cards ad ! j) = ''USB-Audio'' \<and> (name \<noteq> usb_card_name ad \<or> rescan)")
          case usb: True
          let ?ad1 = "ad\<lparr>usb_card_name := name\<rparr>"
          obtain mix ad2 where e: "enter_card b w i j q ?ad1 = (mix, ad2)" by fastforce
          have a: "cards_wf k ad2" "covered all k (left_take (cards ad2 ! j) (left_give (cards ad ! j) l)) ad2"
            using enter_again [OF _ j _ _ _ e, of k all l] Cons.prems q by simp_all
          have n: "audio_card_num ad2 = audio_card_num ad"
            using enter_card_store(6) [OF _ j e, of k] Cons.prems(1) by simp
          have "q < MAX_AUDIO_CARD_NUM" using q Cons.prems(1) by (simp add: cards_wf_def)
          then show ?thesis
            using Cons.IH [OF a, unfolded n] n Cons.prems(1,3) cards_wf_mono [OF a(1)] dn Some f usb e q
            by (cases mix) simp_all
        next
          case False
          then have "scan_listed rescan j name 0 k False k l ad = Some (True, k, k, l, ad)" using f by auto
          then show ?thesis using Cons.IH [OF Cons.prems] dn Some by simp
        qed
      next
        case False
        then have none: "scan_listed rescan j name 0 k False k l ad = Some (False, k, k, l, ad)"
          using scan_listed_none [OF Cons.prems(1) j] by simp
        show ?thesis
        proof (cases "k < MAX_AUDIO_CARD_NUM")
          case True
          obtain mix ad2 where e: "enter_card b w i j k ad = (mix, ad2)" by fastforce
          have a: "cards_wf (Suc k) ad2" "covered all (Suc k) (left_take (cards ad2 ! j) l) ad2"
            using enter_new [OF Cons.prems(1) j True _ Cons.prems(2) e] False by simp_all
          have n: "audio_card_num ad2 = audio_card_num ad" by (rule enter_card_store(6) [OF Cons.prems(1) j e])
          show ?thesis
            using Cons.IH [OF a, unfolded n] n Cons.prems(3) cards_wf_mono [OF a(1)] n dn Some none e True
            by (cases mix) simp_all
        next
          case False
          then show ?thesis using Cons.IH [OF Cons.prems] dn Some none by simp
        qed
      qed
    qed
  qed
qed simp

lemma card_serving_found:
  assumes "\<forall>q \<in> set ps. q \<noteq> None" and "\<exists>p. Some p \<in> set ps \<and> sel (cs ! p) AND d \<noteq> 0"
  shows "\<exists>c. card_serving sel cs d ps = Some (Some c) \<and> sel c AND d \<noteq> 0"
  using assms by (induction sel cs d ps rule: card_serving.induct) auto

lemma word_and_bit: "((a :: u32) AND d \<noteq> 0) = (\<exists>i. bit a i \<and> bit d i)"
proof -
  have "(a AND d \<noteq> 0) = (\<exists>i. bit (a AND d) i)" by (metis bit_0_eq bit_eqI bot_apply bot_bool_def)
  then show ?thesis by (simp add: bit_and_iff)
qed

lemma fill_null_ok:
  assumes "cards_wf k ad" and "covered all k l ad" and "k < MAX_AUDIO_CARD_NUM"
  shows "cards_wf k (fill_null k l ad) \<and> (\<forall>q \<in> set (card_list (fill_null k l ad)). q \<noteq> None) \<and>
         (\<forall>d. fst all AND d \<noteq> 0 \<longrightarrow>
            (\<exists>p. Some p \<in> set (card_list (fill_null k l ad)) \<and> supported_out (cards (fill_null k l ad) ! p) AND d \<noteq> 0)) \<and>
         (\<forall>d. snd all AND d \<noteq> 0 \<longrightarrow>
            (\<exists>p. Some p \<in> set (card_list (fill_null k l ad)) \<and> supported_in (cards (fill_null k l ad) ! p) AND d \<noteq> 0))"
proof -
  let ?f = "fill_null k l ad"
  have len: "length (card_list ad) = 4" "length (cards ad) = 7"
    using assms(1) cards_wf_length [OF assms(1)] by (simp_all add: cards_wf_def card_numbers)
  have cl: "card_list ?f = take k (card_list ad) @ replicate (4 - k) (Some 6)"
    and cs: "cards ?f = (cards ad)[6 := (cards ad ! 6)\<lparr>supported_out := fst l, supported_in := snd l\<rparr>]"
    using assms(3) by (simp_all add: fill_null_def card_numbers Let_def)
  have names: "map driver_name (cards ?f) = map driver_name (cards ad)"
    using len by (simp add: cs map_update) (metis list_update_id map_update nth_map numeral_less_iff semiring_norm(76,80) lessI)
  have low: "\<exists>p < 6. card_list ad ! m = Some p" if "m < k" for m
    using listed_place [OF assms(1) that] by (simp add: card_numbers)
  have in_low: "Some p \<in> set (card_list ?f) \<and> supported_out (cards ?f ! p) = supported_out (cards ad ! p) \<and>
      supported_in (cards ?f ! p) = supported_in (cards ad ! p)" if "m < k" "card_list ad ! m = Some p" for m p
  proof -
    have "p \<noteq> 6" using low [OF that(1)] that(2) by auto
    moreover have "Some p \<in> set (take k (card_list ad))"
      using that assms(3) len by (auto simp: in_set_conv_nth card_numbers intro!: exI [of _ m])
    ultimately show ?thesis by (simp add: cl cs)
  qed
  have null: "Some 6 \<in> set (card_list ?f) \<and> supported_out (cards ?f ! 6) = fst l \<and> supported_in (cards ?f ! 6) = snd l"
    using assms(3) len by (simp add: cl cs card_numbers)
  have "cards_wf k ?f"
    using assms(1,3) len names by (simp add: cards_wf_def cl nth_append card_numbers)
  moreover have "\<forall>q \<in> set (card_list ?f). q \<noteq> None"
    using low len assms(3) by (auto simp: cl in_set_conv_nth card_numbers) blast
  moreover have "\<exists>p. Some p \<in> set (card_list ?f) \<and> supported_out (cards ?f ! p) AND d \<noteq> 0" if "fst all AND d \<noteq> 0" for d
    using that assms(2) in_low null unfolding word_and_bit covered_def by metis
  moreover have "\<exists>p. Some p \<in> set (card_list ?f) \<and> supported_in (cards ?f ! p) AND d \<noteq> 0" if "snd all AND d \<noteq> 0" for d
    using that assms(2) in_low null unfolding word_and_bit covered_def by metis
  ultimately show ?thesis by blast
qed

text \<open>A lookup gives a card that serves one of the devices whenever a card of the list does; while there is room for
  another card, that is so for all devices \<open>all\<close>.\<close>

definition lookup_ok :: "(audio_card \<Rightarrow> u32) \<Rightarrow> u32 \<Rightarrow> bool \<Rightarrow> audio_card list \<Rightarrow> nat option list \<Rightarrow> bool" where
  "lookup_ok sel all room cs ps =
     (\<forall>d. case card_serving sel cs d ps of
            None \<Rightarrow> False
          | Some None \<Rightarrow> (\<forall>p. Some p \<in> set ps \<longrightarrow> sel (cs ! p) AND d = 0) \<and> (all AND d = 0 \<or> \<not> room)
          | Some (Some c) \<Rightarrow> sel c AND d \<noteq> 0)"

lemma card_serving_none:
  "\<forall>q \<in> set ps. q \<noteq> None \<Longrightarrow> \<forall>p. Some p \<in> set ps \<longrightarrow> sel (cs ! p) AND d = 0 \<Longrightarrow> card_serving sel cs d ps = Some None"
  by (induction sel cs d ps rule: card_serving.induct) auto

lemma lookup_okI:
  assumes "\<forall>q \<in> set ps. q \<noteq> None"
    and "\<And>d. room \<Longrightarrow> all AND d \<noteq> 0 \<Longrightarrow> \<exists>p. Some p \<in> set ps \<and> sel (cs ! p) AND d \<noteq> 0"
  shows "lookup_ok sel all room cs ps"
  unfolding lookup_ok_def
proof (rule allI)
  fix d
  show "case card_serving sel cs d ps of
            None \<Rightarrow> False
          | Some None \<Rightarrow> (\<forall>p. Some p \<in> set ps \<longrightarrow> sel (cs ! p) AND d = 0) \<and> (all AND d = 0 \<or> \<not> room)
          | Some (Some c) \<Rightarrow> sel c AND d \<noteq> 0"
  proof (cases "\<exists>p. Some p \<in> set ps \<and> sel (cs ! p) AND d \<noteq> 0")
    case True
    then obtain c where "card_serving sel cs d ps = Some (Some c)" "sel c AND d \<noteq> 0"
      using card_serving_found [OF assms(1)] by blast
    then show ?thesis by simp
  next
    case False
    then have "card_serving sel cs d ps = Some None" using assms(1) by (intro card_serving_none) auto
    then show ?thesis using False assms(2) [of d] by auto
  qed
qed

text \<open>C4: Whatever cards the system has, a scan keeps the list in order: its first places point to
  different known cards. When it succeeds no place is NULL, and a lookup gives a card that serves the device whenever a
  card of the list does. While fewer than four known cards are there, that is so for every device of the module: the
  null card takes over what is left. With four known cards there is no place for the null card, and a device that none
  of them serves has no card.\<close>

theorem scan_serves_devices:
  assumes "sys_ok w" and "cards_wf (audio_card_num ad) ad"
  shows "\<exists>r ad'. scan_available_device b w rescan ad = Some (r, ad') \<and> cards_wf (audio_card_num ad') ad' \<and>
           (if r = 0 then
              (\<forall>q \<in> set (card_list ad'). q \<noteq> None) \<and>
              (let room = (audio_card_num ad' < MAX_AUDIO_CARD_NUM) in
               lookup_ok supported_out (SUPPORTED_DEVICE_OUT_MODULE b) room (cards ad') (card_list ad') \<and>
               lookup_ok supported_in (SUPPORTED_DEVICE_IN_MODULE b) room (cards ad') (card_list ad'))
            else r = - EINVAL)"
proof -
  let ?all = "(SUPPORTED_DEVICE_OUT_MODULE b, SUPPORTED_DEVICE_IN_MODULE b)"
  obtain l where l: "left_after (cards ad) (take (audio_card_num ad) (card_list ad)) ?all = Some l"
    and cov: "covered ?all (audio_card_num ad) l ad"
    using left_after_covered [OF assms(2)] by blast
  obtain r l' ad1 where s: "scan_loop b w rescan [0..<MAX_AUDIO_CARD_SCAN] (audio_card_num ad) l ad = Some (r, l', ad1)"
    and r: "case r of None \<Rightarrow> cards_wf (audio_card_num ad) ad1 | Some k' \<Rightarrow> cards_wf k' ad1 \<and> covered ?all k' l' ad1"
    and n: "audio_card_num ad1 = audio_card_num ad"
    using scan_loop_ok [OF assms(1,2) cov, of b rescan "[0..<MAX_AUDIO_CARD_SCAN]"] by auto
  have e: "- EINVAL \<noteq> 0" by (simp add: EINVAL_def)
  show ?thesis
  proof (cases r)
    case None
    then show ?thesis using l s r n e by (simp add: scan_available_device_def)
  next
    case (Some k)
    let ?ad2 = "ad1\<lparr>audio_card_num := k\<rparr>"
    have a2: "cards_wf k ?ad2" "covered ?all k l' ?ad2" using r Some by (simp_all add: cards_wf_def covered_def)
    show ?thesis
    proof (cases "card_list ad1 ! 0 = None")
      case True
      then show ?thesis using l s Some a2(1) e by (simp add: scan_available_device_def)
    next
      case False
      then have res: "scan_available_device b w rescan ad = Some (0, fill_null k l' ?ad2)"
        using l s Some by (auto simp: scan_available_device_def Let_def)
      have num: "audio_card_num (fill_null k l' ?ad2) = k" by (simp add: fill_null_def Let_def)
      show ?thesis
      proof (cases "k < MAX_AUDIO_CARD_NUM")
        case True
        note f = fill_null_ok [OF a2 True]
        have "lookup_ok supported_out (SUPPORTED_DEVICE_OUT_MODULE b) True (cards (fill_null k l' ?ad2)) (card_list (fill_null k l' ?ad2))"
          "lookup_ok supported_in (SUPPORTED_DEVICE_IN_MODULE b) True (cards (fill_null k l' ?ad2)) (card_list (fill_null k l' ?ad2))"
          using f by (auto intro!: lookup_okI)
        then show ?thesis using res num f True by auto
      next
        case False
        then have "k = MAX_AUDIO_CARD_NUM" "length (card_list ?ad2) = k" using a2(1) by (auto simp: cards_wf_def)
        then have "\<forall>q \<in> set (card_list ?ad2). q \<noteq> None"
          using listed_place [OF a2(1)] by (auto simp: in_set_conv_nth) blast
        moreover from this have "lookup_ok sel all False (cards ?ad2) (card_list ?ad2)" for sel all by (intro lookup_okI) auto
        ultimately show ?thesis using res num False a2(1) by (simp add: fill_null_def)
      qed
    qed
  qed
qed

definition cards_boot :: "Bits \<Rightarrow> Cards" where
  "cards_boot b = \<lparr>cards = audio_card_list b, card_list = replicate 4 None, mixers = replicate 4 None,
     audio_card_num = 0, mm_rate = 44100, usb_card_name = []\<rparr>"

lemma cards_boot_wf: "cards_wf 0 (cards_boot b)"
  by (simp add: cards_wf_def cards_boot_def driver_names card_numbers)

definition demo_sys :: Sys where
  "demo_sys = \<lparr>sys_card = (\<lambda>i. if i = 0 then Some (''wm8962-audio'', ''wm8962'') else None), sys_mixer = (\<lambda>i. True),
     sys_rate = (\<lambda>i out. Some 44100), sys_channels = (\<lambda>i out. Some 2), sys_s16 = (\<lambda>i. True), sys_s24 = (\<lambda>i. False)\<rparr>"

lemma demo_sys_ok: "sys_ok demo_sys"
  by (simp add: sys_ok_def demo_sys_def)

theorem scan_serves_devices_witness:
  "\<exists>r ad'. scan_available_device demo_bits demo_sys True (cards_boot demo_bits) = Some (r, ad') \<and>
            cards_wf (audio_card_num ad') ad'"
  using scan_serves_devices [of demo_sys "cards_boot demo_bits" demo_bits True] demo_sys_ok cards_boot_wf [of demo_bits]
  by (auto simp: cards_boot_def)

text \<open>Four known cards: the codec, HDMI, S/PDIF and the cs42888. The microphone of a USB card is not found then, though
  it is a device of the module; with fewer cards the null card would serve it.\<close>

definition full_sys :: Sys where
  "full_sys = demo_sys\<lparr>sys_card := (\<lambda>i. if i = 0 then Some (''wm8962-audio'', []) else if i = 1 then Some (''imx-hdmi-soc'', [])
     else if i = 2 then Some (''imx-spdif'', []) else if i = 3 then Some (''cs42888-audio'', []) else None)\<rparr>"

lemma full_list_lacks_device:
  "\<exists>ad. scan_available_device demo_bits full_sys True (cards_boot demo_bits) = Some (0, ad) \<and>
     SUPPORTED_DEVICE_IN_MODULE demo_bits AND in_usb_device demo_bits \<noteq> 0 \<and>
     get_card_for_device False (in_usb_device demo_bits) ad = Some (- 1)"
proof -
  have i: "[0..<MAX_AUDIO_CARD_SCAN] = [0, Suc 0, 2, 3]"
    by (simp add: card_numbers upt_rec)
  have d: "driver_name (wm8958_card b) = ''wm8958-audio''" "driver_name (wm8962_card b) = ''wm8962-audio''"
    "driver_name (hdmi_card b) = ''imx-hdmi-soc''" "driver_name (usbaudio_card b) = ''USB-Audio''"
    "driver_name (spdif_card b) = ''imx-spdif''" "driver_name (cs42888_card b) = ''cs42888-audio''"
    "driver_name null_card = ''null_card''" for b
    by (simp_all add: wm8958_card_def wm8962_card_def hdmi_card_def usbaudio_card_def spdif_card_def
      cs42888_card_def null_card_def plain_card_def)
  have k: "known_card [c0, c1, c2, c3, c4, c5, c6] dr =
     (if is_infix (driver_name c0) dr then Some 0 else if is_infix (driver_name c1) dr then Some 1
      else if is_infix (driver_name c2) dr then Some 2 else if is_infix (driver_name c3) dr then Some 3
      else if is_infix (driver_name c4) dr then Some 4 else if is_infix (driver_name c5) dr then Some 5
      else if is_infix (driver_name c6) dr then Some 6 else None)" for c0 c1 c2 c3 c4 c5 c6 dr
    by (simp add: known_card_def upt_rec)
  have n: "replicate 4 x = [x, x, x, x]" "MAX_AUDIO_CARD_NUM = 4" "SUPPORT_CARD_NUM = 7" for x :: "'b option"
    by (simp_all add: card_numbers numeral_eq_Suc)
  have s: "sys_card full_sys 0 = Some (''wm8962-audio'', [])" "sys_card full_sys (Suc 0) = Some (''imx-hdmi-soc'', [])"
    "sys_card full_sys 2 = Some (''imx-spdif'', [])" "sys_card full_sys 3 = Some (''cs42888-audio'', [])"
    "sys_mixer full_sys j" "sys_rate full_sys j x = Some 44100" "sys_channels full_sys j x = Some 2" "sys_s16 full_sys j" for j x
    by (simp_all add: full_sys_def demo_sys_def)
  have u: "supported_in (wm8962_card demo_bits) AND in_usb_device demo_bits = 0"
    "supported_in (hdmi_card demo_bits) AND in_usb_device demo_bits = 0"
    "supported_in (spdif_card demo_bits) AND in_usb_device demo_bits = 0"
    "supported_in (cs42888_card demo_bits) AND in_usb_device demo_bits = 0"
    by (simp_all add: wm8962_card_def hdmi_card_def spdif_card_def cs42888_card_def plain_card_def codec_in_def demo_bits_def)
  have a: "\<exists>l ad. scan_loop demo_bits full_sys True [0, Suc 0, 2, 3] 0 l0 (cards_boot demo_bits) = Some (Some 4, l, ad) \<and>
     card_list ad = [Some 1, Some 2, Some 4, Some 5] \<and> (\<forall>p \<in> {1, 2, 4, 5}. supported_in (cards ad ! p) AND in_usb_device demo_bits = 0)" for l0
    using u by (simp add: cards_boot_def audio_card_list_def k d s n scan_listed.simps enter_card_def probe_card_def Let_def)
  have y: "SUPPORTED_DEVICE_IN_MODULE demo_bits AND in_usb_device demo_bits \<noteq> 0"
    by (simp add: SUPPORTED_DEVICE_IN_MODULE_def) (simp add: demo_bits_def)
  have z: "audio_card_num (cards_boot demo_bits) = 0" by (simp add: cards_boot_def)
  obtain l ad where "scan_loop demo_bits full_sys True [0, Suc 0, 2, 3] 0
      (SUPPORTED_DEVICE_OUT_MODULE demo_bits, SUPPORTED_DEVICE_IN_MODULE demo_bits) (cards_boot demo_bits) = Some (Some 4, l, ad)"
    and "card_list ad = [Some 1, Some 2, Some 4, Some 5]" and "\<forall>p \<in> {1, 2, 4, 5}. supported_in (cards ad ! p) AND in_usb_device demo_bits = 0"
    using a by blast
  then show ?thesis using y
    by (simp del: scan_loop.simps
        add: scan_available_device_def i z n fill_null_def get_card_for_device_def serving_def [abs_def] Let_def)
qed

end
