(* ===== verification/Alsa_Select.thy ===== *)
theory Alsa_Select
  imports Alsa_Cards
begin

text \<open>
  The routing of the ALSA audio HAL (src/alsa/tinyalsa_hal.c): a path of mixer settings is switched on
  or off on every card of the list (\<open>set_route_by_array\<close>), and \<open>select_output_device\<close> and
  \<open>select_input_device\<close> choose the paths from the devices, the mode and the TTY mode. The calls of the mixer
  are listed in order; the mixers are a parameter.
\<close>

datatype tty_modes = TTY_MODE_OFF | TTY_MODE_VCO | TTY_MODE_HCO | TTY_MODE_FULL

text \<open>The mixer is the one of a card; a control is a number.\<close>

datatype mix_call = SetEnum int nat string | SetValue int nat nat int

text \<open>\<open>active_input\<close> is a pointer in the source: to no stream, or to one; \<open>stale_input\<close> is whether the stream that it points to
  is freed. Following it then has the result \<open>None\<close>.\<close>

record Routing = Cards +
  ad_mode :: int
  in_device :: u32
  out_device :: u32
  in_call :: bool
  tty_mode :: tty_modes
  active_input :: bool
  stale_input :: bool
  in_source :: int
  mix_log :: "mix_call list"

text \<open>The parameter: the control of a name, and how many values a control has.\<close>

record Mixers =
  ctl_by_name :: "int \<Rightarrow> string \<Rightarrow> nat option"
  num_values :: "int \<Rightarrow> nat \<Rightarrow> nat"

section \<open>Paths\<close>

text \<open>What one setting does to its control.\<close>

definition setting_calls :: "Mixers \<Rightarrow> int \<Rightarrow> bool \<Rightarrow> nat \<Rightarrow> route_setting \<Rightarrow> mix_call list" where
  "setting_calls mx m en c r =
     (case strval r of
        Some t \<Rightarrow> [SetEnum m c (if en then t else ''Off'')]
      | None \<Rightarrow> map (\<lambda>j. SetValue m c j (if en then intval r else 0)) [0..<num_values mx m c])"

fun set_settings :: "Mixers \<Rightarrow> int \<Rightarrow> bool \<Rightarrow> route \<Rightarrow> int \<times> mix_call list" where
  "set_settings mx m en [] = (0, [])"
| "set_settings mx m en (r # rs) =
     (case ctl_by_name mx m (ctl_name r) of
        None \<Rightarrow> (- EINVAL, [])
      | Some c \<Rightarrow> (case set_settings mx m en rs of (e, calls) \<Rightarrow> (e, setting_calls mx m en c r @ calls)))"

definition set_route_by_array :: "Mixers \<Rightarrow> int option \<Rightarrow> route option \<Rightarrow> bool \<Rightarrow> int \<times> mix_call list" where
  "set_route_by_array mx m r en =
     (case m of None \<Rightarrow> (0, []) | Some m' \<Rightarrow> (case r of None \<Rightarrow> (0, []) | Some rs \<Rightarrow> set_settings mx m' en rs))"

text \<open>The loop over the cards; results of the single cards are not used.\<close>

definition route_card ::
  "Mixers \<Rightarrow> (audio_card \<Rightarrow> route option) \<Rightarrow> bool \<Rightarrow> nat \<Rightarrow> 'a Routing_scheme \<Rightarrow> 'a Routing_scheme option" where
  "route_card mx sel en i ad =
     (case card_list ad ! i of
        None \<Rightarrow> None
      | Some p \<Rightarrow> Some (ad\<lparr>mix_log := mix_log ad @ snd (set_route_by_array mx (mixers ad ! i) (sel (cards ad ! p)) en)\<rparr>))"

definition route_all ::
  "Mixers \<Rightarrow> (audio_card \<Rightarrow> route option) \<times> bool \<Rightarrow> 'a Routing_scheme \<Rightarrow> 'a Routing_scheme option" where
  "route_all mx stage ad = foldM (route_card mx (fst stage) (snd stage)) [0..<MAX_AUDIO_CARD_NUM] ad"

section \<open>The choice of paths\<close>

text \<open>Headset, headphone, speaker and earpiece.\<close>

type_synonym outs = "bool \<times> bool \<times> bool \<times> bool"

definition bt_on :: "Bits \<Rightarrow> 'a Routing_scheme \<Rightarrow> bool" where
  "bt_on b ad = (out_device ad AND out_sco b \<noteq> 0)"

definition rx_outs :: "Bits \<Rightarrow> 'a Routing_scheme \<Rightarrow> outs" where
  "rx_outs b ad =
     (let hs = (out_device ad AND out_headset b \<noteq> 0); hp = (out_device ad AND out_headphone b \<noteq> 0);
          sp = (out_device ad AND out_speaker b \<noteq> 0); ep = (out_device ad AND out_earpiece b \<noteq> 0)
      in if ad_mode ad = mode_in_call b \<and> \<not> bt_on b ad then
           (case tty_mode ad of
              TTY_MODE_FULL \<Rightarrow> (False, True, False, False)
            | TTY_MODE_VCO \<Rightarrow> (False, True, False, False)
            | TTY_MODE_HCO \<Rightarrow> (False, False, True, False)
            | TTY_MODE_OFF \<Rightarrow> if out_device ad AND out_digital b \<noteq> 0 then (hs, hp, True, ep) else (hs, hp, sp, ep))
         else (hs, hp, sp, ep))"

text \<open>The microphone of a call.\<close>

definition tx_stage :: "Bits \<Rightarrow> 'a Routing_scheme \<Rightarrow> (audio_card \<Rightarrow> route option) \<times> bool" where
  "tx_stage b ad =
     (if bt_on b ad then (vx_bt_mic_input, True)
      else
        (case (case tty_mode ad of
                 TTY_MODE_FULL \<Rightarrow> (True, False, False, False)
               | TTY_MODE_HCO \<Rightarrow> (True, False, False, False)
               | TTY_MODE_VCO \<Rightarrow> (False, False, True, False)
               | TTY_MODE_OFF \<Rightarrow> rx_outs b ad) of
           (hs, hp, sp, ep) \<Rightarrow>
             if hs then (vx_hs_mic_input, True)
             else if hp \<or> ep \<or> sp then (vx_main_mic_input, True)
             else (vx_main_mic_input, False)))"

definition select_output_device :: "Mixers \<Rightarrow> Bits \<Rightarrow> 'a Routing_scheme \<Rightarrow> 'a Routing_scheme option" where
  "select_output_device mx b ad =
     (case rx_outs b ad of
        (hs, hp, sp, ep) \<Rightarrow>
          foldM (route_all mx)
            ([(bt_output, bt_on b ad), (hs_output, hs \<or> hp), (speaker_output, sp), (earpiece_output, ep)] @
             (if ad_mode ad = mode_in_call b then [tx_stage b ad] else [])) ad)"

definition freed_input :: "'a Routing_scheme \<Rightarrow> bool" where
  "freed_input ad = (active_input ad \<and> stale_input ad)"

definition select_input_device :: "Mixers \<Rightarrow> Bits \<Rightarrow> 'a Routing_scheme \<Rightarrow> 'a Routing_scheme option" where
  "select_input_device mx b ad =
     (if in_device ad AND in_sco b \<noteq> 0 then route_all mx (mm_bt_mic_input, True) ad
      else if ad_mode ad \<noteq> mode_in_call b \<and> freed_input ad then None
      else
        (let sub_mic_on = (ad_mode ad \<noteq> mode_in_call b \<and> active_input ad \<and>
               (in_source ad = source_camcorder b \<or>
                out_device ad AND out_speaker b \<noteq> 0 \<and> in_source ad = source_voice b))
         in if in_device ad AND in_headset b \<noteq> 0 then route_all mx (mm_hs_mic_input, True) ad
            else if in_device ad AND in_builtin_mic b \<noteq> 0 \<or> sub_mic_on then route_all mx (mm_main_mic_input, True) ad
            else route_all mx (mm_main_mic_input, False) ad))"

text \<open>The path of a mode: an index outside the array is not caught; a mode without an entry is NULL.\<close>

definition mode_route :: "int \<Rightarrow> audio_card \<Rightarrow> route option" where
  "mode_route m c = (if nat m < length (audio_modes c) then Some (audio_modes c ! nat m) else None)"

definition cavan_set_audio_mode :: "Mixers \<Rightarrow> Bits \<Rightarrow> int \<Rightarrow> 'a Routing_scheme \<Rightarrow> 'a Routing_scheme option" where
  "cavan_set_audio_mode mx b m ad =
     (if m < 0 \<or> mode_count b \<le> m then None else route_all mx (mode_route m, True) ad)"

text \<open>Playback and recording are refused in a call: the macro that the test depends on is defined.\<close>

definition EBUSY :: int where "EBUSY = 16"

definition cavan_check_audio_mode :: "Bits \<Rightarrow> 'a Routing_scheme \<Rightarrow> int" where
  "cavan_check_audio_mode b ad = (if ad_mode ad = mode_in_call b then - EBUSY else 0)"

section \<open>What the mixer is set to\<close>

fun last_value :: "mix_call list \<Rightarrow> int \<Rightarrow> nat \<Rightarrow> nat \<Rightarrow> int option" where
  "last_value [] m c j = None"
| "last_value (SetEnum m' c' t # cs) m c j = last_value cs m c j"
| "last_value (SetValue m' c' j' v # cs) m c j =
     (case last_value cs m c j of Some u \<Rightarrow> Some u | None \<Rightarrow> if m' = m \<and> c' = c \<and> j' = j then Some v else None)"

fun last_text :: "mix_call list \<Rightarrow> int \<Rightarrow> nat \<Rightarrow> string option" where
  "last_text [] m c = None"
| "last_text (SetEnum m' c' t # cs) m c =
     (case last_text cs m c of Some u \<Rightarrow> Some u | None \<Rightarrow> if m' = m \<and> c' = c then Some t else None)"
| "last_text (SetValue m' c' j' v # cs) m c = last_text cs m c"

lemma last_value_append:
  "last_value (xs @ ys) m c j = (case last_value ys m c j of Some u \<Rightarrow> Some u | None \<Rightarrow> last_value xs m c j)"
  by (induction xs m c j rule: last_value.induct) (auto split: option.splits)

lemma last_text_append:
  "last_text (xs @ ys) m c = (case last_text ys m c of Some u \<Rightarrow> Some u | None \<Rightarrow> last_text xs m c)"
  by (induction xs m c rule: last_text.induct) (auto split: option.splits)

lemma last_value_settings:
  "last_value (map (\<lambda>j. SetValue m' c' j v) [0..<n]) m c j = (if m' = m \<and> c' = c \<and> j < n then Some v else None)"
  by (induction n) (auto simp: last_value_append)

lemma last_text_settings: "last_text (map (\<lambda>j. SetValue m' c' j v) [0..<n]) m c = None"
  by (induction n) (auto simp: last_text_append)

text \<open>A path whose control is missing: the settings before it are made, the ones behind it are not.\<close>

lemma set_settings_stop:
  assumes "\<forall>r \<in> set rs. ctl_by_name mx m (ctl_name r) = Some (f r)" and "ctl_by_name mx m (ctl_name q) = None"
  shows "set_settings mx m en (rs @ q # qs) = (- EINVAL, concat (map (\<lambda>r. setting_calls mx m en (f r) r) rs))"
  using assms by (induction rs) simp_all

lemma set_settings_known:
  assumes "\<forall>r \<in> set rs. ctl_by_name mx m (ctl_name r) = Some (f (ctl_name r))"
  shows "set_settings mx m en rs = (0, concat (map (\<lambda>r. setting_calls mx m en (f (ctl_name r)) r) rs))"
  using assms by (induction rs) simp_all

section \<open>The headphones of the wm8962 board\<close>

text \<open>The board has the codec as its only card; it is the second of the known ones.\<close>

definition wm8962_board :: "'a Routing_scheme \<Rightarrow> bool" where
  "wm8962_board ad =
     (card_list ad = [Some 1, Some 6, Some 6, Some 6] \<and> mixers ad = [Some 0, None, None, None] \<and>
      bt_output (cards ad ! 1) = Some bt_output_wm8962 \<and> hs_output (cards ad ! 1) = Some hs_output_wm8962 \<and>
      speaker_output (cards ad ! 1) = Some speaker_output_wm8962 \<and>
      earpiece_output (cards ad ! 1) = Some earpiece_output_wm8962)"

lemma board_route:
  assumes "card_list ad = [Some 1, Some 6, Some 6, Some 6]" and "mixers ad = [Some 0, None, None, None]"
  shows "route_all mx (sel, en) ad =
           Some (ad\<lparr>mix_log := mix_log ad @ snd (set_route_by_array mx (Some 0) (sel (cards ad ! 1)) en)\<rparr>)"
proof -
  have "[0..<MAX_AUDIO_CARD_NUM] = [0, 1, 2, 3]" by (simp add: card_numbers upt_rec)
  then show ?thesis using assms by (simp add: route_all_def route_card_def set_route_by_array_def)
qed

lemmas wm8962_tables = bt_output_wm8962_def hs_output_wm8962_def speaker_output_wm8962_def earpiece_output_wm8962_def

lemma board_output:
  assumes "wm8962_board ad" and "ad_mode ad \<noteq> mode_in_call b"
  shows "\<exists>ad'. select_output_device mx b ad = Some ad' \<and>
           mix_log ad' = mix_log ad @
             snd (set_route_by_array mx (Some 0) (Some bt_output_wm8962) (bt_on b ad)) @
             snd (set_route_by_array mx (Some 0) (Some hs_output_wm8962)
               (out_device ad AND out_headset b \<noteq> 0 \<or> out_device ad AND out_headphone b \<noteq> 0)) @
             snd (set_route_by_array mx (Some 0) (Some speaker_output_wm8962) (out_device ad AND out_speaker b \<noteq> 0)) @
             snd (set_route_by_array mx (Some 0) (Some earpiece_output_wm8962) (out_device ad AND out_earpiece b \<noteq> 0))"
  using assms by (simp add: select_output_device_def rx_outs_def board_route wm8962_board_def Let_def)

text \<open>C21: On the wm8962 board the headphone switch follows the speaker, not the headphones: the path of
  the speaker names the switch too and comes after the one of the headphones, so a selection of the
  headphones alone leaves them switched off and their source set to ''Off''.\<close>

theorem headphones_follow_speaker:
  assumes "wm8962_board ad" and "ad_mode ad \<noteq> mode_in_call b"
    and "inj_on f (ctl_name ` set speaker_output_wm8962)"
    and "\<forall>s \<in> ctl_name ` set speaker_output_wm8962. ctl_by_name mx 0 s = Some (f s)"
    and "j < num_values mx 0 (f ''Headphone Switch'')"
  shows "\<exists>ad'. select_output_device mx b ad = Some ad' \<and>
           last_value (mix_log ad') 0 (f ''Headphone Switch'') j = Some (if out_device ad AND out_speaker b \<noteq> 0 then 1 else 0) \<and>
           last_text (mix_log ad') 0 (f ''HPOUTL PGA'') = Some (if out_device ad AND out_speaker b \<noteq> 0 then ''DAC'' else ''Off'')"
proof -
  obtain ad' where s: "select_output_device mx b ad = Some ad'"
    and l: "mix_log ad' = (mix_log ad @
             snd (set_route_by_array mx (Some 0) (Some bt_output_wm8962) (bt_on b ad)) @
             snd (set_route_by_array mx (Some 0) (Some hs_output_wm8962)
               (out_device ad AND out_headset b \<noteq> 0 \<or> out_device ad AND out_headphone b \<noteq> 0))) @
             snd (set_route_by_array mx (Some 0) (Some speaker_output_wm8962) (out_device ad AND out_speaker b \<noteq> 0)) @
             snd (set_route_by_array mx (Some 0) (Some earpiece_output_wm8962) (out_device ad AND out_earpiece b \<noteq> 0))"
    (is "_ = ?old @ ?speaker @ ?earpiece")
    using board_output [OF assms(1,2), of mx] by auto
  have e: "?earpiece = []" by (simp add: set_route_by_array_def earpiece_output_wm8962_def)
  have sp: "?speaker = concat (map (\<lambda>r. setting_calls mx 0 (out_device ad AND out_speaker b \<noteq> 0) (f (ctl_name r)) r) speaker_output_wm8962)"
    using assms(4) by (simp add: set_route_by_array_def set_settings_known [of _ mx 0 f])
  have "last_value ?speaker 0 (f ''Headphone Switch'') j = Some (if out_device ad AND out_speaker b \<noteq> 0 then 1 else 0)"
    "last_text ?speaker 0 (f ''HPOUTL PGA'') = Some (if out_device ad AND out_speaker b \<noteq> 0 then ''DAC'' else ''Off'')"
    unfolding sp
    unfolding speaker_output_wm8962_def
    using assms(3,5) unfolding speaker_output_wm8962_def
    by (simp_all add: setting_calls_def by_value_def by_text_def last_value_append last_text_append
        last_value_settings last_text_settings inj_on_def)
  then show ?thesis using s by (simp add: l e last_value_append last_text_append)
qed


definition demo_names :: "string list" where
  "demo_names = map ctl_name (speaker_output_wm8962 @ hs_output_wm8962)"

definition demo_ctl :: "string \<Rightarrow> nat" where
  "demo_ctl s = length (takeWhile (\<lambda>n. n \<noteq> s) demo_names)"

definition demo_mixers :: Mixers where
  "demo_mixers = \<lparr>ctl_by_name = (\<lambda>m s. if s \<in> set demo_names then Some (demo_ctl s) else None), num_values = (\<lambda>m c. 2)\<rparr>"

definition demo_board :: Routing where
  "demo_board = \<lparr>cards = audio_card_list demo_bits, card_list = [Some 1, Some 6, Some 6, Some 6],
     mixers = [Some 0, None, None, None], audio_card_num = 1, mm_rate = 44100, usb_card_name = [], ad_mode = 0,
     in_device = 4, out_device = 8, in_call = False, tty_mode = TTY_MODE_OFF, active_input = False, stale_input = False, in_source = 0,
     mix_log = []\<rparr>"

lemma demo_board_wm8962: "wm8962_board demo_board"
  by (simp add: wm8962_board_def demo_board_def audio_card_list_def wm8962_card_def)

lemma demo_ctl_inj: "inj_on demo_ctl (ctl_name ` set speaker_output_wm8962)"
  by (simp add: demo_ctl_def demo_names_def wm8962_tables by_value_def by_text_def inj_on_def)

theorem headphones_follow_speaker_witness:
  "\<exists>ad'. select_output_device demo_mixers demo_bits demo_board = Some ad' \<and>
          last_value (mix_log ad') 0 (demo_ctl ''Headphone Switch'') 1 = Some 0 \<and>
          last_text (mix_log ad') 0 (demo_ctl ''HPOUTL PGA'') = Some ''Off''"
  using headphones_follow_speaker [OF demo_board_wm8962 _ demo_ctl_inj, of demo_bits demo_mixers 1]
  by (simp add: demo_board_def demo_bits_def demo_mixers_def demo_names_def)

end
