(* ===== verification/Alsa_Capture.thy ===== *)
theory Alsa_Capture
  imports Alsa_Select
begin

text \<open>
  The state of the ALSA audio HAL and its recording side (src/alsa/tinyalsa_hal.c): standby and start of the
  capture stream, the reference for echo cancellation, the buffers between the driver, the resampler
  and the preprocessing effects, and \<open>in_read\<close>. A capture stream is read as samples. Overrunning a
  buffer and following NULL have the result \<open>None\<close>. One capture stream is modelled; the HAL itself
  keeps one active.
\<close>

section \<open>State\<close>

text \<open>A PCM of a playback stream is NULL or an open one of a card; a capture stream can also hold a pointer
  to a closed one. A playback stream has one PCM of each kind and a resampler for it; only the one of
  \<open>PCM_NORMAL\<close> can be lost (\<open>o_resampled\<close>). \<open>o_buffer\<close> has the samples that resampling has left.\<close>

datatype pcm_ref = NoPcm | OpenPcm int | ClosedPcm

record stream_out =
  o_normal :: "int option"
  o_hdmi :: "int option"
  o_esai :: "int option"
  o_rate_normal :: nat
  o_rate_hdmi :: nat
  o_rate_esai :: nat
  o_channels :: nat
  o_mask :: u32
  o_resampled :: bool
  o_buffer :: "int list"
  o_standby :: bool
  o_device :: u32
  o_echo :: "nat option"
  o_written :: nat
  o_masks :: "u32 list"
  o_rates :: "int list"

text \<open>An effect is known by a number; \<open>ef_configs\<close> are its pairs of main and auxiliary channels.\<close>

record effect =
  ef_handle :: nat
  ef_configs :: "(u32 \<times> u32) list"

text \<open>
  \<open>tmp_alloc\<close> is the number of bytes that the temporary buffer really has, \<open>tmp_size\<close> the field of
  the source; \<open>proc_buf\<close> has the samples that the effects have not consumed, \<open>ref_buf\<close> those of the echo
  reference (\<open>ref_frames_in\<close> frames of the array of \<open>ref_buf_size\<close>); \<open>ref_log\<close> is what was done with the
  reference: a push of frames begun, samples read, samples given to an effect, the delay it was told, and the samples
  taken out of the array at the end of a push.
\<close>

datatype ref_event = RefPush nat | RefRead "int list" | Reverse nat "int list" | EchoDelay nat int | RefUsed "int list"

record stream_in =
  i_pcm :: pcm_ref
  i_device :: u32
  i_rate :: nat
  i_channels :: nat
  i_format :: int
  i_resampler :: bool
  read_buf :: "int list"
  read_buf_frames :: nat
  tmp_size :: nat
  tmp_alloc :: nat
  requested_rate :: nat
  requested_channel :: nat
  i_standby :: bool
  i_echo :: "nat option"
  need_echo :: bool
  effects :: "effect list"
  main_channels :: u32
  aux_channels :: u32
  proc_buf :: "int list"
  read_status :: int
  mute_500ms :: nat
  last_xrun :: int
  i_reads :: nat
  ref_buf :: "int list"
  ref_buf_size :: nat
  ref_log :: "ref_event list"

text \<open>A command to an effect: its configuration, the auxiliary channels, the start, the reverse stream.\<close>

datatype fx_cmd = GetConfig | SetConfig u32 | SetAux "u32 \<times> u32" | Enable | SetReverse u32

text \<open>
  What was done with PCMs and the echo reference: a PCM opened (and whether it is ready), closed, written; the
  reference written (with the delay of the frames), told that writing or reading has ended, freed.
\<close>

datatype pcm_op =
    PcmOpen int bool
  | PcmClose int
  | PcmWrite int "int list"
  | EchoData nat int
  | EchoWrite nat
  | EchoRead nat
  | EchoFree nat

record Alsa = Routing +
  mic_mute :: bool
  low_power :: bool
  default_rate :: nat
  device_is_auto :: bool
  prim_out :: "stream_out option"
  hdmi_out :: "stream_out option"
  esai_out :: "stream_out option"
  in_stream :: stream_in
  in_card_idx :: nat
  echo_ref :: "nat option"
  echo_count :: nat
  pcm_log :: "pcm_op list"
  pcm_writes :: nat
  fx_log :: "(nat \<times> fx_cmd) list"

text \<open>
  The parameter: the bits, the mixers, the cards of the system; whether a PCM of a card is ready, the result of making
  a resampler, whether an echo reference can be made; the result and the samples of the k-th read of a number of
  samples, whether the state after it allows to prepare the PCM again, and the result of that; what the capture
  resampler asks for and makes of it; the two results of a command to an effect, the reply
  about the channel configurations it supports (the result of the command, a status, the configurations), whether
  it has a function for the reverse stream, its descriptor (a status, and whether it cancels echo), what the
  effects consume and produce; the measured S/PDIF rate; the milliseconds lost; the result of the k-th write,
  whether the state after it allows to prepare the PCM again, and the result of that; what the playback resampler
  makes of its input, the size of the driver's buffer and its free space; the values of the two HDMI
  controls; the frames in the driver's buffer after the k-th read, the delay of the resampler, what a read of a number
  of frames from an echo reference gives (a status, samples and the delay), how many frames of the reference an effect
  consumes.
\<close>

record Os =
  os_bits :: Bits
  os_mixers :: Mixers
  os_sys :: Sys
  os_ready :: "pcm_op list \<Rightarrow> int \<Rightarrow> bool"
  os_resampler :: int
  os_echo :: "nat \<Rightarrow> bool"
  os_read :: "nat \<Rightarrow> nat \<Rightarrow> int \<times> int list"
  os_recover :: "nat \<Rightarrow> bool"
  os_prepare :: "nat \<Rightarrow> int"
  os_requests :: "nat \<Rightarrow> stream_in \<Rightarrow> nat list"
  os_convert :: "nat \<Rightarrow> int list \<Rightarrow> int list"
  os_command :: "(nat \<times> fx_cmd) list \<Rightarrow> nat \<Rightarrow> fx_cmd \<Rightarrow> int \<times> int"
  os_features :: "nat \<Rightarrow> int \<times> int \<times> (u32 \<times> u32) list"
  os_reverse :: "nat \<Rightarrow> bool"
  os_descriptor :: "nat \<Rightarrow> int \<times> bool"
  os_process :: "effect list \<Rightarrow> int list \<Rightarrow> nat \<Rightarrow> nat \<times> int list"
  os_spdif :: "nat option"
  os_xrun :: "nat \<Rightarrow> int"
  os_write :: "nat \<Rightarrow> int list \<Rightarrow> int"
  os_recover_out :: "nat \<Rightarrow> bool"
  os_prepare_out :: "nat \<Rightarrow> int"
  os_resample :: "int list \<Rightarrow> int list"
  os_buffer :: nat
  os_avail :: "nat option"
  os_hdmi :: "int list option \<times> int list option"
  os_htimestamp :: "nat \<Rightarrow> nat option"
  os_rsmp_delay :: int
  os_echo_read :: "nat \<Rightarrow> nat \<Rightarrow> nat \<Rightarrow> int \<Rightarrow> int \<times> int list \<times> int"
  os_reverse_used :: "nat \<Rightarrow> int list \<Rightarrow> nat \<Rightarrow> nat"

definition did :: "pcm_op \<Rightarrow> 'a Alsa_scheme \<Rightarrow> 'a Alsa_scheme" where
  "did x ad = ad\<lparr>pcm_log := pcm_log ad @ [x]\<rparr>"

section \<open>The echo reference\<close>

definition prim_running :: "'a Alsa_scheme \<Rightarrow> bool" where
  "prim_running ad = (case prim_out ad of None \<Rightarrow> False | Some p \<Rightarrow> \<not> o_standby p)"

definition set_prim :: "(stream_out \<Rightarrow> stream_out) \<Rightarrow> 'a Alsa_scheme \<Rightarrow> 'a Alsa_scheme" where
  "set_prim f ad = ad\<lparr>prim_out := map_option f (prim_out ad)\<rparr>"

definition remove_echo_reference :: "nat \<Rightarrow> 'a Alsa_scheme \<Rightarrow> 'a Alsa_scheme" where
  "remove_echo_reference e ad =
     (case prim_out ad of
        None \<Rightarrow> ad
      | Some p \<Rightarrow> if o_echo p = Some e then set_prim (\<lambda>p. p\<lparr>o_echo := None\<rparr>) (did (EchoWrite e) ad) else ad)"

definition put_echo_reference :: "nat option \<Rightarrow> 'a Alsa_scheme \<Rightarrow> 'a Alsa_scheme" where
  "put_echo_reference r ad =
     (case echo_ref ad of
        None \<Rightarrow> ad
      | Some e \<Rightarrow>
          if r = Some e
          then (did (EchoFree e) (if prim_running ad then remove_echo_reference e ad else ad))\<lparr>echo_ref := None\<rparr>
          else ad)"

definition get_echo_reference :: "Os \<Rightarrow> 'a Alsa_scheme \<Rightarrow> nat option \<times> 'a Alsa_scheme" where
  "get_echo_reference w ad =
     (let ad1 = put_echo_reference (echo_ref ad) ad;
          ad2 = (if prim_running ad1 then
                   (if os_echo w (echo_count ad1)
                    then set_prim (\<lambda>p. p\<lparr>o_echo := Some (echo_count ad1)\<rparr>)
                           (ad1\<lparr>echo_ref := Some (echo_count ad1), echo_count := Suc (echo_count ad1)\<rparr>)
                    else ad1)
                 else ad1)
      in (echo_ref ad2, ad2))"

section \<open>Standby and start\<close>

definition set_in :: "(stream_in \<Rightarrow> stream_in) \<Rightarrow> 'a Alsa_scheme \<Rightarrow> 'a Alsa_scheme" where
  "set_in f ad = ad\<lparr>in_stream := f (in_stream ad)\<rparr>"

definition close_in :: "'a Alsa_scheme \<Rightarrow> 'a Alsa_scheme" where
  "close_in ad = (case i_pcm (in_stream ad) of OpenPcm c \<Rightarrow> did (PcmClose c) ad | _ \<Rightarrow> ad)"

definition drop_in_echo :: "'a Alsa_scheme \<Rightarrow> 'a Alsa_scheme" where
  "drop_in_echo ad =
     (case i_echo (in_stream ad) of
        None \<Rightarrow> ad
      | Some e \<Rightarrow> set_in (\<lambda>s. s\<lparr>i_echo := None\<rparr>) (put_echo_reference (Some e) (did (EchoRead e) ad)))"

definition do_input_standby :: "Os \<Rightarrow> 'a Alsa_scheme \<Rightarrow> 'a Alsa_scheme option" where
  "do_input_standby w ad =
     (if i_standby (in_stream ad) then Some ad
      else
        (let ad1 = (set_in (\<lambda>s. s\<lparr>i_pcm := NoPcm, last_xrun := 0\<rparr>) (close_in ad))\<lparr>active_input := False\<rparr>
         in case (if ad_mode ad1 \<noteq> mode_in_call (os_bits w)
                  then select_input_device (os_mixers w) (os_bits w) (ad1\<lparr>in_device := 0\<rparr>) else Some ad1) of
              None \<Rightarrow> None
            | Some ad2 \<Rightarrow> Some (set_in (\<lambda>s. s\<lparr>i_standby := True\<rparr>) (drop_in_echo ad2))))"

text \<open>The first card of the list that records from the device; its place.\<close>

fun in_card :: "audio_card list \<Rightarrow> u32 \<Rightarrow> nat \<Rightarrow> nat option list \<Rightarrow> (nat \<times> audio_card) option option" where
  "in_card cs d i [] = Some None"
| "in_card cs d i (None # ps) = None"
| "in_card cs d i (Some p # ps) =
     (if d AND supported_in (cs ! p) \<noteq> 0 then Some (Some (i, cs ! p)) else in_card cs d (Suc i) ps)"

text \<open>The configuration of the PCM: \<open>pcm_config_mm_in\<close>, with rate and channels of a USB card and the format
  of a digital one. An error has no configuration.\<close>

definition in_config :: "Os \<Rightarrow> 'a Alsa_scheme \<Rightarrow> ((nat \<times> nat \<times> int) option) option" where
  "in_config w ad =
     (let b = os_bits w; d = i_device (in_stream ad) in
      if d AND in_usb_device b \<noteq> 0 \<or> d AND in_dgtl_dock b \<noteq> 0 then
        (case adev_get_channels_for_device False d ad of
           None \<Rightarrow> None
         | Some ch \<Rightarrow>
             if ch \<noteq> 1 \<and> ch \<noteq> 2 then Some None
             else
               (case adev_get_rate_for_device False d ad of
                  None \<Rightarrow> None
                | Some r \<Rightarrow> Some (if r = 0 then None else Some (r, nat ch, format_s16 b))))
      else if d AND in_digital b \<noteq> 0 then
        map_option (\<lambda>f. Some (default_rate ad, 2, f)) (adev_get_format_for_device False d ad)
      else Some (Some (default_rate ad, 2, format_s16 b)))"

text \<open>
  The rate of \<open>pcm_config_mm_in\<close> is set when the HAL is opened and is \<open>default_rate\<close>. A resampler of an
  earlier start is released, but the pointer is kept: when none is made in its place, the reset that follows
  uses the released one.
\<close>

definition renew_resampler :: "Os \<Rightarrow> nat \<Rightarrow> stream_in \<Rightarrow> stream_in option" where
  "renew_resampler w r s =
     (if requested_rate s \<noteq> r then Some (s\<lparr>i_resampler := (os_resampler w = 0)\<rparr>)
      else if i_resampler s then None else Some s)"

definition open_input :: "Os \<Rightarrow> int \<Rightarrow> nat \<times> nat \<times> int \<Rightarrow> 'a Alsa_scheme \<Rightarrow> (int \<times> 'a Alsa_scheme) option" where
  "open_input w c cfg ad =
     (case cfg of
        (r, ch, f) \<Rightarrow>
          (let ad1 = set_in (\<lambda>s. s\<lparr>i_rate := r, i_channels := ch, i_format := f\<rparr>) ad;
               ad2 = (if need_echo (in_stream ad1) \<and> i_echo (in_stream ad1) = None
                      then (case get_echo_reference w ad1 of (e, ad') \<Rightarrow> set_in (\<lambda>s. s\<lparr>i_echo := e\<rparr>) ad') else ad1);
               ok = os_ready w (pcm_log ad2) c;
               ad3 = did (PcmOpen c ok) ad2
           in if \<not> ok then Some (- ENOMEM, (set_in (\<lambda>s. s\<lparr>i_pcm := ClosedPcm\<rparr>) (did (PcmClose c) ad3))\<lparr>active_input := False\<rparr>)
              else
                (case renew_resampler w r (in_stream ad3) of
                   None \<Rightarrow> None
                 | Some s \<Rightarrow> Some (0, ad3\<lparr>in_stream := s\<lparr>i_pcm := OpenPcm c, read_buf_frames := 0, proc_buf := []\<rparr>\<rparr>))))"

text \<open>The card that records from the device is opened.\<close>

definition start_on_card :: "Os \<Rightarrow> 'a Alsa_scheme \<Rightarrow> (int \<times> 'a Alsa_scheme) option" where
  "start_on_card w ad =
     (case in_card (cards ad) (in_device ad) 0 (card_list ad) of
        None \<Rightarrow> None
      | Some None \<Rightarrow> Some (- EINVAL, ad)
      | Some (Some (i, c)) \<Rightarrow>
          (case in_config w ad of
             None \<Rightarrow> None
           | Some None \<Rightarrow> Some (- EINVAL, ad\<lparr>in_card_idx := i\<rparr>)
           | Some (Some cfg) \<Rightarrow> open_input w (card_no c) cfg (ad\<lparr>in_card_idx := i\<rparr>)))"

definition start_input_stream :: "Os \<Rightarrow> 'a Alsa_scheme \<Rightarrow> (int \<times> 'a Alsa_scheme) option" where
  "start_input_stream w ad =
     (let e = cavan_check_audio_mode (os_bits w) ad in
      if e < 0 then Some (e, ad)
      else
        (let ad1 = ad\<lparr>active_input := True, stale_input := False\<rparr> in
         case (if ad_mode ad1 \<noteq> mode_in_call (os_bits w)
               then select_input_device (os_mixers w) (os_bits w) (ad1\<lparr>in_device := i_device (in_stream ad1)\<rparr>) else Some ad1) of
           None \<Rightarrow> None
         | Some ad2 \<Rightarrow> start_on_card w ad2))"

section \<open>Reading\<close>

text \<open>A failed read is repeated once when the PCM stopped or ran over and can be prepared again.\<close>

definition pcm_read_wrapper :: "Os \<Rightarrow> nat \<Rightarrow> nat \<Rightarrow> int \<times> int list \<times> nat" where
  "pcm_read_wrapper w n k =
     (case os_read w k n of
        (r, xs) \<Rightarrow>
          if r = 0 then (0, xs, Suc k)
          else if os_recover w k then
            (if os_prepare w k \<noteq> 0 then (os_prepare w k, [], Suc k)
             else (case os_read w (Suc k) n of (r2, ys) \<Rightarrow> (r2, ys, Suc (Suc k))))
          else (r, [], Suc k))"

text \<open>
  \<open>n\<close> frames for the stream. The temporary buffer is made once, as large as the first request that
  needs it; a larger one later runs over it.
\<close>

definition pcm_read_convert :: "Os \<Rightarrow> nat \<Rightarrow> stream_in \<Rightarrow> (int \<times> int list \<times> stream_in) option" where
  "pcm_read_convert w n s =
     (let b24 = (i_format s = format_s24 (os_bits w));
          s2m = (i_channels s = 2 \<and> requested_channel s = 1);
          m2s = (i_channels s = 1 \<and> requested_channel s = 2);
          bytes = n * i_channels s * (if b24 then 4 else 2)
      in if b24 \<or> m2s \<or> s2m then
           (let s1 = (if tmp_size s < CAPTURE_PERIOD_SIZE then s\<lparr>tmp_size := CAPTURE_PERIOD_SIZE, tmp_alloc := bytes\<rparr> else s)
            in if tmp_alloc s1 < bytes then None
               else
                 (case pcm_read_wrapper w (n * i_channels s) (i_reads s) of
                    (r, xs, k) \<Rightarrow>
                      (let s2 = s1\<lparr>read_status := r, i_reads := k\<rparr> in
                       if r \<noteq> 0 then Some (r, [], s2)
                       else
                         (case convert_record_data n b24 m2s s2m xs of
                            None \<Rightarrow> None
                          | Some ys \<Rightarrow> Some (0, ys, s2)))))
         else
           (case pcm_read_wrapper w (n * i_channels s) (i_reads s) of
              (r, xs, k) \<Rightarrow> Some (r, xs, s\<lparr>read_status := r, i_reads := k\<rparr>)))"

definition ENODEV :: int where "ENODEV = 19"

text \<open>The frames handed out, at most \<open>want\<close>; they are samples of the requested channels.\<close>

definition get_next_buffer :: "Os \<Rightarrow> nat \<Rightarrow> stream_in \<Rightarrow> (int \<times> int list \<times> stream_in) option" where
  "get_next_buffer w want s =
     (let p = CAPTURE_PERIOD_SIZE; ch = requested_channel s in
      if i_pcm s = NoPcm then Some (- ENODEV, [], s\<lparr>read_status := - ENODEV\<rparr>)
      else if read_buf_frames s = 0 then
        (case pcm_read_convert w p s of
           None \<Rightarrow> None
         | Some (r, xs, s1) \<Rightarrow>
             if r \<noteq> 0 then Some (r, [], s1)
             else Some (r, take (min want p * ch) xs, s1\<lparr>read_buf := xs, read_buf_frames := p\<rparr>))
      else Some (read_status s, take (min want (read_buf_frames s) * ch) (drop ((p - read_buf_frames s) * ch) (read_buf s)), s))"

definition release_buffer :: "nat \<Rightarrow> stream_in \<Rightarrow> stream_in" where
  "release_buffer n s = s\<lparr>read_buf_frames := read_buf_frames s - n\<rparr>"

definition pull :: "Os \<Rightarrow> nat \<Rightarrow> stream_in \<Rightarrow> (int list \<times> stream_in) option" where
  "pull w want s =
     (case get_next_buffer w want s of
        None \<Rightarrow> None
      | Some (r, xs, s1) \<Rightarrow> Some (xs, release_buffer (length xs div requested_channel s) s1))"

fun pulls :: "Os \<Rightarrow> nat list \<Rightarrow> stream_in \<Rightarrow> (int list \<times> stream_in) option" where
  "pulls w [] s = Some ([], s)"
| "pulls w (n # ns) s =
     (case pull w n s of
        None \<Rightarrow> None
      | Some (xs, s1) \<Rightarrow> (case pulls w ns s1 of None \<Rightarrow> None | Some (ys, s2) \<Rightarrow> Some (xs @ ys, s2)))"

definition resample_from_provider :: "Os \<Rightarrow> nat \<Rightarrow> stream_in \<Rightarrow> (int list \<times> stream_in) option" where
  "resample_from_provider w n s = map_option (\<lambda>(xs, s1). (os_convert w n xs, s1)) (pulls w (os_requests w n s) s)"

partial_function (option) read_frames :: "Os \<Rightarrow> nat \<Rightarrow> int list \<Rightarrow> stream_in \<Rightarrow> (int \<times> int list \<times> stream_in) option" where
  "read_frames w n acc s =
     (if length acc div requested_channel s < n then
        (case (let m = n - length acc div requested_channel s in
               if i_resampler s then resample_from_provider w m s else pull w m s) of
           None \<Rightarrow> None
         | Some (xs, s1) \<Rightarrow>
             if read_status s1 \<noteq> 0 then Some (read_status s1, acc, s1) else read_frames w n (acc @ xs) s1)
      else Some (int n, acc, s))"

text \<open>
  The delay of the first sample of \<open>proc_buf\<close>, in nanoseconds: what waits in the driver, in the buffers and in the
  resampler. A \<open>long\<close> has 32 bits; the rates of a running stream are not 0.
\<close>

definition frames_ns :: "nat \<Rightarrow> nat \<Rightarrow> int" where
  "frames_ns n r = int n * 1000000000 div int r"

definition get_capture_delay :: "Os \<Rightarrow> stream_in \<Rightarrow> int" where
  "get_capture_delay w s =
     (case os_htimestamp w (i_reads s) of
        None \<Rightarrow> 0
      | Some kernel_frames \<Rightarrow>
          (let buf_delay = wrap32 (frames_ns (read_buf_frames s) (i_rate s) +
                             frames_ns (length (proc_buf s) div requested_channel s) (requested_rate s));
               rsmp_delay = (if i_resampler s then os_rsmp_delay w else 0);
               kernel_delay = wrap32 (frames_ns kernel_frames (i_rate s))
           in wrap32 (kernel_delay + buf_delay + rsmp_delay)))"

text \<open>The frames of the reference that are missing are read; more than the buffer takes is a write past its end.\<close>

definition update_echo_reference :: "Os \<Rightarrow> nat \<Rightarrow> nat \<Rightarrow> stream_in \<Rightarrow> (int \<times> stream_in) option" where
  "update_echo_reference w e frames s =
     (let ch = requested_channel s; ref_frames_in = length (ref_buf s) div ch in
      if ref_frames_in < frames then
        (let s1 = (if ref_buf_size s < frames then s\<lparr>ref_buf_size := frames\<rparr> else s) in
         case os_echo_read w (length (ref_log s)) e (frames - ref_frames_in) (get_capture_delay w s1) of
           (r, xs, d) \<Rightarrow>
             if ref_buf_size s1 * ch < length (ref_buf s) + length xs then None
             else Some (d, if r = 0 then s1\<lparr>ref_buf := ref_buf s @ xs, ref_log := ref_log s @ [RefRead xs]\<rparr>
                           else s1\<lparr>ref_log := ref_log s @ [RefRead []]\<rparr>))
      else Some (0, s))"

text \<open>Every effect with a function for the reverse stream gets the frames, may consume fewer of them, and is told
  the delay. The result is the number of frames at the end.\<close>

fun push_reverse :: "Os \<Rightarrow> nat \<Rightarrow> int list \<Rightarrow> int \<Rightarrow> effect list \<Rightarrow> nat \<Rightarrow> nat \<times> ref_event list" where
  "push_reverse w ch buf d [] n = (n, [])"
| "push_reverse w ch buf d (f # fs) n =
     (if os_reverse w (ef_handle f) then
        (case push_reverse w ch buf d fs (os_reverse_used w (ef_handle f) (take (n * ch) buf) n) of
           (m, l) \<Rightarrow> (m, [Reverse (ef_handle f) (take (n * ch) buf), EchoDelay (ef_handle f) d] @ l))
      else push_reverse w ch buf d fs n)"

definition push_echo_reference :: "Os \<Rightarrow> nat \<Rightarrow> nat \<Rightarrow> stream_in \<Rightarrow> stream_in option" where
  "push_echo_reference w e frames s =
     (case update_echo_reference w e frames (s\<lparr>ref_log := ref_log s @ [RefPush frames]\<rparr>) of
        None \<Rightarrow> None
      | Some (delay_ns, s1) \<Rightarrow>
          (let ch = requested_channel s1; ref_frames_in = length (ref_buf s1) div ch;
               delay_us = (if delay_ns < 0 then - (- delay_ns div 1000) else delay_ns div 1000);
               n = (if ref_frames_in < frames then ref_frames_in else frames)
           in case push_reverse w ch (ref_buf s1) delay_us (effects s1) n of
                (m, l) \<Rightarrow>
                  if ref_frames_in < m then None
                  else Some (s1\<lparr>ref_buf := drop (m * ch) (ref_buf s1), ref_log := ref_log s1 @ l @ [RefUsed (take (m * ch) (ref_buf s1))]\<rparr>)))"

definition push_reference :: "Os \<Rightarrow> stream_in \<Rightarrow> stream_in option" where
  "push_reference w s =
     (case i_echo s of
        None \<Rightarrow> Some s
      | Some e \<Rightarrow> push_echo_reference w e (length (proc_buf s) div requested_channel s) s)"

text \<open>First \<open>proc_buf\<close> is filled up to \<open>n\<close> frames.\<close>

definition fill_proc :: "Os \<Rightarrow> nat \<Rightarrow> stream_in \<Rightarrow> (int \<times> stream_in) option" where
  "fill_proc w n s =
     (let ch = requested_channel s in
      if length (proc_buf s) div ch < n
      then (case read_frames w (n - length (proc_buf s) div ch) [] s of
              None \<Rightarrow> None
            | Some (r, xs, s1) \<Rightarrow> Some (r, if r < 0 then s1 else s1\<lparr>proc_buf := proc_buf s @ xs\<rparr>))
      else Some (0, s))"

text \<open>
  The effects consume samples of \<open>proc_buf\<close> and produce frames until there are enough. An effect that
  produces too many is cut.
\<close>

partial_function (option) process_loop :: "Os \<Rightarrow> nat \<Rightarrow> int list \<Rightarrow> stream_in \<Rightarrow> (int \<times> int list \<times> stream_in) option" where
  "process_loop w n acc s =
     (let ch = requested_channel s in
      if length acc div ch < n then
        (case fill_proc w n s of
           None \<Rightarrow> None
         | Some (r, s1) \<Rightarrow>
             if r < 0 then Some (r, acc, s1)
             else
               (case push_reference w s1 of
                  None \<Rightarrow> None
                | Some s2 \<Rightarrow>
                    (case os_process w (effects s2) (proc_buf s2) (n - length acc div ch) of
                       (used, ys) \<Rightarrow>
                         (let s3 = s2\<lparr>proc_buf := drop (used * ch) (proc_buf s2)\<rparr>
                          in process_loop w n (take (n * ch) (acc @ ys)) s3))))
      else Some (int n, acc, s))"

declare read_frames.simps [code] process_loop.simps [code]

text \<open>Auxiliary channels are taken out of the result again: of every group of \<open>config.channels\<close>
  samples the first are kept.\<close>

definition process_frames :: "Os \<Rightarrow> nat \<Rightarrow> stream_in \<Rightarrow> (int \<times> int list \<times> stream_in) option" where
  "process_frames w n s =
     (case process_loop w n [] s of
        None \<Rightarrow> None
      | Some (r, xs, s1) \<Rightarrow>
          if r < 0 \<or> NOT (main_channels s) AND aux_channels s = 0 then Some (r, xs, s1)
          else
            (let dst = popcount (main_channels s); src = i_channels s1; frames = length xs div requested_channel s in
             if length xs < frames * src then None
             else Some (r, concat (map (\<lambda>i. take dst (drop (i * src) xs)) [0..<frames]), s1)))"

text \<open>A new rate of the S/PDIF input is taken over while the stream runs.\<close>

definition spdif_in_rate_check :: "Os \<Rightarrow> 'a Alsa_scheme \<Rightarrow> 'a Alsa_scheme option" where
  "spdif_in_rate_check w ad =
     (case card_list ad ! in_card_idx ad of
        None \<Rightarrow> None
      | Some p \<Rightarrow>
          if driver_name (cards ad ! p) = ''imx-spdif'' then
            (let r = spdif_rate (case os_spdif w of None \<Rightarrow> 0 | Some v \<Rightarrow> v) in
             if 0 < r \<and> r \<noteq> i_rate (in_stream ad)
             then map_option (\<lambda>s. ad\<lparr>in_stream := s\<lparr>i_rate := r\<rparr>\<rparr>) (renew_resampler w r (in_stream ad))
             else Some ad)
          else Some ad)"

text \<open>The half second that is muted is counted in bytes; a sample whose first byte is muted alone keeps
  its high byte.\<close>

definition muted :: "nat \<Rightarrow> int list \<Rightarrow> int list" where
  "muted m xs = map (\<lambda>i. if 2 * i + 2 \<le> m then 0 else if 2 * i < m then xs ! i div 256 * 256 else xs ! i) [0..<length xs]"

definition in_ready :: "Os \<Rightarrow> 'a Alsa_scheme \<Rightarrow> (int \<times> 'a Alsa_scheme) option" where
  "in_ready w ad =
     (if i_standby (in_stream ad) then
        (case start_input_stream w ad of
           None \<Rightarrow> None
         | Some (r, ad1) \<Rightarrow>
             if r = 0
             then Some (0, set_in (\<lambda>s. s\<lparr>i_standby := False, mute_500ms := requested_rate s * (2 * requested_channel s) div 2\<rparr>) ad1)
             else Some (r, ad1))
      else Some (0, ad))"

definition capture :: "Os \<Rightarrow> nat \<Rightarrow> stream_in \<Rightarrow> (int \<times> int list \<times> stream_in) option" where
  "capture w n s =
     (if effects s \<noteq> [] then process_frames w n s
      else if i_resampler s then read_frames w n [] s
      else pcm_read_convert w n s)"

text \<open>
  A read of \<open>n\<close> frames up to the mute at its end: whether it ends at once because the start failed, and the samples in the
  caller's buffer. They are zero when the start or the driver failed and when the microphone is muted.
\<close>

definition in_fill :: "Os \<Rightarrow> nat \<Rightarrow> 'a Alsa_scheme \<Rightarrow> (bool \<times> int list \<times> 'a Alsa_scheme) option" where
  "in_fill w n ad =
     (let zeros = replicate (n * requested_channel (in_stream ad)) 0 in
      case in_ready w ad of
        None \<Rightarrow> None
      | Some (r, ad1) \<Rightarrow>
          if r < 0 then Some (True, zeros, ad1)
          else
            (case spdif_in_rate_check w ad1 of
               None \<Rightarrow> None
             | Some ad2 \<Rightarrow>
                 (case capture w n (in_stream ad2) of
                    None \<Rightarrow> None
                  | Some (q, xs, s) \<Rightarrow>
                      Some (False, if q < 0 \<or> mic_mute ad2 then zeros else xs, ad2\<lparr>in_stream := s\<rparr>))))"

text \<open>The samples that a read of \<open>n\<close> frames leaves in the caller's buffer.\<close>

definition in_read :: "Os \<Rightarrow> nat \<Rightarrow> 'a Alsa_scheme \<Rightarrow> (int list \<times> 'a Alsa_scheme) option" where
  "in_read w n ad =
     (case in_fill w n ad of
        None \<Rightarrow> None
      | Some (failed, xs, ad1) \<Rightarrow>
          if failed then Some (xs, ad1)
          else
            (let m = mute_500ms (in_stream ad1); bytes = 2 * (n * requested_channel (in_stream ad)) in
             Some (muted m xs, set_in (\<lambda>s. s\<lparr>mute_500ms := m - bytes\<rparr>) ad1)))"

text \<open>The frames lost since the last question; the difference of two times in milliseconds.\<close>

definition in_get_input_frames_lost :: "Os \<Rightarrow> stream_in \<Rightarrow> (u32 \<times> stream_in) option" where
  "in_get_input_frames_lost w s =
     (case i_pcm s of
        NoPcm \<Rightarrow> Some (0, s)
      | ClosedPcm \<Rightarrow> None
      | OpenPcm c \<Rightarrow>
          (let t = os_xrun w (i_reads s) in
           Some (word_of_int (t - last_xrun s) * of_nat (requested_rate s) div 1000, s\<lparr>last_xrun := t\<rparr>)))"

definition adev_set_mic_mute :: "bool \<Rightarrow> 'a Alsa_scheme \<Rightarrow> 'a Alsa_scheme" where
  "adev_set_mic_mute x ad = ad\<lparr>mic_mute := x\<rparr>"

text \<open>A new stream; unacceptable parameters are refused.\<close>

definition adev_open_input_stream ::
  "Os \<Rightarrow> u32 \<Rightarrow> nat \<Rightarrow> bool \<Rightarrow> u32 \<Rightarrow> 'a Alsa_scheme \<Rightarrow> (int \<times> 'a Alsa_scheme) option" where
  "adev_open_input_stream w devices r pcm16 chm ad =
     (if check_input_parameters r pcm16 (int (popcount chm)) \<noteq> 0 then Some (- EINVAL, ad)
      else
        (let d = devices AND NOT (bit_in (os_bits w));
             s = \<lparr>i_pcm = NoPcm, i_device = d, i_rate = default_rate ad, i_channels = 2, i_format = format_s16 (os_bits w),
                  i_resampler = False, read_buf = [], read_buf_frames = 0, tmp_size = 0, tmp_alloc = 0, requested_rate = r,
                  requested_channel = popcount chm, i_standby = True, i_echo = None, need_echo = False, effects = [],
                  main_channels = chm, aux_channels = 0, proc_buf = [], read_status = 0, mute_500ms = 0, last_xrun = 0,
                  i_reads = i_reads (in_stream ad), ref_buf = [], ref_buf_size = 0, ref_log = []\<rparr>;
             ad1 = ad\<lparr>in_stream := s, in_source := 0\<rparr>
         in if d AND in_usb_device (os_bits w) \<noteq> 0
            then (case scan_available_device (os_bits w) (os_sys w) True ad1 of
                    None \<Rightarrow> None
                  | Some (r, ad2) \<Rightarrow> Some (0, ad2))
            else Some (0, ad1)))"

section \<open>What reading keeps\<close>

definition same_stream :: "stream_in \<Rightarrow> stream_in \<Rightarrow> bool" where
  "same_stream s t =
     (i_pcm t = i_pcm s \<and> i_standby t = i_standby s \<and> requested_rate t = requested_rate s \<and>
      requested_channel t = requested_channel s \<and> mute_500ms t = mute_500ms s \<and> effects t = effects s \<and>
      i_echo t = i_echo s \<and> need_echo t = need_echo s \<and> i_device t = i_device s \<and> main_channels t = main_channels s \<and>
      aux_channels t = aux_channels s)"

lemma alsa_same_stream_refl [simp]: "same_stream s s"
  by (simp add: same_stream_def)

lemma alsa_same_stream_trans: "same_stream s t \<Longrightarrow> same_stream t u \<Longrightarrow> same_stream s u"
  by (simp add: same_stream_def)

lemma pcm_read_same: "pcm_read_convert w n s = Some (r, xs, t) \<Longrightarrow> same_stream s t"
  by (auto simp: same_stream_def pcm_read_convert_def Let_def split: if_splits prod.splits option.splits)

lemma alsa_get_next_same: "get_next_buffer w n s = Some (r, xs, t) \<Longrightarrow> same_stream s t"
  by (auto simp: get_next_buffer_def Let_def same_stream_def dest!: pcm_read_same split: if_splits prod.splits option.splits)

lemma alsa_pull_same: "pull w n s = Some (xs, t) \<Longrightarrow> same_stream s t"
  by (auto simp: same_stream_def pull_def release_buffer_def dest!: alsa_get_next_same split: prod.splits option.splits)

text \<open>What every read of the driver, every change of \<open>proc_buf\<close> and every use of the reference keeps is kept by the
  loops over them.\<close>

locale kept_by_reading =
  fixes w :: Os and R :: "stream_in \<Rightarrow> stream_in \<Rightarrow> bool"
  assumes R_refl: "R s s"
    and R_trans: "R s t \<Longrightarrow> R t u \<Longrightarrow> R s u"
    and R_pull: "pull w n s = Some (xs, t) \<Longrightarrow> R s t"
    and R_proc: "R s (s\<lparr>proc_buf := b\<rparr>)"
    and R_push: "push_reference w s = Some t \<Longrightarrow> R s t"
begin

lemma pulls_kept: "pulls w ns s = Some (xs, t) \<Longrightarrow> R s t"
proof (induction ns arbitrary: s xs)
  case (Cons n ns)
  then obtain ys u zs where u: "pull w n s = Some (ys, u)" and z: "pulls w ns u = Some (zs, t)"
    by (auto split: option.splits prod.splits)
  from R_trans [OF R_pull [OF u] Cons.IH [OF z]] show ?case .
qed (simp add: R_refl)

lemma source_kept: "(if i_resampler s then resample_from_provider w m s else pull w m s) = Some (ys, t) \<Longrightarrow> R s t"
  by (auto simp: resample_from_provider_def dest: pulls_kept R_pull split: if_splits)

lemma read_frames_kept:
  assumes "read_frames w n acc s = Some r"
  shows "R s (snd (snd r))"
proof -
  have "v = w \<longrightarrow> R s (snd (snd r))" if "read_frames v n acc s = Some r" for v
  proof (rule read_frames.raw_induct [OF _ that, where P = "\<lambda>v n acc s r. v = w \<longrightarrow> R s (snd (snd r))"], rule impI)
    fix rf and v :: Os and n acc s r
    assume IH: "\<And>v n acc s r. rf v n acc s = Some r \<Longrightarrow> v = w \<longrightarrow> R s (snd (snd r))" and v: "v = w"
      and r: "(if length acc div requested_channel s < n then
          (case (let m = n - length acc div requested_channel s in
                 if i_resampler s then resample_from_provider v m s else pull v m s) of
             None \<Rightarrow> None
           | Some (xs, s1) \<Rightarrow>
               if read_status s1 \<noteq> 0 then Some (read_status s1, acc, s1) else rf v n (acc @ xs) s1)
        else Some (int n, acc, s)) = Some r"
    show "R s (snd (snd r))"
    proof (cases "length acc div requested_channel s < n")
      case True
      then obtain ys s1 where y: "(let m = n - length acc div requested_channel s in
                 if i_resampler s then resample_from_provider w m s else pull w m s) = Some (ys, s1)"
        using r v by (auto split: option.splits)
      then have s1: "R s s1" unfolding Let_def by (rule source_kept)
      have "rf w n (acc @ ys) s1 = Some r \<Longrightarrow> R s (snd (snd r))" using IH R_trans [OF s1] by blast
      then show ?thesis using r y True s1 v by (auto split: if_splits)
    qed (use r in \<open>auto simp: R_refl\<close>)
  qed
  then show ?thesis using assms by blast
qed

lemma fill_kept: "fill_proc w n s = Some (q, t) \<Longrightarrow> R s t"
  using read_frames_kept [of "n - length (proc_buf s) div requested_channel s" "[]" s] R_trans [OF _ R_proc]
  by (fastforce simp: fill_proc_def Let_def R_refl split: if_splits option.splits prod.splits)

lemma process_loop_kept:
  assumes "process_loop w n acc s = Some r"
  shows "R s (snd (snd r))"
proof -
  have "v = w \<longrightarrow> R s (snd (snd r))" if "process_loop v n acc s = Some r" for v
  proof (rule process_loop.raw_induct [OF _ that, where P = "\<lambda>v n acc s r. v = w \<longrightarrow> R s (snd (snd r))"], rule impI)
    fix rf and v :: Os and n acc s r
    assume IH: "\<And>v n acc s r. rf v n acc s = Some r \<Longrightarrow> v = w \<longrightarrow> R s (snd (snd r))" and v: "v = w"
      and r: "(let ch = requested_channel s in
        if length acc div ch < n then
          (case fill_proc v n s of
             None \<Rightarrow> None
           | Some (r, s1) \<Rightarrow>
               if r < 0 then Some (r, acc, s1)
               else
                 (case push_reference v s1 of
                    None \<Rightarrow> None
                  | Some s2 \<Rightarrow>
                      (case os_process v (effects s2) (proc_buf s2) (n - length acc div ch) of
                         (used, ys) \<Rightarrow>
                           (let s3 = s2\<lparr>proc_buf := drop (used * ch) (proc_buf s2)\<rparr>
                            in rf v n (take (n * ch) (acc @ ys)) s3))))
        else Some (int n, acc, s)) = Some r"
    show "R s (snd (snd r))"
    proof (cases "length acc div requested_channel s < n")
      case True
      then obtain q s1 where f: "fill_proc w n s = Some (q, s1)" using r v by (auto simp: Let_def split: option.splits)
      then have s1: "R s s1" by (rule fill_kept)
      show ?thesis
      proof (cases "q < 0")
        case False
        then obtain s2 where p: "push_reference w s1 = Some s2" using r f True v by (auto simp: Let_def split: option.splits)
        have "R s (s2\<lparr>proc_buf := b\<rparr>)" for b using R_trans [OF R_trans [OF s1 R_push [OF p]] R_proc] .
        then have "rf w n xs (s2\<lparr>proc_buf := b\<rparr>) = Some r \<Longrightarrow> R s (snd (snd r))" for xs b using IH R_trans by blast
        then show ?thesis using r f True v False p by (auto simp: Let_def split: prod.splits)
      qed (use r f True v s1 in \<open>auto simp: Let_def\<close>)
    qed (use r in \<open>auto simp: Let_def R_refl\<close>)
  qed
  then show ?thesis using assms by blast
qed

end

lemma push_reference_same: "push_reference w s = Some t \<Longrightarrow> same_stream s t"
  by (auto simp: push_reference_def push_echo_reference_def update_echo_reference_def same_stream_def Let_def
      split: option.splits prod.splits if_splits)

interpretation alsa_same: kept_by_reading w same_stream for w
  by unfold_locales (auto simp: alsa_pull_same push_reference_same intro: alsa_same_stream_trans, simp add: same_stream_def)

lemma alsa_capture_same: "capture w n s = Some (q, xs, t) \<Longrightarrow> same_stream s t"
  using alsa_same.read_frames_kept [of w n "[]" s "(q, xs, t)"]
  by (auto simp: capture_def process_frames_def Let_def dest!: alsa_same.process_loop_kept pcm_read_same
      split: if_splits option.splits)

section \<open>The first half second is silent\<close>

fun in_reads :: "Os \<Rightarrow> nat list \<Rightarrow> 'a Alsa_scheme \<Rightarrow> (int list list \<times> 'a Alsa_scheme) option" where
  "in_reads w [] ad = Some ([], ad)"
| "in_reads w (n # ns) ad =
     (case in_read w n ad of
        None \<Rightarrow> None
      | Some (xs, ad1) \<Rightarrow> (case in_reads w ns ad1 of None \<Rightarrow> None | Some (yss, ad2) \<Rightarrow> Some (xs # yss, ad2)))"

definition in_same :: "'a Alsa_scheme \<Rightarrow> 'a Alsa_scheme \<Rightarrow> bool" where
  "in_same ad ad' =
     (i_standby (in_stream ad') = i_standby (in_stream ad) \<and> requested_channel (in_stream ad') = requested_channel (in_stream ad))"

lemma spdif_same: "spdif_in_rate_check w ad = Some ad' \<Longrightarrow> same_stream (in_stream ad) (in_stream ad')"
  by (auto simp: spdif_in_rate_check_def renew_resampler_def same_stream_def Let_def split: option.splits if_splits)

lemma read_running:
  assumes "in_read w n ad = Some (xs, ad')" and "\<not> i_standby (in_stream ad)"
  shows "in_same ad ad'"
    "mute_500ms (in_stream ad') = mute_500ms (in_stream ad) - 2 * (n * requested_channel (in_stream ad))"
    "\<exists>ys ad1. in_fill w n ad = Some (False, ys, ad1) \<and> xs = muted (mute_500ms (in_stream ad)) ys"
proof -
  obtain ad2 q ys s where ad2: "spdif_in_rate_check w ad = Some ad2" and c: "capture w n (in_stream ad2) = Some (q, ys, s)"
    using assms by (auto simp: in_read_def in_fill_def in_ready_def Let_def split: option.splits prod.splits)
  have "same_stream (in_stream ad) s" using spdif_same [OF ad2] alsa_capture_same [OF c] alsa_same_stream_trans by blast
  then show "in_same ad ad'"
    "mute_500ms (in_stream ad') = mute_500ms (in_stream ad) - 2 * (n * requested_channel (in_stream ad))"
    "\<exists>ys ad1. in_fill w n ad = Some (False, ys, ad1) \<and> xs = muted (mute_500ms (in_stream ad)) ys"
    using assms ad2 c by (auto simp: in_read_def in_fill_def in_ready_def in_same_def same_stream_def set_in_def Let_def)
qed

text \<open>The samples of every read of a run before the mute.\<close>

fun in_raws :: "Os \<Rightarrow> nat list \<Rightarrow> 'a Alsa_scheme \<Rightarrow> int list list" where
  "in_raws w [] ad = []"
| "in_raws w (n # ns) ad =
     (case (in_fill w n ad, in_read w n ad) of
        (Some (failed, xs, ad1), Some (ys, ad2)) \<Rightarrow> xs # in_raws w ns ad2
      | _ \<Rightarrow> [])"

text \<open>A sample of which the first \<open>m\<close> bytes are muted.\<close>

definition muted_sample :: "nat \<Rightarrow> int \<Rightarrow> int" where
  "muted_sample m x = (if 2 \<le> m then 0 else if m = 1 then x div 256 * 256 else x)"

lemma muted_samples: "muted m xs = map (\<lambda>i. muted_sample (m - 2 * i) (xs ! i)) [0..<length xs]"
  by (auto simp: muted_def muted_sample_def)

lemma reads_running:
  assumes "in_reads w ns ad = Some (outs, ad')" and "\<not> i_standby (in_stream ad)"
  shows "mute_500ms (in_stream ad') = mute_500ms (in_stream ad) - 2 * requested_channel (in_stream ad) * sum_list ns \<and>
         length outs = length ns \<and> map length outs = map length (in_raws w ns ad) \<and>
         (\<forall>k < length ns. \<forall>i < length (outs ! k).
            outs ! k ! i = muted_sample (mute_500ms (in_stream ad) - 2 * (requested_channel (in_stream ad) * sum_list (take k ns) + i))
                             (in_raws w ns ad ! k ! i))"
  using assms
proof (induction ns arbitrary: ad outs)
  case (Cons n ns)
  let ?ch = "requested_channel (in_stream ad)"
  obtain xs ad1 yss where r: "in_read w n ad = Some (xs, ad1)" "in_reads w ns ad1 = Some (yss, ad')" "outs = xs # yss"
    using Cons.prems(1) by (auto split: option.splits)
  note run = read_running [OF r(1) Cons.prems(2)]
  have same: "\<not> i_standby (in_stream ad1)" "requested_channel (in_stream ad1) = ?ch"
    using run(1) Cons.prems(2) by (simp_all add: in_same_def)
  obtain ys ad2 where f: "in_fill w n ad = Some (False, ys, ad2)" "xs = muted (mute_500ms (in_stream ad)) ys"
    using run(3) by blast
  note IH = Cons.IH [OF r(2) same(1), unfolded same(2) run(2)]
  have "(outs ! k) ! i = muted_sample (mute_500ms (in_stream ad) - 2 * (?ch * sum_list (take k (n # ns)) + i))
      (in_raws w (n # ns) ad ! k ! i)" if k: "k < length (n # ns)" and i: "i < length (outs ! k)" for k i
  proof (cases k)
    case 0
    then show ?thesis using f r(1,3) i by (simp add: muted_samples)
  next
    case (Suc k')
    then show ?thesis using IH k i r(1,3) f(1) by (simp add: algebra_simps)
  qed
  then show ?case using IH r(1,3) f by (simp add: muted_samples algebra_simps)
qed simp

text \<open>C15: The samples of the first half second after a start are zero, in whatever pieces they are
  read and whatever the driver, the resampler or the effects give, and the count of bytes to mute goes down
  by what was read. Every sample behind it is handed out as it was read; of a sample with only its first byte
  in the half second that byte is muted.\<close>

theorem first_half_second_silent:
  assumes "i_standby (in_stream ad)" and "in_ready w ad = Some (0, ad0)" and "in_reads w ns ad0 = Some (outs, ad')"
  shows "let ch = requested_channel (in_stream ad0); half = requested_rate (in_stream ad0) * ch; raws = in_raws w ns ad0 in
         mute_500ms (in_stream ad') = half - 2 * ch * sum_list ns \<and>
         length outs = length ns \<and> map length outs = map length raws \<and>
         (\<forall>k < length ns. \<forall>i < length (outs ! k).
            let byte = 2 * (ch * sum_list (take k ns) + i) in
            outs ! k ! i = (if byte + 2 \<le> half then 0 else if byte < half then raws ! k ! i div 256 * 256 else raws ! k ! i))"
proof -
  have "\<not> i_standby (in_stream ad0)"
    "mute_500ms (in_stream ad0) = requested_rate (in_stream ad0) * requested_channel (in_stream ad0)"
    using assms(1,2) by (auto simp: in_ready_def set_in_def split: option.splits prod.splits if_splits)
  then show ?thesis using reads_running [OF assms(3)] by (simp add: muted_sample_def Let_def less_diff_conv) auto
qed

section \<open>The temporary buffer\<close>

text \<open>The stream needs the temporary buffer and its frames have the samples that the conversion reads:
  this leaves out a card of one channel and 24 bits that is recorded in one channel.\<close>

definition converting :: "Bits \<Rightarrow> stream_in \<Rightarrow> bool" where
  "converting b s =
     ((i_channels s, requested_channel s) \<in> {(2, 1), (1, 2)} \<or>
      i_format s = format_s24 b \<and> (i_channels s, requested_channel s) = (2, 2))"

definition request_bytes :: "Bits \<Rightarrow> stream_in \<Rightarrow> nat \<Rightarrow> nat" where
  "request_bytes b s n = n * i_channels s * (if i_format s = format_s24 b then 4 else 2)"

definition same_config :: "stream_in \<Rightarrow> stream_in \<Rightarrow> bool" where
  "same_config s t = (i_channels t = i_channels s \<and> requested_channel t = requested_channel s \<and> i_format t = i_format s)"

lemma read_wrapper_length:
  "\<forall>k m. fst (os_read w k m) = 0 \<longrightarrow> length (snd (os_read w k m)) = m \<Longrightarrow> pcm_read_wrapper w n k = (0, xs, k') \<Longrightarrow> length xs = n"
  by (auto simp: pcm_read_wrapper_def split: prod.splits if_splits) (metis fst_conv snd_conv)+

lemma convert_defined:
  "\<not> (m2s \<and> s2m) \<Longrightarrow> b24 \<or> m2s \<or> s2m \<Longrightarrow> length xs = n * (if m2s then 1 else 2) \<Longrightarrow> \<exists>ys. convert_record_data n b24 m2s s2m xs = Some ys"
  by (auto simp: convert_record_data_def convert_frames_map)

lemma converting_read:
  assumes "\<forall>k m. fst (os_read w k m) = 0 \<longrightarrow> length (snd (os_read w k m)) = m"
    and "converting (os_bits w) s" and "CAPTURE_PERIOD_SIZE \<le> tmp_size s"
  shows "if tmp_alloc s < request_bytes (os_bits w) s n then pcm_read_convert w n s = None
         else \<exists>r xs t. pcm_read_convert w n s = Some (r, xs, t) \<and> same_config s t \<and> tmp_size t = tmp_size s \<and> tmp_alloc t = tmp_alloc s"
proof -
  obtain r xs k where p: "pcm_read_wrapper w (n * i_channels s) (i_reads s) = (r, xs, k)" by (metis prod_cases3)
  show ?thesis
  proof (cases "r = 0")
    case True
    then have "length xs = n * i_channels s" using p read_wrapper_length [OF assms(1)] by blast
    then have "\<exists>ys. convert_record_data n (i_format s = format_s24 (os_bits w)) (i_channels s = 1 \<and> requested_channel s = 2)
        (i_channels s = 2 \<and> requested_channel s = 1) xs = Some ys"
      using assms(2) by (intro convert_defined) (auto simp: converting_def)
    then obtain ys where "convert_record_data n (i_format s = format_s24 (os_bits w)) (i_channels s = 1 \<and> requested_channel s = 2)
        (i_channels s = 2 \<and> requested_channel s = 1) xs = Some ys" ..
    moreover have "i_format s = format_s24 (os_bits w) \<or> i_channels s = 1 \<and> requested_channel s = 2 \<or>
        i_channels s = 2 \<and> requested_channel s = 1"
      using assms(2) by (auto simp: converting_def)
    ultimately show ?thesis
      using p True assms(3) by (simp add: pcm_read_convert_def request_bytes_def same_config_def Let_def)
  next
    case False
    then show ?thesis
      using p assms(2,3) by (simp add: pcm_read_convert_def request_bytes_def converting_def same_config_def Let_def) blast
  qed
qed

fun pcm_reads :: "Os \<Rightarrow> nat list \<Rightarrow> stream_in \<Rightarrow> stream_in option" where
  "pcm_reads w [] s = Some s"
| "pcm_reads w (n # ns) s =
     (case pcm_read_convert w n s of None \<Rightarrow> None | Some (r, xs, t) \<Rightarrow> pcm_reads w ns t)"

lemma same_config_request: "same_config s t \<Longrightarrow> request_bytes b t n = request_bytes b s n \<and> converting b t = converting b s"
  by (simp add: same_config_def request_bytes_def converting_def)

lemma pcm_reads_none:
  assumes "\<forall>k m. fst (os_read w k m) = 0 \<longrightarrow> length (snd (os_read w k m)) = m"
    and "converting (os_bits w) s" and "CAPTURE_PERIOD_SIZE \<le> tmp_size s" and "tmp_alloc s = request_bytes (os_bits w) s n"
  shows "(pcm_reads w ns s = None) = (\<exists>m \<in> set ns. n < m)"
  using assms(2-4)
proof (induction ns arbitrary: s)
  case (Cons m ns)
  have pos: "(request_bytes (os_bits w) s n < request_bytes (os_bits w) s m) = (n < m)"
    using Cons.prems(1) by (auto simp: request_bytes_def converting_def)
  note step = converting_read [OF assms(1) Cons.prems(1,2), of m]
  show ?case
  proof (cases "n < m")
    case True
    then show ?thesis using step Cons.prems(3) pos by simp
  next
    case False
    then obtain r xs t where t: "pcm_read_convert w m s = Some (r, xs, t)" "same_config s t" "tmp_size t = tmp_size s" "tmp_alloc t = tmp_alloc s"
      using step Cons.prems(3) pos by auto
    then show ?thesis
      using Cons.IH [of t] Cons.prems same_config_request [OF t(2)] False by simp
  qed
qed simp

text \<open>C26: A fresh stream whose samples are converted overruns its temporary buffer exactly when some
  later read asks for more frames than the first one did: the buffer has the size of the first
  request, although a full period is noted as its size.\<close>

theorem temporary_buffer_overrun:
  assumes "\<forall>k m. fst (os_read w k m) = 0 \<longrightarrow> length (snd (os_read w k m)) = m"
    and "converting (os_bits w) s" and "tmp_size s = 0"
  shows "(pcm_reads w (n # ns) s = None) = (\<exists>m \<in> set ns. n < m)"
proof -
  let ?s = "s\<lparr>tmp_size := CAPTURE_PERIOD_SIZE, tmp_alloc := request_bytes (os_bits w) s n\<rparr>"
  have same: "same_config s ?s" by (simp add: same_config_def)
  have "i_format s = format_s24 (os_bits w) \<or> i_channels s = 1 \<and> requested_channel s = 2 \<or> i_channels s = 2 \<and> requested_channel s = 1"
    using assms(2) by (auto simp: converting_def)
  then have "pcm_read_convert w n s = pcm_read_convert w n ?s"
    using assms(3) by (simp add: pcm_read_convert_def request_bytes_def Let_def CAPTURE_PERIOD_SIZE_def)
  moreover have "(pcm_reads w (n # ns) ?s = None) = (\<exists>m \<in> set (n # ns). n < m)"
    using assms(1,2) same_config_request [OF same] by (intro pcm_reads_none) simp_all
  ultimately show ?thesis by simp
qed

definition demo_os :: Os where
  "demo_os = \<lparr>os_bits = demo_bits, os_mixers = demo_mixers, os_sys = demo_sys, os_ready = (\<lambda>l c. True), os_resampler = 0,
     os_echo = (\<lambda>k. True), os_read = (\<lambda>k n. (0, replicate n 7)), os_recover = (\<lambda>k. True), os_prepare = (\<lambda>k. 0),
     os_requests = (\<lambda>n s. [n]), os_convert = (\<lambda>n xs. xs),
     os_command = (\<lambda>l h c. (0, 0)), os_features = (\<lambda>h. (0, 0, [])), os_reverse = (\<lambda>h. True), os_descriptor = (\<lambda>h. (0, False)),
     os_process = (\<lambda>es xs n. (n, take n xs)), os_spdif = None,
     os_xrun = (\<lambda>k. 0), os_write = (\<lambda>k xs. 0),
     os_recover_out = (\<lambda>k. True), os_prepare_out = (\<lambda>k. 0), os_resample = (\<lambda>xs. xs), os_buffer = 1536, os_avail = None, os_hdmi = (None, None),
     os_htimestamp = (\<lambda>k. Some 100), os_rsmp_delay = 0, os_echo_read = (\<lambda>k e n d. (0, replicate n 5, d)),
     os_reverse_used = (\<lambda>h xs n. n)\<rparr>"

definition demo_in :: stream_in where
  "demo_in = \<lparr>i_pcm = NoPcm, i_device = 4, i_rate = 44100, i_channels = 2, i_format = 0, i_resampler = False, read_buf = [],
     read_buf_frames = 0, tmp_size = 0, tmp_alloc = 0, requested_rate = 2, requested_channel = 1, i_standby = True,
     i_echo = None, need_echo = False, effects = [], main_channels = 16, aux_channels = 0, proc_buf = [], read_status = 0,
     mute_500ms = 0, last_xrun = 0, i_reads = 0, ref_buf = [], ref_buf_size = 0, ref_log = []\<rparr>"

theorem temporary_buffer_overrun_witness:
  "pcm_reads demo_os [2, 1, 3] demo_in = None \<and> pcm_reads demo_os [3, 1, 2] demo_in \<noteq> None"
  using temporary_buffer_overrun [of demo_os demo_in 2 "[1, 3]"] temporary_buffer_overrun [of demo_os demo_in 3 "[1, 2]"]
  by (simp add: demo_os_def converting_def demo_in_def)

definition demo_alsa :: Alsa where
  "demo_alsa = \<lparr>cards = audio_card_list demo_bits, card_list = [Some 1, Some 6, Some 6, Some 6],
     mixers = [Some 0, None, None, None], audio_card_num = 1, mm_rate = 2, usb_card_name = [], ad_mode = 0,
     in_device = 4, out_device = 8, in_call = False, tty_mode = TTY_MODE_OFF, active_input = False, stale_input = False, in_source = 0,
     mix_log = [], mic_mute = False, low_power = False, default_rate = 2, device_is_auto = False, prim_out = None,
     hdmi_out = None, esai_out = None, in_stream = demo_in, in_card_idx = 0, echo_ref = None, echo_count = 0, pcm_log = [],
     pcm_writes = 0, fx_log = []\<rparr>"

lemma demo_route: "set_settings demo_mixers 0 en mm_main_mic_input_wm8962 = (- EINVAL, [])"
  by (simp add: mm_main_mic_input_wm8962_def demo_mixers_def demo_names_def wm8962_tables by_value_def by_text_def)

lemma demo_select:
  "select_input_device demo_mixers demo_bits (demo_alsa\<lparr>active_input := True, stale_input := False, in_device := 4\<rparr>) =
     Some (demo_alsa\<lparr>active_input := True, stale_input := False, in_device := 4\<rparr>)"
proof -
  have "mm_main_mic_input (cards demo_alsa ! 1) = Some mm_main_mic_input_wm8962"
    by (simp add: demo_alsa_def audio_card_list_def wm8962_card_def)
  then show ?thesis
    by (simp add: select_input_device_def board_route set_route_by_array_def demo_route)
      (simp add: demo_alsa_def demo_bits_def board_route set_route_by_array_def demo_route freed_input_def)
qed

lemma demo_ready:
  "in_ready demo_os demo_alsa =
     Some (0, demo_alsa\<lparr>active_input := True, stale_input := False, in_device := 4, in_card_idx := 0, pcm_log := [PcmOpen 0 True],
       in_stream := demo_in\<lparr>i_pcm := OpenPcm 0, i_rate := 2, i_standby := False, mute_500ms := 2\<rparr>\<rparr>)"
proof -
  have b: "ad_mode demo_alsa = 0" "i_device (in_stream demo_alsa) = 4" "in_stream demo_alsa = demo_in"
    "default_rate demo_alsa = 2" "pcm_log demo_alsa = []" "card_list demo_alsa = [Some 1, Some 6, Some 6, Some 6]"
    by (simp_all add: demo_alsa_def demo_in_def)
  have c: "card_no (cards demo_alsa ! Suc 0) = 0" "4 AND supported_in (cards demo_alsa ! Suc 0) \<noteq> 0"
    by (simp_all add: demo_alsa_def audio_card_list_def wm8962_card_def codec_in_def demo_bits_def)
  have o: "os_bits demo_os = demo_bits" "os_mixers demo_os = demo_mixers" "os_ready demo_os l k"
    "mode_in_call demo_bits = 2" for l k by (simp_all add: demo_os_def demo_bits_def)
  have g: "in_config demo_os (demo_alsa\<lparr>active_input := True, stale_input := False, in_device := 4\<rparr>) = Some (Some (2, 2, 0))"
    by (simp add: in_config_def o b demo_in_def) (simp add: demo_bits_def)
  show ?thesis
    by (simp add: in_ready_def start_input_stream_def start_on_card_def cavan_check_audio_mode_def b c o g demo_select Let_def
        open_input_def set_in_def did_def renew_resampler_def wm8962_card_def demo_in_def)
qed

lemma demo_read: "os_bits demo_os = demo_bits" "format_s24 demo_bits = 2" "os_read demo_os k n = (0, replicate n 7)"
  by (simp_all add: demo_os_def demo_bits_def)

theorem first_half_second_silent_witness:
  "\<exists>ad0 outs ad'. in_ready demo_os demo_alsa = Some (0, ad0) \<and> in_reads demo_os [2, 1] ad0 = Some (outs, ad') \<and>
     outs = [[0, 6], [6]] \<and> in_raws demo_os [2, 1] ad0 = [[6, 6], [6]] \<and> mute_500ms (in_stream ad') = 0"
proof -
  let ?ad0 = "demo_alsa\<lparr>active_input := True, stale_input := False, in_device := 4, in_card_idx := 0, pcm_log := [PcmOpen 0 True],
       in_stream := demo_in\<lparr>i_pcm := OpenPcm 0, i_rate := 2, i_standby := False, mute_500ms := 2\<rparr>\<rparr>"
  have name: "driver_name (cards demo_alsa ! 1) = ''wm8962-audio''"
    by (simp add: demo_alsa_def audio_card_list_def wm8962_card_def)
  have "\<exists>ad'. in_reads demo_os [2, 1] ?ad0 = Some ([[0, 6], [6]], ad') \<and> in_raws demo_os [2, 1] ?ad0 = [[6, 6], [6]]"
    using name
    by (simp add: in_read_def in_fill_def in_ready_def spdif_in_rate_check_def capture_def demo_in_def demo_alsa_def pcm_read_convert_def
        pcm_read_wrapper_def demo_read convert_record_data_def muted_def wrap16_def set_in_def Let_def CAPTURE_PERIOD_SIZE_def upt_rec
        numeral_2_eq_2)
  then obtain ad' where r: "in_reads demo_os [2, 1] ?ad0 = Some ([[0, 6], [6]], ad')" "in_raws demo_os [2, 1] ?ad0 = [[6, 6], [6]]"
    by blast
  show ?thesis
    using first_half_second_silent [OF _ demo_ready r(1)] demo_ready r
    by (intro exI [of _ ?ad0] exI [of _ "[[0, 6], [6]]"] exI [of _ ad']) (simp add: demo_alsa_def demo_in_def Let_def)
qed

end
