(* ===== verification/Alsa_Effects.thy ===== *)
theory Alsa_Effects
  imports Alsa_Capture
begin

text \<open>
  The preprocessing effects of a capture stream of the ALSA audio HAL (src/alsa/tinyalsa_hal.c): at most
  three, added at the end and taken out of the middle, and the auxiliary channels that all of them and
  the microphone support. The commands sent to the effects are listed in order.
\<close>

definition MAX_PREPROCESSORS :: nat where "MAX_PREPROCESSORS = 3"

definition in_aux_cnl_configs :: "Bits \<Rightarrow> (u32 \<times> u32) list" where
  "in_aux_cnl_configs b = [(ch_in_front b, ch_in_back b), (ch_in_stereo b, ch_in_right b)]"

section \<open>The auxiliary channels\<close>

text \<open>How many effects support the configuration; the count stops at the first that does not.\<close>

fun match_count :: "u32 \<times> u32 \<Rightarrow> effect list \<Rightarrow> nat" where
  "match_count c [] = 0"
| "match_count c (e # es) = (if c \<in> set (ef_configs e) then Suc (match_count c es) else 0)"

definition in_get_aux_channels :: "Bits \<Rightarrow> stream_in \<Rightarrow> u32" where
  "in_get_aux_channels b s =
     (if effects s = [] then 0
      else if i_device s AND (in_builtin_mic b OR in_back_mic b) = 0 then 0
      else
        snd (fold (\<lambda>cur new.
               if fst cur = main_channels s \<and> match_count cur (effects s) = length (effects s) \<and>
                  popcount (snd new) < popcount (snd cur)
               then cur else new) (in_aux_cnl_configs b) (0, 0)))"

text \<open>A command and its two results, put together as the macro of the source does.\<close>

definition command :: "Os \<Rightarrow> nat \<Rightarrow> fx_cmd \<Rightarrow> int \<times> 'a Alsa_scheme \<Rightarrow> int \<times> 'a Alsa_scheme" where
  "command w h c r =
     (case os_command w (fx_log (snd r)) h c of
        (f, g) \<Rightarrow> (if f \<noteq> 0 then f else if g \<noteq> 0 then g else fst r, (snd r)\<lparr>fx_log := fx_log (snd r) @ [(h, c)]\<rparr>))"

definition in_configure_effect_channels :: "Os \<Rightarrow> nat \<Rightarrow> u32 \<times> u32 \<Rightarrow> 'a Alsa_scheme \<Rightarrow> int \<times> 'a Alsa_scheme" where
  "in_configure_effect_channels w h c ad =
     (let f = fst (os_command w (fx_log ad) h GetConfig); ad1 = ad\<lparr>fx_log := fx_log ad @ [(h, GetConfig)]\<rparr> in
      if f \<noteq> 0 then (f, ad1)
      else command w h Enable (command w h (SetAux c) (command w h (SetConfig (fst c OR snd c)) (0, ad1))))"

definition in_reconfigure_channels ::
  "Os \<Rightarrow> nat option \<Rightarrow> u32 \<times> u32 \<Rightarrow> bool \<Rightarrow> 'a Alsa_scheme \<Rightarrow> int \<times> 'a Alsa_scheme" where
  "in_reconfigure_channels w effect c changed ad =
     (if changed then
        fold (\<lambda>e (st, ad). case in_configure_effect_channels w (ef_handle e) c ad of
                             (cur, ad') \<Rightarrow> (if cur \<noteq> 0 then cur else st, ad'))
          (effects (in_stream ad)) (0, ad)
      else
        (case effect of
           None \<Rightarrow> (0, ad)
         | Some h \<Rightarrow> if snd c \<noteq> 0 then in_configure_effect_channels w h c ad else (0, ad)))"

text \<open>A failed configuration goes back to no auxiliary channels.\<close>

definition in_update_aux_channels :: "Os \<Rightarrow> nat option \<Rightarrow> 'a Alsa_scheme \<Rightarrow> 'a Alsa_scheme option" where
  "in_update_aux_channels w effect ad =
     (let s = in_stream ad; aux = in_get_aux_channels (os_bits w) s in
      case in_reconfigure_channels w effect (main_channels s, aux) (aux \<noteq> aux_channels s) ad of
        (st, ad1) \<Rightarrow>
          (case (if st \<noteq> 0 then (0, snd (in_reconfigure_channels w effect (main_channels s, 0) True ad1)) else (aux, ad1)) of
             (aux1, ad2) \<Rightarrow>
               if aux_channels (in_stream ad2) \<noteq> aux1
               then do_input_standby w (set_in (\<lambda>s. s\<lparr>aux_channels := aux1\<rparr>) ad2)
               else Some ad2))"

section \<open>Adding and removing\<close>

text \<open>
  The configurations an effect supports with its main channels; an error of the command or in its reply
  means none.
\<close>

definition in_read_audio_effect_channel_configs :: "Os \<Rightarrow> nat \<Rightarrow> (u32 \<times> u32) list" where
  "in_read_audio_effect_channel_configs w h =
     (case os_features w h of (st, reply, configs) \<Rightarrow> if st \<noteq> 0 \<or> reply \<noteq> 0 then [] else configs)"

text \<open>The reverse stream is configured for every effect that has a function for it; the results are not used.\<close>

definition in_configure_reverse :: "Os \<Rightarrow> 'a Alsa_scheme \<Rightarrow> 'a Alsa_scheme" where
  "in_configure_reverse w ad =
     fold (\<lambda>e ad. if os_reverse w (ef_handle e)
                    then snd (command w (ef_handle e) (SetReverse (main_channels (in_stream ad))) (0, ad)) else ad)
       (effects (in_stream ad)) ad"

definition in_add_audio_effect :: "Os \<Rightarrow> nat \<Rightarrow> 'a Alsa_scheme \<Rightarrow> (int \<times> 'a Alsa_scheme) option" where
  "in_add_audio_effect w h ad =
     (if MAX_PREPROCESSORS \<le> length (effects (in_stream ad)) then Some (- ENOSYS, ad)
      else
        (case os_descriptor w h of
           (st, aec) \<Rightarrow>
             if st \<noteq> 0 then Some (st, ad)
             else
               (case in_update_aux_channels w (Some h)
                       (set_in (\<lambda>s. s\<lparr>effects := effects s @ [\<lparr>ef_handle = h, ef_configs = in_read_audio_effect_channel_configs w h\<rparr>]\<rparr>) ad) of
                  None \<Rightarrow> None
                | Some ad1 \<Rightarrow>
                    if aec
                    then map_option (\<lambda>ad2. (0, in_configure_reverse w ad2))
                           (do_input_standby w (set_in (\<lambda>s. s\<lparr>need_echo := True\<rparr>) ad1))
                    else Some (0, ad1))))"

text \<open>The first slot with the effect is left out, the ones behind it move up.\<close>

fun remove_slot :: "nat \<Rightarrow> effect list \<Rightarrow> effect list option" where
  "remove_slot h [] = None"
| "remove_slot h (e # es) = (if ef_handle e = h then Some es else map_option (\<lambda>fs. e # fs) (remove_slot h es))"

definition in_remove_audio_effect :: "Os \<Rightarrow> nat \<Rightarrow> 'a Alsa_scheme \<Rightarrow> (int \<times> 'a Alsa_scheme) option" where
  "in_remove_audio_effect w h ad =
     (if effects (in_stream ad) = [] then Some (- ENOSYS, ad)
      else
        (case remove_slot h (effects (in_stream ad)) of
           None \<Rightarrow> Some (- EINVAL, ad)
         | Some es \<Rightarrow>
             (case in_update_aux_channels w None (set_in (\<lambda>s. s\<lparr>effects := es\<rparr>) ad) of
                None \<Rightarrow> None
              | Some ad1 \<Rightarrow>
                  (case os_descriptor w h of
                     (st, aec) \<Rightarrow>
                       if st \<noteq> 0 then Some (st, ad1)
                       else if aec
                         then map_option (\<lambda>ad2. (0, ad2)) (do_input_standby w (set_in (\<lambda>s. s\<lparr>need_echo := False\<rparr>) ad1))
                       else Some (0, ad1)))))"

text \<open>A new source and a new device of the stream; the values are those of the keys, \<open>None\<close> when absent.\<close>

definition set_source :: "string option \<Rightarrow> 'a Alsa_scheme \<Rightarrow> bool \<times> 'a Alsa_scheme" where
  "set_source src ad =
     (case src of
        None \<Rightarrow> (False, ad)
      | Some t \<Rightarrow>
          (let v = atoi (take 31 t) in
           if in_source ad \<noteq> v \<and> v \<noteq> 0 then (True, ad\<lparr>in_source := v\<rparr>) else (False, ad)))"

definition set_in_device :: "Os \<Rightarrow> u32 \<Rightarrow> 'a Alsa_scheme \<Rightarrow> 'a Alsa_scheme option" where
  "set_in_device w v ad =
     (let ad1 = set_in (\<lambda>s. s\<lparr>i_device := v\<rparr>) ad in
      case (if v AND in_usb_device (os_bits w) \<noteq> 0
            then map_option snd (scan_available_device (os_bits w) (os_sys w) False ad1) else Some ad1) of
        None \<Rightarrow> None
      | Some ad2 \<Rightarrow> in_update_aux_channels w None ad2)"

definition in_set_parameters :: "Os \<Rightarrow> string option \<Rightarrow> string option \<Rightarrow> 'a Alsa_scheme \<Rightarrow> 'a Alsa_scheme option" where
  "in_set_parameters w src dev ad =
     (case set_source src ad of
        (sb, ad1) \<Rightarrow>
          (let v = (case dev of None \<Rightarrow> 0 | Some t \<Rightarrow> (word_of_int (atoi (take 31 t)) :: u32) AND NOT (bit_in (os_bits w))) in
           case (if i_device (in_stream ad1) \<noteq> v \<and> v \<noteq> 0
                 then map_option (\<lambda>ad2. (True, ad2)) (set_in_device w v ad1) else Some (sb, ad1)) of
             None \<Rightarrow> None
           | Some (sb1, ad3) \<Rightarrow> if sb1 then do_input_standby w ad3 else Some ad3))"

section \<open>The channels that all effects support\<close>

definition aux_supported :: "Bits \<Rightarrow> stream_in \<Rightarrow> u32 \<Rightarrow> bool" where
  "aux_supported b s a =
     (i_device s AND (in_builtin_mic b OR in_back_mic b) \<noteq> 0 \<and> (main_channels s, a) \<in> set (in_aux_cnl_configs b) \<and>
      (\<forall>e \<in> set (effects s). (main_channels s, a) \<in> set (ef_configs e)))"

lemma match_count_all: "(match_count c es = length es) = (\<forall>e \<in> set es. c \<in> set (ef_configs e))"
proof -
  have "match_count c es \<le> length es" by (induction c es rule: match_count.induct) simp_all
  then show ?thesis by (induction c es rule: match_count.induct) auto
qed

end
