(* ===== verification/Alsa_Playback.thy ===== *)
theory Alsa_Playback
  imports Alsa_Effects
begin

text \<open>
  Playback by the ALSA audio HAL (src/alsa/tinyalsa_hal.c): the primary stream, which can write to two
  cards at once, and the direct streams for HDMI and ESAI, which take their card away from it. A write of
  bytes is a write of 16 bit samples. The result of a write is the time it sleeps after an error, in
  microseconds. Reading past a buffer, a result that was never set and following NULL have the result \<open>None\<close>.
\<close>

section \<open>Streams\<close>

datatype out_slot = OUTPUT_PRIMARY | OUTPUT_HDMI | OUTPUT_ESAI

fun active_output :: "out_slot \<Rightarrow> 'a Alsa_scheme \<Rightarrow> stream_out option" where
  "active_output OUTPUT_PRIMARY ad = prim_out ad"
| "active_output OUTPUT_HDMI ad = hdmi_out ad"
| "active_output OUTPUT_ESAI ad = esai_out ad"

fun put_output :: "out_slot \<Rightarrow> stream_out option \<Rightarrow> 'a Alsa_scheme \<Rightarrow> 'a Alsa_scheme" where
  "put_output OUTPUT_PRIMARY x ad = ad\<lparr>prim_out := x\<rparr>"
| "put_output OUTPUT_HDMI x ad = ad\<lparr>hdmi_out := x\<rparr>"
| "put_output OUTPUT_ESAI x ad = ad\<lparr>esai_out := x\<rparr>"

definition set_out :: "out_slot \<Rightarrow> (stream_out \<Rightarrow> stream_out) \<Rightarrow> 'a Alsa_scheme \<Rightarrow> 'a Alsa_scheme" where
  "set_out k f ad = put_output k (map_option f (active_output k ad)) ad"

text \<open>A slot that is empty or has a stream in standby.\<close>

definition idle :: "stream_out option \<Rightarrow> bool" where
  "idle x = (case x of None \<Rightarrow> True | Some p \<Rightarrow> o_standby p)"

text \<open>The open PCMs of a stream with their rates, in the order of the array.\<close>

definition out_pcms :: "stream_out \<Rightarrow> (int \<times> nat) list" where
  "out_pcms p =
     (case o_normal p of None \<Rightarrow> [] | Some c \<Rightarrow> [(c, o_rate_normal p)]) @
     (case o_hdmi p of None \<Rightarrow> [] | Some c \<Rightarrow> [(c, o_rate_hdmi p)]) @
     (case o_esai p of None \<Rightarrow> [] | Some c \<Rightarrow> [(c, o_rate_esai p)])"

definition do_output_standby :: "out_slot \<Rightarrow> 'a Alsa_scheme \<Rightarrow> 'a Alsa_scheme" where
  "do_output_standby k ad =
     (case active_output k ad of
        None \<Rightarrow> ad
      | Some p \<Rightarrow>
          if o_standby p then ad
          else
            set_out k (\<lambda>p. p\<lparr>o_normal := None, o_hdmi := None, o_esai := None, o_echo := None, o_standby := True\<rparr>)
              (ad\<lparr>pcm_log := pcm_log ad @ map (\<lambda>(c, r). PcmClose c) (out_pcms p) @
                    (case o_echo p of None \<Rightarrow> [] | Some e \<Rightarrow> [EchoWrite e])\<rparr>))"

section \<open>Start\<close>

text \<open>A PCM that is opened, and whether it is ready.\<close>

definition open_pcm :: "Os \<Rightarrow> int \<Rightarrow> 'a Alsa_scheme \<Rightarrow> bool \<times> 'a Alsa_scheme" where
  "open_pcm w c ad = (let ok = os_ready w (pcm_log ad) c in (ok, did (PcmOpen c ok) ad))"

text \<open>
  The PCM for everything but HDMI. A USB card sets channels and rate and a new resampler. The rate of
  \<open>pcm_config_mm_out\<close> is set with \<open>default_rate\<close>. The result is an error, or the card that was opened and whether it
  is ready.
\<close>

definition dock_config :: "Os \<Rightarrow> stream_out \<Rightarrow> 'a Alsa_scheme \<Rightarrow> (int \<times> stream_out) option" where
  "dock_config w p ad =
     (case adev_get_channels_for_device True (o_device p) ad of
        None \<Rightarrow> None
      | Some ch \<Rightarrow>
          if ch \<noteq> 1 \<and> ch \<noteq> 2 then Some (- EINVAL, p)
          else
            (case adev_get_rate_for_device True (o_device p) ad of
               None \<Rightarrow> None
             | Some r \<Rightarrow>
                 if r = 0 then Some (- EINVAL, p\<lparr>o_channels := nat ch\<rparr>)
                 else if o_resampled p
                 then Some (os_resampler w, p\<lparr>o_channels := nat ch, o_rate_normal := r, o_resampled := (os_resampler w = 0)\<rparr>)
                 else Some (0, p\<lparr>o_channels := nat ch, o_rate_normal := r\<rparr>)))"

definition open_normal :: "Os \<Rightarrow> stream_out \<Rightarrow> 'a Alsa_scheme \<Rightarrow> (int \<times> bool \<times> stream_out \<times> 'a Alsa_scheme) option" where
  "open_normal w p ad =
     (let b = os_bits w; d = o_device p AND (out_all b AND NOT (out_digital b));
          p0 = p\<lparr>o_rate_normal := default_rate ad, o_channels := 2\<rparr>
      in case (if o_device p AND out_dgtl_dock b \<noteq> 0 then dock_config w p0 ad else Some (0, p0)) of
           None \<Rightarrow> None
         | Some (e, p1) \<Rightarrow>
             if e \<noteq> 0 then Some (e, False, p1, ad)
             else
               (case get_card_for_device True d ad of
                  None \<Rightarrow> None
                | Some c \<Rightarrow> (case open_pcm w c ad of (ok, ad1) \<Rightarrow> Some (0, ok, p1\<lparr>o_normal := Some c\<rparr>, ad1))))"

definition open_hdmi :: "Os \<Rightarrow> stream_out \<Rightarrow> 'a Alsa_scheme \<Rightarrow> (bool \<times> stream_out \<times> 'a Alsa_scheme) option" where
  "open_hdmi w p ad =
     (case get_card_for_device True (o_device p AND out_digital (os_bits w)) ad of
        None \<Rightarrow> None
      | Some c \<Rightarrow>
          (case open_pcm w c ad of (ok, ad1) \<Rightarrow> Some (ok, p\<lparr>o_rate_hdmi := default_rate ad, o_hdmi := Some c\<rparr>, ad1)))"

text \<open>
  The PCMs that are not ready are closed again; \<open>nr\<close> and \<open>hr\<close> are whether one that was opened now is ready.
  A PCM that an earlier start left open counts as ready.
\<close>

definition close_failed :: "bool \<Rightarrow> bool \<Rightarrow> stream_out \<Rightarrow> 'a Alsa_scheme \<Rightarrow> stream_out \<times> 'a Alsa_scheme" where
  "close_failed nr hr p ad =
     (let (p1, ad1) = (case o_normal p of Some c \<Rightarrow> if nr then (p, ad) else (p\<lparr>o_normal := None\<rparr>, did (PcmClose c) ad)
                                        | None \<Rightarrow> (p, ad))
      in case o_hdmi p1 of Some c \<Rightarrow> if hr then (p1, ad1) else (p1\<lparr>o_hdmi := None\<rparr>, did (PcmClose c) ad1)
                         | None \<Rightarrow> (p1, ad1))"

text \<open>Both PCMs; \<open>normal\<close> and \<open>hdmi\<close> are whether they are wanted and not in the hands of a direct stream.\<close>

definition open_outputs :: "Os \<Rightarrow> bool \<Rightarrow> bool \<Rightarrow> stream_out \<Rightarrow> 'a Alsa_scheme \<Rightarrow> (int \<times> 'a Alsa_scheme) option" where
  "open_outputs w normal hdmi p ad =
     (case (if normal then open_normal w p ad else Some (0, True, p, ad)) of
        None \<Rightarrow> None
      | Some (e, nr, p1, ad1) \<Rightarrow>
          if e \<noteq> 0 then Some (e, ad1\<lparr>prim_out := Some p1\<rparr>)
          else
            (case (if hdmi then open_hdmi w p1 ad1 else Some (True, p1, ad1)) of
               None \<Rightarrow> None
             | Some (hr, p2, ad2) \<Rightarrow>
                 (case close_failed nr hr p2 ad2 of
                    (p3, ad3) \<Rightarrow>
                      if (normal \<or> hdmi) \<and> nr \<and> hr
                      then Some (0, ad3\<lparr>prim_out := Some (if echo_ref ad3 = None then p3 else p3\<lparr>o_echo := echo_ref ad3\<rparr>)\<rparr>)
                      else Some (- ENOMEM, ad3\<lparr>prim_out := Some p3\<rparr>))))"

definition start_output_stream_primary :: "Os \<Rightarrow> 'a Alsa_scheme \<Rightarrow> (int \<times> 'a Alsa_scheme) option" where
  "start_output_stream_primary w ad =
     (let b = os_bits w; e = cavan_check_audio_mode b ad in
      if e < 0 then Some (e, ad)
      else
        (case (if ad_mode ad \<noteq> mode_in_call b then select_output_device (os_mixers w) b ad else Some ad) of
           None \<Rightarrow> None
         | Some ad1 \<Rightarrow>
             (case prim_out ad1 of
                None \<Rightarrow> None
              | Some p \<Rightarrow>
                  open_outputs w (o_device p AND (out_all b AND NOT (out_digital b)) \<noteq> 0 \<and> idle (esai_out ad1))
                    (o_device p AND out_digital b \<noteq> 0 \<and> idle (hdmi_out ad1)) p ad1)))"

text \<open>A direct stream puts the primary one into standby, to have the card for itself.\<close>

definition start_output_stream_hdmi :: "Os \<Rightarrow> 'a Alsa_scheme \<Rightarrow> (int \<times> 'a Alsa_scheme) option" where
  "start_output_stream_hdmi w ad =
     (let b = os_bits w; e = cavan_check_audio_mode b ad in
      if e < 0 then Some (e, ad)
      else
        (let ad1 = do_output_standby OUTPUT_PRIMARY ad in
         case hdmi_out ad1 of
           None \<Rightarrow> None
         | Some p \<Rightarrow>
             (case get_card_for_device True (o_device p AND out_digital b) ad1 of
                None \<Rightarrow> None
              | Some c \<Rightarrow>
                  (case open_pcm w c ad1 of
                     (ok, ad2) \<Rightarrow>
                       if ok then Some (0, ad2\<lparr>hdmi_out := Some (p\<lparr>o_hdmi := Some c\<rparr>)\<rparr>)
                       else Some (- ENOMEM, (did (PcmClose c) ad2)\<lparr>hdmi_out := Some (p\<lparr>o_hdmi := None\<rparr>)\<rparr>)))))"

definition start_output_stream_esai :: "Os \<Rightarrow> 'a Alsa_scheme \<Rightarrow> (int \<times> 'a Alsa_scheme) option" where
  "start_output_stream_esai w ad =
     (let b = os_bits w; e = cavan_check_audio_mode b ad in
      if e < 0 then Some (e, ad)
      else
        (let ad1 = do_output_standby OUTPUT_PRIMARY ad in
         case esai_out ad1 of
           None \<Rightarrow> None
         | Some p \<Rightarrow>
             (case get_card_for_device True (o_device p AND out_speaker b) ad1 of
                None \<Rightarrow> None
              | Some c \<Rightarrow>
                  (case open_pcm w c ad1 of
                     (ok, ad2) \<Rightarrow>
                       if ok then Some (0, ad2\<lparr>esai_out := Some (p\<lparr>o_esai := Some c\<rparr>)\<rparr>)
                       else Some (- ENOMEM, (did (PcmClose c) ad2)\<lparr>esai_out := Some (p\<lparr>o_esai := None\<rparr>)\<rparr>)))))"

section \<open>Writing\<close>

text \<open>A failed write is repeated once when the PCM stopped or ran dry and can be prepared again.\<close>

definition pcm_write_once :: "Os \<Rightarrow> int \<Rightarrow> int list \<Rightarrow> 'a Alsa_scheme \<Rightarrow> int \<times> 'a Alsa_scheme" where
  "pcm_write_once w c xs ad =
     (let r = os_write w (pcm_writes ad) xs; ad1 = ad\<lparr>pcm_writes := Suc (pcm_writes ad)\<rparr>
      in (r, if r = 0 then did (PcmWrite c xs) ad1 else ad1))"

definition pcm_write_wrapper :: "Os \<Rightarrow> int \<Rightarrow> int list \<Rightarrow> 'a Alsa_scheme \<Rightarrow> int \<times> 'a Alsa_scheme" where
  "pcm_write_wrapper w c xs ad =
     (case pcm_write_once w c xs ad of
        (r, ad1) \<Rightarrow>
          if r = 0 then (0, ad1)
          else if os_recover_out w (pcm_writes ad) then
            (if os_prepare_out w (pcm_writes ad) \<noteq> 0 then (os_prepare_out w (pcm_writes ad), ad1)
             else pcm_write_once w c xs ad1)
          else (r, ad1))"

text \<open>
  The delay of the last of \<open>frames\<close> frames in nanoseconds, as an \<open>int\<close>; the sum of frames has 32 bits. The first
  open PCM tells the free space of its buffer.
\<close>

definition get_playback_delay :: "Os \<Rightarrow> nat \<Rightarrow> stream_out \<Rightarrow> 'a Alsa_scheme \<Rightarrow> int option" where
  "get_playback_delay w frames p ad =
     (if out_pcms p = [] then None
      else
        (case os_avail w of
           None \<Rightarrow> Some 0
         | Some a \<Rightarrow>
             Some (wrap32 ((int (os_buffer w) - int a + int frames) mod 2 ^ 32 * 1000000000 div int (mm_rate ad)))))"

text \<open>
  The loop over the PCMs. One at the native rate gets the samples, another one as many of the buffer of the
  resampler as \<open>n\<close>. \<open>r\<close> is the result so far.
\<close>

fun write_pcms :: "Os \<Rightarrow> int list \<Rightarrow> int list \<Rightarrow> nat \<Rightarrow> (int \<times> nat) list \<Rightarrow> int option \<Rightarrow> 'a Alsa_scheme \<Rightarrow>
    (int \<times> 'a Alsa_scheme) option" where
  "write_pcms w xs buf n [] r ad = map_option (\<lambda>e. (e, ad)) r"
| "write_pcms w xs buf n ((c, rate) # ps) r ad =
     (if rate \<noteq> default_rate ad \<and> length buf < n then None
      else
        (case pcm_write_wrapper w c (if rate = default_rate ad then xs else take n buf) ad of
           (e, ad1) \<Rightarrow> if e \<noteq> 0 then Some (e, ad1) else write_pcms w xs buf n ps (Some e) ad1))"

text \<open>
  The resampler of the first PCM that needs one; its buffer has two periods of frames. What it does not take of
  the samples is not asked for again. The results are the buffer and the number of samples to write from it.
\<close>

definition resample_out :: "Os \<Rightarrow> int list \<Rightarrow> stream_out \<Rightarrow> 'a Alsa_scheme \<Rightarrow> int list \<times> nat" where
  "resample_out w xs p ad =
     (if o_normal p \<noteq> None \<and> o_resampled p \<and> o_rate_normal p \<noteq> default_rate ad \<or>
         o_hdmi p \<noteq> None \<and> o_rate_hdmi p \<noteq> default_rate ad \<or> o_esai p \<noteq> None \<and> o_rate_esai p \<noteq> default_rate ad
      then (let ys = take 768 (os_resample w xs) in (ys @ drop (length ys) (o_buffer p), length ys))
      else (o_buffer p, length xs))"

text \<open>The sleep after an error: the product has 32 bits.\<close>

definition out_nap :: "nat \<Rightarrow> nat \<Rightarrow> nat \<Rightarrow> nat" where
  "out_nap bytes frame rate = bytes * 1000000 mod 2 ^ 32 div frame div rate"

definition voice_input :: "Os \<Rightarrow> 'a Alsa_scheme \<Rightarrow> bool" where
  "voice_input w ad = (active_input ad \<and> in_source ad = source_voice (os_bits w))"

definition out_write_primary :: "Os \<Rightarrow> int list \<Rightarrow> 'a Alsa_scheme \<Rightarrow> (nat option \<times> 'a Alsa_scheme) option" where
  "out_write_primary w xs ad =
     (case prim_out ad of
        None \<Rightarrow> None
      | Some p0 \<Rightarrow>
          (let start = o_standby p0; nap = out_nap (2 * length xs) 4 (default_rate ad) in
           case (if start then start_output_stream_primary w ad else Some (0, ad)) of
             None \<Rightarrow> None
           | Some (e, ad1) \<Rightarrow>
               if e \<noteq> 0 then Some (Some nap, ad1)
               else if start \<and> freed_input ad1 then None
               else
                 (case prim_out ad1 of
                    None \<Rightarrow> None
                  | Some p1 \<Rightarrow>
                      (case resample_out w xs p1 ad1 of
                         (buf, n) \<Rightarrow>
                           (let p2 = p1\<lparr>o_standby := False, o_buffer := buf\<rparr>;
                                ad2 = ad1\<lparr>prim_out := Some p2\<rparr>
                            in case (case o_echo p2 of
                                       None \<Rightarrow> Some ad2
                                     | Some r \<Rightarrow> map_option (\<lambda>d. did (EchoData r d) ad2) (get_playback_delay w (n div 2) p2 ad2)) of
                                 None \<Rightarrow> None
                               | Some ad3 \<Rightarrow>
                                   (case write_pcms w xs buf n (out_pcms p2) (if start then Some 0 else None) ad3 of
                                      None \<Rightarrow> None
                                    | Some (q, ad4) \<Rightarrow>
                                        (let ad5 = (if q = 0 then set_prim (\<lambda>p. p\<lparr>o_written := o_written p + length xs div 2\<rparr>) ad4
                                                    else ad4)
                                         in map_option (\<lambda>ad6. (if q = 0 then None else Some nap, ad6))
                                              (if start \<and> voice_input w ad1 \<and> active_input ad5
                                               then do_input_standby w ad5 else Some ad5))))))))"

text \<open>The direct streams write to their one PCM.\<close>

definition write_direct ::
  "Os \<Rightarrow> out_slot \<Rightarrow> int option \<Rightarrow> nat \<Rightarrow> int list \<Rightarrow> 'a Alsa_scheme \<Rightarrow> (int \<times> 'a Alsa_scheme) option" where
  "write_direct w k pcm frame xs ad =
     (case pcm of
        None \<Rightarrow> None
      | Some c \<Rightarrow>
          (case pcm_write_wrapper w c xs ad of
             (e, ad1) \<Rightarrow>
               Some (e, if e = 0 then set_out k (\<lambda>p. p\<lparr>o_written := o_written p + 2 * length xs div frame\<rparr>) ad1 else ad1)))"

definition out_write_hdmi :: "Os \<Rightarrow> int list \<Rightarrow> 'a Alsa_scheme \<Rightarrow> (nat option \<times> 'a Alsa_scheme) option" where
  "out_write_hdmi w xs ad =
     (case hdmi_out ad of
        None \<Rightarrow> None
      | Some p0 \<Rightarrow>
          (let frame = 2 * popcount (o_mask p0); nap = out_nap (2 * length xs) frame (o_rate_hdmi p0) in
           case (if o_standby p0 then start_output_stream_hdmi w ad else Some (0, ad)) of
             None \<Rightarrow> None
           | Some (e, ad1) \<Rightarrow>
               if e \<noteq> 0 then Some (Some nap, ad1)
               else
                 (let ad2 = set_out OUTPUT_HDMI (\<lambda>p. p\<lparr>o_standby := False\<rparr>) ad1 in
                  map_option (\<lambda>(q, ad3). (if q = 0 then None else Some nap, ad3))
                    (write_direct w OUTPUT_HDMI (Option.bind (hdmi_out ad2) o_hdmi) frame xs ad2))))"

definition out_write_esai :: "Os \<Rightarrow> int list \<Rightarrow> 'a Alsa_scheme \<Rightarrow> (nat option \<times> 'a Alsa_scheme) option" where
  "out_write_esai w xs ad =
     (case esai_out ad of
        None \<Rightarrow> None
      | Some p0 \<Rightarrow>
          (let frame = 2 * popcount (o_mask p0); nap = out_nap (2 * length xs) frame (o_rate_esai p0) in
           case (if o_standby p0 then start_output_stream_esai w ad else Some (0, ad)) of
             None \<Rightarrow> None
           | Some (e, ad1) \<Rightarrow>
               if e \<noteq> 0 then Some (Some nap, ad1)
               else
                 (let ad2 = set_out OUTPUT_ESAI (\<lambda>p. p\<lparr>o_standby := False\<rparr>) ad1 in
                  map_option (\<lambda>(q, ad3). (if q = 0 then None else Some nap, ad3))
                    (write_direct w OUTPUT_ESAI (Option.bind (esai_out ad2) o_esai) frame
                       (convert_output_for_esai (o_channels p0) xs) ad2))))"

text \<open>
  The frames that have been played: those written without those in the driver's buffer. \<open>size\<close> is period size times
  count; the product has 32 bits.
\<close>

definition out_get_presentation_position :: "Os \<Rightarrow> stream_out \<Rightarrow> 'a Alsa_scheme \<Rightarrow> nat option" where
  "out_get_presentation_position w p ad =
     (case out_pcms p of
        [] \<Rightarrow> None
      | (c, rate) # ps \<Rightarrow>
          (case os_avail w of
             None \<Rightarrow> None
           | Some a \<Rightarrow>
               (let left = (1536 - int a) mod 2 ^ 32 * int (default_rate ad) mod 2 ^ 32 div int rate;
                    played = int (o_written p) - left
                in if 0 \<le> played then Some (nat played) else None)))"

section \<open>Opening and closing\<close>

text \<open>The mixer of the HDMI card, when it is in the list; NULL otherwise.\<close>

fun hdmi_mixer :: "audio_card list \<Rightarrow> (nat option \<times> int option) list \<Rightarrow> int option option" where
  "hdmi_mixer cs [] = Some None"
| "hdmi_mixer cs ((None, m) # ps) = None"
| "hdmi_mixer cs ((Some k, m) # ps) = (if driver_name (cs ! k) = ''imx-hdmi-soc'' then Some m else hdmi_mixer cs ps)"

definition ctl_values :: "int option \<Rightarrow> int list option \<Rightarrow> int list" where
  "ctl_values mixer ctl = (case mixer of None \<Rightarrow> [] | Some m \<Rightarrow> (case ctl of None \<Rightarrow> [] | Some xs \<Rightarrow> xs))"

definition new_stream :: "u32 \<Rightarrow> u32 \<Rightarrow> u32 list \<Rightarrow> int list \<Rightarrow> stream_out" where
  "new_stream devices chm masks rates =
     \<lparr>o_normal = None, o_hdmi = None, o_esai = None, o_rate_normal = 0, o_rate_hdmi = 0, o_rate_esai = 0,
      o_channels = 0, o_mask = chm, o_resampled = True, o_buffer = [], o_standby = True,
      o_device = devices, o_echo = None, o_written = 0, o_masks = masks, o_rates = rates\<rparr>"

section \<open>Sizes and latency\<close>

text \<open>Frames in a write, a multiple of 16, and the milliseconds in the driver's buffer; the rate of the
  configurations is \<open>default_rate\<close>, whatever the rate of the stream.\<close>

definition LONG_PERIOD_SIZE :: nat where "LONG_PERIOD_SIZE = 192"
definition PLAYBACK_LONG_PERIOD_COUNT :: nat where "PLAYBACK_LONG_PERIOD_COUNT = 8"

definition out_get_buffer_size_primary :: "stream_out \<Rightarrow> 'a Alsa_scheme \<Rightarrow> nat" where
  "out_get_buffer_size_primary p ad =
     (let size = LONG_PERIOD_SIZE * default_rate ad mod 2 ^ 32 div default_rate ad
      in (size + 15) div 16 * 16 * (2 * popcount (o_mask p)))"

definition out_get_buffer_size_hdmi :: "stream_out \<Rightarrow> nat" where
  "out_get_buffer_size_hdmi p = (192 + 15) div 16 * 16 * (2 * popcount (o_mask p))"

definition out_get_buffer_size_esai :: "stream_out \<Rightarrow> nat" where
  "out_get_buffer_size_esai p = (192 + 15) div 16 * 16 * (2 * popcount (o_mask p))"

definition out_get_latency_primary :: "'a Alsa_scheme \<Rightarrow> nat" where
  "out_get_latency_primary ad = LONG_PERIOD_SIZE * PLAYBACK_LONG_PERIOD_COUNT * 1000 div default_rate ad"

end
