(* ===== verification/Alsa_Hal.thy ===== *)
theory Alsa_Hal
  imports Alsa_Playback
begin

text \<open>
  The interface of the ALSA audio HAL (src/alsa/tinyalsa_hal.c): opening the device, opening and closing
  streams, changing the mode of the phone and the device of a stream, the parameters of the device; and
  sequences of all these calls.
\<close>

section \<open>Playback streams\<close>

text \<open>The direct stream for HDMI: its masks and rates are read from the sink. The first result is an error.\<close>

definition hdmi_stream :: "Os \<Rightarrow> u32 \<Rightarrow> nat \<Rightarrow> u32 \<Rightarrow> 'a Alsa_scheme \<Rightarrow> (int \<times> stream_out) option" where
  "hdmi_stream w devices r chm ad =
     (let b = os_bits w; m = (if chm = 0 then ch_out_51 b else chm);
          p = (new_stream devices m [ch_out_stereo b, 0, 0] (int (mm_rate ad) # replicate 19 0))
                \<lparr>o_rate_hdmi := if r = 0 then mm_rate ad else r, o_channels := popcount m\<rparr>
      in case hdmi_mixer (cards ad) (zip (card_list ad) (mixers ad)) of
           None \<Rightarrow> None
         | Some mixer \<Rightarrow>
             (case out_read_hdmi_channel_masks (ch_out_stereo b, ch_out_51 b, ch_out_71 b) (ctl_values mixer (fst (os_hdmi w)))
                     (o_masks p) of
                None \<Rightarrow> None
              | Some (e, masks) \<Rightarrow>
                  if e \<noteq> 0 then Some (e, p)
                  else
                    (case out_read_hdmi_rates (ctl_values mixer (snd (os_hdmi w))) (o_rates p) of
                       None \<Rightarrow> None
                     | Some rates \<Rightarrow> Some (0, p\<lparr>o_masks := masks, o_rates := rates\<rparr>))))"

definition output_kind :: "Os \<Rightarrow> bool \<Rightarrow> u32 \<Rightarrow> 'a Alsa_scheme \<Rightarrow> out_slot" where
  "output_kind w direct devices ad =
     (let b = os_bits w in
      if direct \<and> devices = out_digital b then OUTPUT_HDMI
      else if direct \<and> devices = out_speaker b \<and> device_is_auto ad then OUTPUT_ESAI
      else OUTPUT_PRIMARY)"

text \<open>The stream of a kind: the primary one ignores the wanted rate and mask, of which zero means the default.\<close>

fun stream_of :: "Os \<Rightarrow> out_slot \<Rightarrow> u32 \<Rightarrow> nat \<Rightarrow> u32 \<Rightarrow> 'a Alsa_scheme \<Rightarrow> (int \<times> stream_out) option" where
  "stream_of w OUTPUT_HDMI devices r chm ad = hdmi_stream w devices r chm ad"
| "stream_of w OUTPUT_ESAI devices r chm ad =
     (let m = (if chm = 0 then ch_out_51 (os_bits w) else chm) in
      Some (0, (new_stream devices m [ch_out_stereo (os_bits w), 0, 0] (int (mm_rate ad) # replicate 19 0))
                 \<lparr>o_rate_esai := if r = 0 then mm_rate ad else r, o_channels := popcount m\<rparr>))"
| "stream_of w OUTPUT_PRIMARY devices r chm ad =
     Some (0, new_stream devices (ch_out_stereo (os_bits w)) [ch_out_stereo (os_bits w), 0, 0]
                (int (mm_rate ad) # replicate 19 0))"

text \<open>A slot that is taken refuses the stream; without resamplers it is refused too.\<close>

definition adev_open_output_stream ::
  "Os \<Rightarrow> bool \<Rightarrow> u32 \<Rightarrow> nat \<Rightarrow> u32 \<Rightarrow> 'a Alsa_scheme \<Rightarrow> (int \<times> 'a Alsa_scheme) option" where
  "adev_open_output_stream w direct devices r chm ad =
     (let k = output_kind w direct devices ad in
      if active_output k ad \<noteq> None then Some (- ENOSYS, ad)
      else
        (case stream_of w k devices r chm ad of
           None \<Rightarrow> None
         | Some (e, p) \<Rightarrow>
             if e \<noteq> 0 then Some (e, ad)
             else if os_resampler w \<noteq> 0 then Some (os_resampler w, ad)
             else Some (0, put_output k (Some p) ad)))"

definition adev_close_output_stream :: "out_slot \<Rightarrow> 'a Alsa_scheme \<Rightarrow> 'a Alsa_scheme" where
  "adev_close_output_stream k ad = put_output k None (do_output_standby k ad)"

text \<open>
  Another device for the stream. The primary stream stops when HDMI, the USB card or the speaker is taken or left, and
  in a call; the capture stream stops when it records a voice. The device of HDMI is fixed.
\<close>

definition leaves_card :: "Bits \<Rightarrow> u32 \<Rightarrow> 'a Alsa_scheme \<Rightarrow> bool" where
  "leaves_card b v ad =
     (let d = out_device ad; x = d XOR v in
      x AND out_digital b \<noteq> 0 \<or> x AND out_dgtl_dock b \<noteq> 0 \<or> d AND (out_digital b OR out_dgtl_dock b) \<noteq> 0 \<or>
      x AND out_speaker b \<noteq> 0 \<or> ad_mode ad = mode_in_call b)"

text \<open>The stream and the HAL take the device over, and the paths are chosen again.\<close>

definition take_device :: "Os \<Rightarrow> out_slot \<Rightarrow> u32 \<Rightarrow> 'a Alsa_scheme \<Rightarrow> 'a Alsa_scheme option" where
  "take_device w k v ad =
     (if k = OUTPUT_HDMI then Some ad
      else
        (let b = os_bits w; ad1 = set_out k (\<lambda>p. p\<lparr>o_device := v\<rparr>) (ad\<lparr>out_device := v\<rparr>) in
         case (if v AND out_dgtl_dock b \<noteq> 0 then map_option snd (scan_available_device b (os_sys w) False ad1) else Some ad1) of
           None \<Rightarrow> None
         | Some ad2 \<Rightarrow> select_output_device (os_mixers w) b ad2))"

definition out_set_parameters :: "Os \<Rightarrow> out_slot \<Rightarrow> string option \<Rightarrow> 'a Alsa_scheme \<Rightarrow> 'a Alsa_scheme option" where
  "out_set_parameters w k dev ad =
     (case dev of
        None \<Rightarrow> Some ad
      | Some t \<Rightarrow>
          (let v = (word_of_int (atoi (take 31 t)) :: u32) in
           if out_device ad = v \<or> v = 0 then Some ad
           else
             (let running = (k = OUTPUT_PRIMARY \<and> \<not> idle (prim_out ad))
              in if running \<and> freed_input ad then None
                 else
                 (case take_device w k v (if running \<and> leaves_card (os_bits w) v ad then do_output_standby k ad else ad) of
                   None \<Rightarrow> None
                 | Some ad1 \<Rightarrow> if running \<and> voice_input w ad then do_input_standby w ad1 else Some ad1))))"

section \<open>Modes\<close>

definition force_all_standby :: "Os \<Rightarrow> 'a Alsa_scheme \<Rightarrow> 'a Alsa_scheme option" where
  "force_all_standby w ad =
     (let ad1 = fold do_output_standby [OUTPUT_PRIMARY, OUTPUT_HDMI, OUTPUT_ESAI] ad
      in if freed_input ad1 then None else if active_input ad1 then do_input_standby w ad1 else Some ad1)"

text \<open>The device of a call that begins: the earpiece instead of the speaker alone.\<close>

definition call_devices :: "Bits \<Rightarrow> 'a Alsa_scheme \<Rightarrow> 'a Alsa_scheme" where
  "call_devices b ad =
     (if out_device ad = out_speaker b
      then ad\<lparr>out_device := out_earpiece b, in_device := in_builtin_mic b AND NOT (bit_in b)\<rparr>
      else ad\<lparr>out_device := out_device ad AND NOT (out_speaker b)\<rparr>)"

definition select_mode :: "Os \<Rightarrow> 'a Alsa_scheme \<Rightarrow> 'a Alsa_scheme option" where
  "select_mode w ad =
     (let b = os_bits w; mx = os_mixers w in
      case (if ad_mode ad = mode_in_call b then
              (if in_call ad then Some ad
               else
                 (case force_all_standby w ad of
                    None \<Rightarrow> None
                  | Some ad1 \<Rightarrow> map_option (\<lambda>ad2. ad2\<lparr>in_call := True\<rparr>) (select_output_device mx b (call_devices b ad1))))
            else if in_call ad then
              (case force_all_standby w (ad\<lparr>in_call := False\<rparr>) of
                 None \<Rightarrow> None
               | Some ad1 \<Rightarrow>
                   (case select_output_device mx b ad1 of
                      None \<Rightarrow> None
                    | Some ad2 \<Rightarrow> select_input_device mx b ad2))
            else Some ad) of
        None \<Rightarrow> None
      | Some ad3 \<Rightarrow> cavan_set_audio_mode mx b (ad_mode ad3) ad3)"

definition adev_set_mode :: "Os \<Rightarrow> int \<Rightarrow> 'a Alsa_scheme \<Rightarrow> 'a Alsa_scheme option" where
  "adev_set_mode w m ad = (if ad_mode ad = m then Some ad else select_mode w (ad\<lparr>ad_mode := m\<rparr>))"

section \<open>The device\<close>

text \<open>
  The parameters: the TTY mode (an unknown one ends the call with an error, the result \<open>False\<close>) and the state of the
  screen; \<open>None\<close> is a key that is absent. The key for noise reduction sets a field that nothing reads.
\<close>

definition tty_of :: "string \<Rightarrow> tty_modes option" where
  "tty_of t = map_of [(''tty_off'', TTY_MODE_OFF), (''tty_vco'', TTY_MODE_VCO), (''tty_hco'', TTY_MODE_HCO),
                      (''tty_full'', TTY_MODE_FULL)] (take 31 t)"

definition adev_set_parameters :: "Os \<Rightarrow> string option \<Rightarrow> string option \<Rightarrow> 'a Alsa_scheme \<Rightarrow> (bool \<times> 'a Alsa_scheme) option" where
  "adev_set_parameters w tty screen ad =
     (let set_screen = (\<lambda>ad. case screen of None \<Rightarrow> ad | Some s \<Rightarrow> ad\<lparr>low_power := (take 31 s \<noteq> ''on'')\<rparr>)
      in case tty of
           None \<Rightarrow> Some (True, set_screen ad)
         | Some t \<Rightarrow>
             (case tty_of t of
                None \<Rightarrow> Some (False, ad)
              | Some m \<Rightarrow>
                  map_option (\<lambda>ad. (True, set_screen ad))
                    (if m \<noteq> tty_mode ad then
                       (let ad1 = ad\<lparr>tty_mode := m\<rparr> in
                        if ad_mode ad1 = mode_in_call (os_bits w) then select_output_device (os_mixers w) (os_bits w) ad1
                        else Some ad1)
                     else Some ad)))"

text \<open>The stream is freed: an unused one in standby takes its place here. A failed start leaves \<open>active_input\<close> pointing to the stream,
  which the standby of a stream in standby does not change: then it points to freed memory.\<close>

definition adev_close_input_stream :: "Os \<Rightarrow> 'a Alsa_scheme \<Rightarrow> 'a Alsa_scheme option" where
  "adev_close_input_stream w ad =
     map_option (\<lambda>ad1. (set_in (\<lambda>s. s\<lparr>i_pcm := NoPcm, i_resampler := False, i_echo := None, need_echo := False, effects := []\<rparr>) ad1)
                          \<lparr>stale_input := active_input ad1\<rparr>)
       (do_input_standby w ad)"

definition no_input :: stream_in where
  "no_input = \<lparr>i_pcm = NoPcm, i_device = 0, i_rate = 0, i_channels = 0, i_format = 0, i_resampler = False, read_buf = [],
     read_buf_frames = 0, tmp_size = 0, tmp_alloc = 0, requested_rate = 0, requested_channel = 0, i_standby = True,
     i_echo = None, need_echo = False, effects = [], main_channels = 0, aux_channels = 0, proc_buf = [], read_status = 0,
     mute_500ms = 0, last_xrun = 0, i_reads = 0, ref_buf = [], ref_buf_size = 0, ref_log = []\<rparr>"

text \<open>The memory of the new device is zero; the list of known cards is static.\<close>

definition adev_zero :: "audio_card list \<Rightarrow> Alsa" where
  "adev_zero cs = \<lparr>cards = cs, card_list = replicate MAX_AUDIO_CARD_NUM None, mixers = replicate MAX_AUDIO_CARD_NUM None,
     audio_card_num = 0, mm_rate = 44100, usb_card_name = [], ad_mode = 0, in_device = 0, out_device = 0, in_call = False,
     tty_mode = TTY_MODE_OFF, active_input = False, stale_input = False, in_source = 0, mix_log = [], mic_mute = False, low_power = False,
     default_rate = 0, device_is_auto = False, prim_out = None, hdmi_out = None, esai_out = None, in_stream = no_input,
     in_card_idx = 0, echo_ref = None, echo_count = 0, pcm_log = [], pcm_writes = 0, fx_log = []\<rparr>"

text \<open>The name of the device and the model of the phone are arguments.\<close>

definition adev_open :: "Os \<Rightarrow> bool \<Rightarrow> string \<Rightarrow> audio_card list \<Rightarrow> (int \<times> Alsa option) option" where
  "adev_open w named product cs =
     (if \<not> named then Some (- EINVAL, None)
      else
        (case scan_available_device (os_bits w) (os_sys w) True (adev_zero cs) of
           None \<Rightarrow> None
         | Some (e, ad1) \<Rightarrow>
             if e \<noteq> 0 then Some (e, None)
             else
               (case route_all (os_mixers w) (defaults, True) (ad1\<lparr>default_rate := mm_rate ad1\<rparr>) of
                  None \<Rightarrow> None
                | Some ad2 \<Rightarrow>
                    (let b = os_bits w in
                     map_option (\<lambda>ad3. (0, Some (ad3\<lparr>tty_mode := TTY_MODE_OFF, device_is_auto := is_infix ''sabreauto'' product\<rparr>)))
                       (select_output_device (os_mixers w) b
                          (ad2\<lparr>ad_mode := mode_normal b, out_device := out_speaker b,
                               in_device := in_builtin_mic b AND NOT (bit_in b)\<rparr>))))))"

section \<open>Sequences of calls\<close>

datatype alsa_call =
    OpenOutput bool u32 nat u32
  | CloseOutput out_slot
  | StandbyOutput out_slot
  | SetOutput out_slot "string option"
  | WriteOutput out_slot "int list"
  | OpenInput u32 nat bool u32
  | CloseInput
  | StandbyInput
  | SetInput "string option" "string option"
  | ReadInput nat
  | AddEffect nat
  | RemoveEffect nat
  | SetMode int
  | SetParameters "string option" "string option"
  | SetMicMute bool

text \<open>
  A call on a playback stream that is not open has no result. A capture stream is opened when none runs: the
  one before has been closed.
\<close>

fun alsa_step :: "Os \<Rightarrow> alsa_call \<Rightarrow> 'a Alsa_scheme \<Rightarrow> 'a Alsa_scheme option" where
  "alsa_step w (OpenOutput direct d r m) ad = map_option snd (adev_open_output_stream w direct d r m ad)"
| "alsa_step w (CloseOutput k) ad = (if active_output k ad = None then None else Some (adev_close_output_stream k ad))"
| "alsa_step w (StandbyOutput k) ad = (if active_output k ad = None then None else Some (do_output_standby k ad))"
| "alsa_step w (SetOutput k dev) ad = (if active_output k ad = None then None else out_set_parameters w k dev ad)"
| "alsa_step w (WriteOutput OUTPUT_PRIMARY xs) ad = map_option snd (out_write_primary w xs ad)"
| "alsa_step w (WriteOutput OUTPUT_HDMI xs) ad = map_option snd (out_write_hdmi w xs ad)"
| "alsa_step w (WriteOutput OUTPUT_ESAI xs) ad = map_option snd (out_write_esai w xs ad)"
| "alsa_step w (OpenInput d r pcm16 m) ad =
     (if i_standby (in_stream ad) then map_option snd (adev_open_input_stream w d r pcm16 m ad) else None)"
| "alsa_step w CloseInput ad = adev_close_input_stream w ad"
| "alsa_step w StandbyInput ad = do_input_standby w ad"
| "alsa_step w (SetInput src dev) ad = in_set_parameters w src dev ad"
| "alsa_step w (ReadInput n) ad = map_option snd (in_read w n ad)"
| "alsa_step w (AddEffect h) ad = map_option snd (in_add_audio_effect w h ad)"
| "alsa_step w (RemoveEffect h) ad = map_option snd (in_remove_audio_effect w h ad)"
| "alsa_step w (SetMode m) ad = adev_set_mode w m ad"
| "alsa_step w (SetParameters tty screen) ad = map_option snd (adev_set_parameters w tty screen ad)"
| "alsa_step w (SetMicMute x) ad = Some (adev_set_mic_mute x ad)"

definition alsa_run :: "Os \<Rightarrow> alsa_call list \<Rightarrow> 'a Alsa_scheme \<Rightarrow> 'a Alsa_scheme option" where
  "alsa_run w = foldM (alsa_step w)"

end
