(* ===== verification/Alsa_Desk.thy ===== *)
theory Alsa_Desk
  imports Alsa_Hal
begin

text \<open>
  What the streams of the ALSA audio HAL hold, seen apart from the rest of its state: a \<open>desk\<close> has for every playback
  stream its PCMs, whether it runs and its echo reference, the PCM of the capture stream and its effects, and the log of
  what was opened and closed. Standby and the starts of the streams are described on desks, and the invariant
  \<open>hal_ok\<close> is kept by them.
\<close>

section \<open>What the paths and the scan leave alone\<close>

lemma foldM_log:
  assumes "\<And>x s s'. f x s = Some s' \<Longrightarrow> \<exists>l. s' = s\<lparr>mix_log := l\<rparr>" and "foldM f xs s = Some s'"
  shows "\<exists>l. s' = s\<lparr>mix_log := l\<rparr>"
  using assms(2)
proof (induction xs arbitrary: s)
  case (Cons x xs)
  then obtain u where u: "f x s = Some u" and r: "foldM f xs u = Some s'" by (auto split: option.splits)
  from assms(1) [OF u] Cons.IH [OF r] show ?case by auto
qed (auto intro: exI [of _ "mix_log s'"])

lemma route_all_log: "route_all mx st ad = Some ad' \<Longrightarrow> \<exists>l. ad' = ad\<lparr>mix_log := l\<rparr>"
  unfolding route_all_def by (rule foldM_log) (auto simp: route_card_def split: option.splits)

lemma select_output_log: "select_output_device mx b ad = Some ad' \<Longrightarrow> \<exists>l. ad' = ad\<lparr>mix_log := l\<rparr>"
  by (auto simp: select_output_device_def simp del: foldM.simps split: prod.splits dest!: foldM_log [rotated] intro: route_all_log)

lemma select_input_log: "select_input_device mx b ad = Some ad' \<Longrightarrow> \<exists>l. ad' = ad\<lparr>mix_log := l\<rparr>"
  by (auto simp: select_input_device_def Let_def split: if_splits dest: route_all_log)

lemma audio_mode_log: "cavan_set_audio_mode mx b m ad = Some ad' \<Longrightarrow> \<exists>l. ad' = ad\<lparr>mix_log := l\<rparr>"
  by (auto simp: cavan_set_audio_mode_def split: if_splits dest: route_all_log)

lemma scan_listed_more:
  "scan_listed rescan j name m k scanned n l ad = Some (s, n', k', l', ad') \<Longrightarrow> Cards.more ad' = Cards.more ad"
proof (induction rescan j name m k scanned n l ad rule: scan_listed.induct)
  case (1 rescan j name m k scanned n l ad)
  from 1(4) show ?case
    by (subst (asm) scan_listed.simps) (auto simp: Let_def split: if_splits option.splits dest: 1(1-3))
qed

lemma enter_card_more: "Cards.more (snd (enter_card b w i j n ad)) = Cards.more ad"
  by (simp add: enter_card_def Let_def)

lemma scan_loop_more: "scan_loop b w rescan is k l ad = Some (k', l', ad') \<Longrightarrow> Cards.more ad' = Cards.more ad"
proof (induction "is" arbitrary: k l ad)
  case (Cons i "is")
  then show ?case
    by (auto split: option.splits prod.splits if_splits dest!: scan_listed_more Cons.IH)
      (metis enter_card_more snd_conv)+
qed simp

lemma scan_more: "scan_available_device b w rescan ad = Some (e, ad') \<Longrightarrow> Cards.more ad' = Cards.more ad"
  by (auto simp: scan_available_device_def Let_def fill_null_def split: option.splits prod.splits if_splits dest!: scan_loop_more)

section \<open>What the streams hold\<close>

text \<open>A playback stream is a line; a desk has the lines and what the capture stream and the log say.\<close>

record line =
  l_pcms :: "int option \<times> int option \<times> int option"
  l_run :: bool
  l_echo :: "nat option"

record desk =
  d_out :: "out_slot \<Rightarrow> line option"
  d_pcm :: pcm_ref
  d_rec :: bool
  d_rec_echo :: "nat option"
  d_live :: "nat option"
  d_active :: bool
  d_call :: bool
  d_flag :: bool
  d_log :: "pcm_op list"
  d_fx :: "effect list \<times> u32 \<times> u32 \<times> u32"

definition line_of :: "stream_out \<Rightarrow> line" where
  "line_of p = \<lparr>l_pcms = (o_normal p, o_hdmi p, o_esai p), l_run = (\<not> o_standby p), l_echo = o_echo p\<rparr>"

text \<open>The effects of the capture stream, its device, and its main and auxiliary channels.\<close>

definition fx_of :: "stream_in \<Rightarrow> effect list \<times> u32 \<times> u32 \<times> u32" where
  "fx_of s = (effects s, i_device s, main_channels s, aux_channels s)"

definition desk_of :: "Os \<Rightarrow> 'a Alsa_scheme \<Rightarrow> desk" where
  "desk_of w ad = \<lparr>d_out = (\<lambda>k. map_option line_of (active_output k ad)), d_pcm = i_pcm (in_stream ad),
     d_rec = (\<not> i_standby (in_stream ad)), d_rec_echo = i_echo (in_stream ad), d_live = echo_ref ad,
     d_active = active_input ad, d_call = (ad_mode ad = mode_in_call (os_bits w)), d_flag = in_call ad, d_log = pcm_log ad,
     d_fx = fx_of (in_stream ad)\<rparr>"

fun pcm_opens :: "pcm_op list \<Rightarrow> int multiset" where
  "pcm_opens [] = {#}"
| "pcm_opens (PcmOpen c ok # xs) = add_mset c (pcm_opens xs)"
| "pcm_opens (x # xs) = pcm_opens xs"

fun pcm_closes :: "pcm_op list \<Rightarrow> int multiset" where
  "pcm_closes [] = {#}"
| "pcm_closes (PcmClose c # xs) = add_mset c (pcm_closes xs)"
| "pcm_closes (x # xs) = pcm_closes xs"

lemma opened_append [simp]: "pcm_opens (xs @ ys) = pcm_opens xs + pcm_opens ys"
  by (induction xs rule: pcm_opens.induct) simp_all

lemma closed_append [simp]: "pcm_closes (xs @ ys) = pcm_closes xs + pcm_closes ys"
  by (induction xs rule: pcm_closes.induct) simp_all

definition one :: "int option \<Rightarrow> int multiset" where
  "one x = (case x of None \<Rightarrow> {#} | Some c \<Rightarrow> {#c#})"

lemma one_simps [simp]: "one None = {#}" "one (Some c) = {#c#}"
  by (simp_all add: one_def)

definition line_held :: "line option \<Rightarrow> int multiset" where
  "line_held x = (case x of None \<Rightarrow> {#} | Some y \<Rightarrow> (case l_pcms y of (n, h, e) \<Rightarrow> one n + one h + one e))"

lemma line_held_simps [simp]: "line_held None = {#}"
  "line_held (Some y) = one (fst (l_pcms y)) + one (fst (snd (l_pcms y))) + one (snd (snd (l_pcms y)))"
  by (simp_all add: line_held_def split: prod.splits)

definition rec_held :: "pcm_ref \<Rightarrow> int multiset" where
  "rec_held x = (case x of OpenPcm c \<Rightarrow> {#c#} | _ \<Rightarrow> {#})"

lemma rec_held_simps [simp]: "rec_held NoPcm = {#}" "rec_held ClosedPcm = {#}" "rec_held (OpenPcm c) = {#c#}"
  by (simp_all add: rec_held_def)

definition held :: "desk \<Rightarrow> int multiset" where
  "held d = line_held (d_out d OUTPUT_PRIMARY) + line_held (d_out d OUTPUT_HDMI) + line_held (d_out d OUTPUT_ESAI) +
     rec_held (d_pcm d)"

definition runs :: "line option \<Rightarrow> bool" where
  "runs x = (case x of None \<Rightarrow> False | Some y \<Rightarrow> l_run y)"

lemma runs_simps [simp]: "runs None = False" "runs (Some y) = l_run y"
  by (simp_all add: runs_def)

text \<open>Which PCMs a stream can have, and that one that runs has some; only the primary one feeds the echo reference.\<close>

definition desk_line_ok :: "out_slot \<Rightarrow> line \<Rightarrow> bool" where
  "desk_line_ok k y =
     ((k = OUTPUT_PRIMARY \<longrightarrow> snd (snd (l_pcms y)) = None) \<and>
      (k = OUTPUT_HDMI \<longrightarrow> fst (l_pcms y) = None \<and> snd (snd (l_pcms y)) = None) \<and>
      (k = OUTPUT_ESAI \<longrightarrow> fst (l_pcms y) = None \<and> fst (snd (l_pcms y)) = None) \<and>
      (l_run y \<longrightarrow> l_pcms y \<noteq> (None, None, None)) \<and> (\<not> l_run y \<or> k \<noteq> OUTPUT_PRIMARY \<longrightarrow> l_echo y = None))"

definition desk_ok :: "desk \<Rightarrow> bool" where
  "desk_ok d =
     ((\<forall>k y. d_out d k = Some y \<longrightarrow> desk_line_ok k y) \<and>
      (d_rec d \<longrightarrow> (\<exists>c. d_pcm d = OpenPcm c) \<and> d_active d) \<and> (\<not> d_rec d \<longrightarrow> rec_held (d_pcm d) = {#}) \<and>
      (\<forall>e. d_rec_echo d = Some e \<longrightarrow> d_live d = Some e) \<and>
      (\<forall>y e. d_out d OUTPUT_PRIMARY = Some y \<and> l_echo y = Some e \<longrightarrow> d_live d = Some e) \<and>
      d_flag d = d_call d \<and> (d_call d \<longrightarrow> (\<forall>k. \<not> runs (d_out d k)) \<and> \<not> d_rec d))"

text \<open>
  When every PCM can be opened: a stream in standby has none, the primary one leaves the cards of the direct
  streams that run to them, and the PCMs that were opened and not closed are those the streams have.
\<close>

definition desk_books :: "desk \<Rightarrow> bool" where
  "desk_books d =
     ((\<forall>k y. d_out d k = Some y \<and> \<not> l_run y \<longrightarrow> l_pcms y = (None, None, None)) \<and>
      (\<forall>y. d_out d OUTPUT_PRIMARY = Some y \<and> runs (d_out d OUTPUT_HDMI) \<longrightarrow> fst (snd (l_pcms y)) = None) \<and>
      (\<forall>y. d_out d OUTPUT_PRIMARY = Some y \<and> runs (d_out d OUTPUT_ESAI) \<longrightarrow> fst (l_pcms y) = None) \<and>
      pcm_opens (d_log d) = pcm_closes (d_log d) + held d)"

definition all_ready :: "Os \<Rightarrow> bool" where
  "all_ready w = (\<forall>l c. os_ready w l c)"

text \<open>At most three effects, and auxiliary channels only when the microphone and every effect support them.\<close>

definition fx_ok :: "Bits \<Rightarrow> effect list \<times> u32 \<times> u32 \<times> u32 \<Rightarrow> bool" where
  "fx_ok b x =
     (case x of (es, dv, m, a) \<Rightarrow>
        length es \<le> MAX_PREPROCESSORS \<and>
        (a \<noteq> 0 \<longrightarrow> dv AND (in_builtin_mic b OR in_back_mic b) \<noteq> 0 \<and> (m, a) \<in> set (in_aux_cnl_configs b) \<and>
                   (\<forall>e \<in> set es. (m, a) \<in> set (ef_configs e))))"

definition hal_ok :: "Os \<Rightarrow> desk \<Rightarrow> bool" where
  "hal_ok w d = (desk_ok d \<and> (all_ready w \<longrightarrow> desk_books d) \<and> fx_ok (os_bits w) (d_fx d))"

section \<open>Standby on a desk\<close>

definition closes :: "int option \<times> int option \<times> int option \<Rightarrow> pcm_op list" where
  "closes x = (case x of (n, h, e) \<Rightarrow>
     concat (map (\<lambda>y. case y of None \<Rightarrow> [] | Some c \<Rightarrow> [PcmClose c]) [n, h, e]))"

lemma closes_books [simp]: "pcm_opens (closes (n, h, e)) = {#}" "pcm_closes (closes (n, h, e)) = one n + one h + one e"
  by (auto simp: closes_def one_def split: option.splits)

lemma echo_books [simp]: "pcm_opens (case x of None \<Rightarrow> [] | Some e \<Rightarrow> [EchoWrite e]) = {#}"
  "pcm_closes (case x of None \<Rightarrow> [] | Some e \<Rightarrow> [EchoWrite e]) = {#}"
  by (simp_all split: option.splits)

definition d_standby :: "out_slot \<Rightarrow> desk \<Rightarrow> desk" where
  "d_standby k d =
     (case d_out d k of
        None \<Rightarrow> d
      | Some y \<Rightarrow>
          if l_run y
          then d\<lparr>d_out := (d_out d)(k \<mapsto> \<lparr>l_pcms = (None, None, None), l_run = False, l_echo = None\<rparr>),
                 d_log := d_log d @ closes (l_pcms y) @ (case l_echo y of None \<Rightarrow> [] | Some e \<Rightarrow> [EchoWrite e])\<rparr>
          else d)"

lemma active_put [simp]: "active_output j (put_output k x ad) = (if j = k then x else active_output j ad)"
  by (cases j; cases k) simp_all

lemma put_fields [simp]:
  "in_stream (put_output k x ad) = in_stream ad" "echo_ref (put_output k x ad) = echo_ref ad"
  "active_input (put_output k x ad) = active_input ad" "ad_mode (put_output k x ad) = ad_mode ad"
  "in_call (put_output k x ad) = in_call ad" "pcm_log (put_output k x ad) = pcm_log ad"
  by (cases k; simp)+

lemma active_log [simp]: "active_output k (ad\<lparr>pcm_log := l\<rparr>) = active_output k ad"
  by (cases k) simp_all

lemma out_closes: "map (\<lambda>(c, r). PcmClose c) (out_pcms p) = closes (l_pcms (line_of p))"
  by (simp add: out_pcms_def closes_def line_of_def split: option.splits)

lemma standby_desk: "desk_of w (do_output_standby k ad) = d_standby k (desk_of w ad)"
proof (cases "active_output k ad")
  case (Some p)
  then show ?thesis
    by (cases "o_standby p")
      (auto simp: do_output_standby_def d_standby_def desk_of_def set_out_def out_closes line_of_def fun_eq_iff)
qed (simp add: do_output_standby_def d_standby_def desk_of_def)

lemma d_standby_fx [simp]: "d_fx (d_standby k d) = d_fx d"
  by (simp add: d_standby_def split: option.splits)

lemma d_standby_stops: "\<not> runs (d_out (d_standby k d) k)"
  by (simp add: d_standby_def runs_def split: option.splits)

lemma d_standby_ok:
  assumes "hal_ok w d"
  shows "hal_ok w (d_standby k d)"
proof (cases "d_out d k")
  case (Some y)
  show ?thesis
  proof (cases "l_run y")
    case True
    obtain n h e where y: "l_pcms y = (n, h, e)" by (cases "l_pcms y") auto
    have "desk_ok (d_standby k d)"
      using assms Some True by (auto simp: hal_ok_def desk_ok_def d_standby_def desk_line_ok_def)
    moreover have "desk_books (d_standby k d)" if "all_ready w"
      using assms Some True that y
      by (cases k) (auto simp: hal_ok_def desk_books_def d_standby_def held_def ac_simps)
    ultimately show ?thesis using assms by (simp add: hal_ok_def)
  qed (use assms Some in \<open>simp add: d_standby_def\<close>)
qed (use assms in \<open>simp add: d_standby_def\<close>)

lemma desk_eqI:
  assumes "prim_out ad' = prim_out ad" "hdmi_out ad' = hdmi_out ad" "esai_out ad' = esai_out ad"
    "in_stream ad' = in_stream ad" "echo_ref ad' = echo_ref ad" "active_input ad' = active_input ad"
    "ad_mode ad' = ad_mode ad" "in_call ad' = in_call ad" "pcm_log ad' = pcm_log ad"
  shows "desk_of w ad' = desk_of w ad"
proof -
  have "active_output k ad' = active_output k ad" for k using assms by (cases k) simp_all
  then show ?thesis using assms by (simp add: desk_of_def)
qed

lemma scan_desk:
  fixes ad ad' :: "'a Alsa_scheme"
  assumes "scan_available_device b y rescan ad = Some (e, ad')"
  shows "desk_of w ad' = desk_of w ad"
proof -
  have m: "Cards.more ad' = Cards.more ad" using assms by (rule scan_more)
  show ?thesis by (rule desk_eqI) (use m in \<open>cases ad; cases ad'; simp\<close>)+
qed

lemma log_desk [simp]: "desk_of w (ad\<lparr>mix_log := l\<rparr>) = desk_of w ad"
  by (rule desk_eqI) simp_all

lemma in_device_desk [simp]: "desk_of w (ad\<lparr>in_device := u\<rparr>) = desk_of w ad"
  by (rule desk_eqI) simp_all

lemma select_output_desk: "select_output_device mx b ad = Some ad' \<Longrightarrow> desk_of w ad' = desk_of w ad"
  by (auto dest!: select_output_log)

lemma select_input_desk: "select_input_device mx b ad = Some ad' \<Longrightarrow> desk_of w ad' = desk_of w ad"
  by (auto dest!: select_input_log)

lemma audio_mode_desk: "cavan_set_audio_mode mx b m ad = Some ad' \<Longrightarrow> desk_of w ad' = desk_of w ad"
  by (auto dest!: audio_mode_log)

text \<open>Freeing the echo reference, and standby of the capture stream.\<close>

definition d_put :: "nat option \<Rightarrow> desk \<Rightarrow> desk" where
  "d_put r d =
     (case d_live d of
        None \<Rightarrow> d
      | Some e \<Rightarrow>
          if r = Some e then
            (case d_out d OUTPUT_PRIMARY of
               None \<Rightarrow> d\<lparr>d_log := d_log d @ [EchoFree e], d_live := None\<rparr>
             | Some y \<Rightarrow>
                 if l_run y \<and> l_echo y = Some e
                 then d\<lparr>d_out := (d_out d)(OUTPUT_PRIMARY \<mapsto> y\<lparr>l_echo := None\<rparr>), d_log := d_log d @ [EchoWrite e, EchoFree e],
                        d_live := None\<rparr>
                 else d\<lparr>d_log := d_log d @ [EchoFree e], d_live := None\<rparr>)
          else d)"

lemma put_echo_desk: "desk_of w (put_echo_reference r ad) = d_put r (desk_of w ad)"
proof -
  have k: "active_output k (ad\<lparr>prim_out := x, pcm_log := l, echo_ref := e\<rparr>) =
      (if k = OUTPUT_PRIMARY then x else active_output k ad)" 
     "active_output k (ad\<lparr>pcm_log := l, echo_ref := e\<rparr>) = active_output k ad" for k x l e by (cases k; simp)+
  show ?thesis
    by (cases "echo_ref ad"; cases "prim_out ad")
      (auto simp: put_echo_reference_def remove_echo_reference_def d_put_def desk_of_def prim_running_def set_prim_def did_def
        line_of_def fun_eq_iff k)
qed

lemma d_put_fx [simp]: "d_fx (d_put r d) = d_fx d"
  by (simp add: d_put_def split: option.splits)

definition d_stop :: "desk \<Rightarrow> desk" where
  "d_stop d =
     (if \<not> d_rec d then d
      else
        (let d1 = d\<lparr>d_log := d_log d @ (case d_pcm d of OpenPcm c \<Rightarrow> [PcmClose c] | _ \<Rightarrow> []), d_pcm := NoPcm, d_active := False\<rparr>;
             d2 = (case d_rec_echo d of
                     None \<Rightarrow> d1
                   | Some e \<Rightarrow> (d_put (Some e) (d1\<lparr>d_log := d_log d1 @ [EchoRead e]\<rparr>))\<lparr>d_rec_echo := None\<rparr>)
         in d2\<lparr>d_rec := False\<rparr>))"

lemma active_in [simp]:
  "active_output k (ad\<lparr>in_stream := s\<rparr>) = active_output k ad" "active_output k (ad\<lparr>active_input := x\<rparr>) = active_output k ad"
  "active_output k (ad\<lparr>stale_input := x\<rparr>) = active_output k ad"
  "active_output k (ad\<lparr>in_device := u\<rparr>) = active_output k ad"
  by (cases k; simp)+

lemma echo_none_desk: "desk_of w (set_in (\<lambda>s. s\<lparr>i_echo := None\<rparr>) x) = (desk_of w x)\<lparr>d_rec_echo := None\<rparr>"
  by (simp add: desk_of_def set_in_def fx_of_def)

lemma d_stop_fx [simp]: "d_fx (d_stop d) = d_fx d"
  by (simp add: d_stop_def Let_def split: option.splits)

lemma in_standby_desk:
  assumes "do_input_standby w ad = Some ad'"
  shows "desk_of w ad' = d_stop (desk_of w ad)"
proof (cases "i_standby (in_stream ad)")
  case False
  let ?ad1 = "(set_in (\<lambda>s. s\<lparr>i_pcm := NoPcm, last_xrun := 0\<rparr>) (close_in ad))\<lparr>active_input := False\<rparr>"
  from assms False obtain ad2 where
    s: "(if ad_mode ?ad1 \<noteq> mode_in_call (os_bits w)
          then select_input_device (os_mixers w) (os_bits w) (?ad1\<lparr>in_device := 0\<rparr>) else Some ?ad1) = Some ad2" and
    ad': "ad' = set_in (\<lambda>s. s\<lparr>i_standby := True\<rparr>) (drop_in_echo ad2)"
    by (auto simp: do_input_standby_def Let_def split: option.splits)
  have "desk_of w ad2 = desk_of w ?ad1"
    using s by (auto split: if_splits dest!: select_input_desk [where w = w])
  also have d1: "\<dots> = (desk_of w ad)\<lparr>d_log := d_log (desk_of w ad) @ (case d_pcm (desk_of w ad) of OpenPcm c \<Rightarrow> [PcmClose c] | _ \<Rightarrow> []),
      d_pcm := NoPcm, d_active := False\<rparr>"
    by (cases "i_pcm (in_stream ad)") (auto simp: desk_of_def close_in_def set_in_def did_def fx_of_def)
  finally have d2: "desk_of w ad2 = (desk_of w ad)\<lparr>d_log := d_log (desk_of w ad) @ (case d_pcm (desk_of w ad) of OpenPcm c \<Rightarrow> [PcmClose c] | _ \<Rightarrow> []),
      d_pcm := NoPcm, d_active := False\<rparr>" .
  have sb: "desk_of w (set_in (\<lambda>s. s\<lparr>i_standby := True\<rparr>) a) = (desk_of w a)\<lparr>d_rec := False\<rparr>" for a
    by (simp add: desk_of_def set_in_def fx_of_def)
  have e: "desk_of w (drop_in_echo a) = (case d_rec_echo (desk_of w a) of None \<Rightarrow> desk_of w a
      | Some e \<Rightarrow> (d_put (Some e) ((desk_of w a)\<lparr>d_log := d_log (desk_of w a) @ [EchoRead e]\<rparr>))\<lparr>d_rec_echo := None\<rparr>)" for a
  proof (cases "i_echo (in_stream a)")
    case (Some e)
    have "desk_of w (did (EchoRead e) a) = (desk_of w a)\<lparr>d_log := d_log (desk_of w a) @ [EchoRead e]\<rparr>"
      by (simp add: desk_of_def did_def)
    then have "desk_of w (put_echo_reference (Some e) (did (EchoRead e) a)) =
        d_put (Some e) ((desk_of w a)\<lparr>d_log := d_log (desk_of w a) @ [EchoRead e]\<rparr>)" by (simp add: put_echo_desk)
    moreover have "d_rec_echo (desk_of w a) = Some e" using Some by (simp add: desk_of_def)
    ultimately show ?thesis using Some by (simp add: drop_in_echo_def echo_none_desk)
  qed (simp add: drop_in_echo_def desk_of_def)
  have r: "d_rec (desk_of w ad)" "d_rec_echo (desk_of w ad2) = d_rec_echo (desk_of w ad)"
    using False d2 by (simp_all add: desk_of_def)
  show ?thesis unfolding ad' sb e d_stop_def Let_def using r d2 by (simp split: option.splits)
qed (use assms in \<open>simp add: do_input_standby_def d_stop_def desk_of_def\<close>)

lemma d_put_cases:
  assumes "r = d_live d"
  obtains "d_put r d = d" "d_live d = None"
    | e where "d_put r d = d\<lparr>d_log := d_log d @ [EchoFree e], d_live := None\<rparr>" "d_live d = Some e"
        "\<forall>y. d_out d OUTPUT_PRIMARY = Some y \<longrightarrow> l_run y \<longrightarrow> l_echo y \<noteq> Some e"
    | e y where "d_put r d = d\<lparr>d_out := (d_out d)(OUTPUT_PRIMARY \<mapsto> y\<lparr>l_echo := None\<rparr>),
          d_log := d_log d @ [EchoWrite e, EchoFree e], d_live := None\<rparr>" "d_live d = Some e"
        "d_out d OUTPUT_PRIMARY = Some y" "l_run y" "l_echo y = Some e"
proof (cases "d_live d")
  case None
  then show ?thesis using assms that(1) by (simp add: d_put_def)
next
  case (Some e)
  show ?thesis
  proof (cases "\<exists>y. d_out d OUTPUT_PRIMARY = Some y \<and> l_run y \<and> l_echo y = Some e")
    case True
    then obtain y where "d_out d OUTPUT_PRIMARY = Some y" "l_run y" "l_echo y = Some e" by blast
    then show ?thesis using assms Some by (intro that(3)) (simp_all add: d_put_def)
  next
    case False
    then show ?thesis using assms Some by (intro that(2)) (auto simp: d_put_def split: option.splits)
  qed
qed

lemma hal_lineD: "hal_ok w d \<Longrightarrow> d_out d k = Some y \<Longrightarrow> desk_line_ok k y"
  unfolding hal_ok_def desk_ok_def by blast

lemma hal_echoD: "hal_ok w d \<Longrightarrow> d_out d OUTPUT_PRIMARY = Some y \<Longrightarrow> l_echo y = Some e \<Longrightarrow> d_live d = Some e"
  unfolding hal_ok_def desk_ok_def by blast

lemma prim_echo:
  assumes "hal_ok w d" and "d_out d OUTPUT_PRIMARY = Some y"
  shows "l_run y \<or> l_echo y = None" "l_echo y = None \<or> l_echo y = d_live d"
proof -
  show "l_run y \<or> l_echo y = None" using hal_lineD [OF assms] by (auto simp: desk_line_ok_def)
  show "l_echo y = None \<or> l_echo y = d_live d" using hal_echoD [OF assms] by (cases "l_echo y") auto
qed

lemma books_same:
  assumes b: "desk_books d" and o: "\<And>k. map_option (\<lambda>y. (l_pcms y, l_run y)) (d_out d' k) = map_option (\<lambda>y. (l_pcms y, l_run y)) (d_out d k)"
    and p: "d_pcm d' = d_pcm d" and l: "d_log d' = d_log d @ l" "pcm_opens l = {#}" "pcm_closes l = {#}"
  shows "desk_books d'"
proof -
  have some: "\<exists>z. d_out d k = Some z \<and> l_pcms y = l_pcms z \<and> l_run y = l_run z" if "d_out d' k = Some y" for k y
    using o [of k] that by (cases "d_out d k") auto
  have r: "runs (d_out d' k) = runs (d_out d k)" "line_held (d_out d' k) = line_held (d_out d k)" for k
    using o [of k] by (cases "d_out d k"; cases "d_out d' k"; auto)+
  have "l_pcms y = (None, None, None)" if "d_out d' k = Some y" "\<not> l_run y" for k y
    using some [OF that(1)] b that(2) by (auto simp: desk_books_def)
  moreover have "fst (snd (l_pcms y)) = None" if "d_out d' OUTPUT_PRIMARY = Some y" "runs (d_out d' OUTPUT_HDMI)" for y
    using some [OF that(1)] b that(2) by (auto simp: desk_books_def r)
  moreover have "fst (l_pcms y) = None" if "d_out d' OUTPUT_PRIMARY = Some y" "runs (d_out d' OUTPUT_ESAI)" for y
    using some [OF that(1)] b that(2) by (auto simp: desk_books_def r)
  moreover have "pcm_opens (d_log d') = pcm_closes (d_log d') + held d'"
    using b by (simp add: desk_books_def held_def p l r)
  ultimately show ?thesis unfolding desk_books_def by blast
qed

lemma d_put_ok:
  assumes d: "hal_ok w d" and e: "d_rec_echo d = None \<or> r = d_rec_echo d" and r: "r = d_live d"
  shows "hal_ok w ((d_put r d)\<lparr>d_rec_echo := None\<rparr>)"
proof (cases rule: d_put_cases [OF r])
  case 1
  then have "desk_ok ((d_put r d)\<lparr>d_rec_echo := None\<rparr>)" using d by (simp add: hal_ok_def desk_ok_def)
  moreover have "desk_books d \<Longrightarrow> desk_books ((d_put r d)\<lparr>d_rec_echo := None\<rparr>)"
    by (erule books_same [where l = "[]"]) (simp_all add: 1)
  ultimately show ?thesis using d by (simp add: hal_ok_def)
next
  case (2 f)
  have "l_echo y = None" if "d_out d OUTPUT_PRIMARY = Some y" for y
    using prim_echo [OF d that] 2(2,3) that by auto
  then have "desk_ok ((d_put r d)\<lparr>d_rec_echo := None\<rparr>)" using d 2 by (simp add: hal_ok_def desk_ok_def)
  moreover have "desk_books d \<Longrightarrow> desk_books ((d_put r d)\<lparr>d_rec_echo := None\<rparr>)"
    by (erule books_same [where l = "[EchoFree f]"]) (simp_all add: 2)
  ultimately show ?thesis using d by (simp add: hal_ok_def)
next
  case (3 f y)
  have "desk_line_ok OUTPUT_PRIMARY y" using d 3 by (auto simp: hal_ok_def desk_ok_def)
  then have "desk_line_ok OUTPUT_PRIMARY (y\<lparr>l_echo := None\<rparr>)" by (simp add: desk_line_ok_def)
  moreover have "d_call d \<Longrightarrow> \<not> runs (d_out d OUTPUT_PRIMARY)" using d by (simp add: hal_ok_def desk_ok_def)
  then have "\<not> d_call d" using 3(3,4) by auto
  ultimately have "desk_ok ((d_put r d)\<lparr>d_rec_echo := None\<rparr>)" using d 3 by (simp add: hal_ok_def desk_ok_def)
  moreover have "desk_books d \<Longrightarrow> desk_books ((d_put r d)\<lparr>d_rec_echo := None\<rparr>)"
    by (erule books_same [where l = "[EchoWrite f, EchoFree f]"]) (simp_all add: 3)
  ultimately show ?thesis using d by (simp add: hal_ok_def)
qed

lemma d_stop_ok:
  assumes "hal_ok w d"
  shows "hal_ok w (d_stop d)"
proof (cases "d_rec d")
  case True
  then obtain c where c: "d_pcm d = OpenPcm c" using assms by (auto simp: hal_ok_def desk_ok_def)
  define d1 where "d1 = d\<lparr>d_log := d_log d @ [PcmClose c], d_pcm := NoPcm, d_active := False, d_rec := False\<rparr>"
  have 1: "hal_ok w (d1\<lparr>d_log := d_log d1 @ l\<rparr>)" if "pcm_opens l = {#}" "pcm_closes l = {#}" for l
    using assms True c that by (auto simp: hal_ok_def desk_ok_def desk_books_def held_def d1_def)
  show ?thesis
  proof (cases "d_rec_echo d")
    case None
    have "d_stop d = d1" using True c None by (simp add: d_stop_def Let_def d1_def)
    then show ?thesis using 1 [of "[]"] by simp
  next
    case (Some e)
    let ?d2 = "d1\<lparr>d_log := d_log d1 @ [EchoRead e]\<rparr>"
    have "d_live d = Some e" using assms Some by (auto simp: hal_ok_def desk_ok_def)
    then have "hal_ok w ((d_put (Some e) ?d2)\<lparr>d_rec_echo := None\<rparr>)"
      using 1 [of "[EchoRead e]"] Some by (intro d_put_ok) (simp_all add: d1_def)
    moreover have "d_stop d = (d_put (Some e) ?d2)\<lparr>d_rec_echo := None\<rparr>"
      using True c Some by (simp add: d_stop_def Let_def d1_def d_put_def split: option.splits)
    ultimately show ?thesis by simp
  qed
qed (use assms in \<open>simp add: d_stop_def\<close>)

lemma d_stop_stops: "\<not> d_rec (d_stop d)"
  by (simp add: d_stop_def Let_def)

section \<open>Starting the primary stream\<close>

definition d_run :: "out_slot \<Rightarrow> desk \<Rightarrow> desk" where
  "d_run k d = d\<lparr>d_out := (d_out d)(k := map_option (\<lambda>y. y\<lparr>l_run := True\<rparr>) (d_out d k))\<rparr>"

lemma open_normal_cases:
  assumes "open_normal w p ad = Some (e, nr, p1, ad1)"
  shows "e \<noteq> 0 \<and> ad1 = ad \<and> line_of p1 = line_of p \<or>
    (\<exists>c. e = 0 \<and> nr = os_ready w (pcm_log ad) c \<and> ad1 = did (PcmOpen c nr) ad \<and> o_normal p1 = Some c \<and>
       o_hdmi p1 = o_hdmi p \<and> o_esai p1 = o_esai p \<and> o_standby p1 = o_standby p \<and> o_echo p1 = o_echo p)"
  using assms
  by (auto simp: open_normal_def dock_config_def open_pcm_def Let_def line_of_def split: option.splits if_splits)

lemma open_hdmi_cases:
  assumes "open_hdmi w p ad = Some (hr, p1, ad1)"
  shows "\<exists>c. hr = os_ready w (pcm_log ad) c \<and> ad1 = did (PcmOpen c hr) ad \<and> o_hdmi p1 = Some c \<and>
       o_normal p1 = o_normal p \<and> o_esai p1 = o_esai p \<and> o_standby p1 = o_standby p \<and> o_echo p1 = o_echo p"
  using assms by (auto simp: open_hdmi_def open_pcm_def Let_def split: option.splits)

text \<open>What opening leaves: the PCMs, what was logged, and whether it succeeded.\<close>

definition outputs_open :: "Os \<Rightarrow> bool \<Rightarrow> bool \<Rightarrow> stream_out \<Rightarrow> 'a Alsa_scheme \<Rightarrow> int \<Rightarrow> stream_out \<Rightarrow> pcm_op list \<Rightarrow> bool" where
  "outputs_open w normal hdmi p ad e p' l =
     (o_esai p' = o_esai p \<and> o_standby p' = o_standby p \<and> (e \<noteq> 0 \<longrightarrow> o_echo p' = o_echo p) \<and>
      (e = 0 \<longrightarrow> (o_normal p' \<noteq> None \<or> o_hdmi p' \<noteq> None) \<and>
         o_echo p' = (if echo_ref ad = None then o_echo p else echo_ref ad)) \<and>
      (all_ready w \<and> o_normal p = None \<and> o_hdmi p = None \<longrightarrow>
         pcm_closes l = {#} \<and> (e = 0 \<longrightarrow> pcm_opens l = one (o_normal p') + one (o_hdmi p')) \<and>
         (o_normal p' \<noteq> None \<longrightarrow> normal) \<and> (o_hdmi p' \<noteq> None \<longrightarrow> hdmi) \<and>
         (e \<noteq> 0 \<longrightarrow> pcm_opens l = {#} \<and> o_normal p' = None \<and> o_hdmi p' = None)))"

lemma close_failed_cases:
  assumes "close_failed nr hr p ad = (p', ad')"
  shows "\<exists>l. ad' = ad\<lparr>pcm_log := pcm_log ad @ l\<rparr> \<and> (nr \<and> hr \<longrightarrow> l = [] \<and> p' = p) \<and>
    o_esai p' = o_esai p \<and> o_standby p' = o_standby p \<and> o_echo p' = o_echo p"
  using assms by (auto simp: close_failed_def did_def Let_def split: option.splits if_splits intro: exI [of _ "[]"])

lemma open_outputs_cases:
  assumes "open_outputs w normal hdmi p ad = Some (e, ad')"
  shows "\<exists>p' l. ad' = ad\<lparr>prim_out := Some p', pcm_log := pcm_log ad @ l\<rparr> \<and> outputs_open w normal hdmi p ad e p' l"
proof -
  obtain e1 nr p1 ad1 where n: "(if normal then open_normal w p ad else Some (0, True, p, ad)) = Some (e1, nr, p1, ad1)"
    using assms by (auto simp: open_outputs_def split: option.splits)
  show ?thesis
  proof (cases "e1 = 0")
    case False
    then have "e = e1" "ad' = ad1\<lparr>prim_out := Some p1\<rparr>" "ad1 = ad" "line_of p1 = line_of p"
      using assms n open_normal_cases [of w p ad e1 nr p1 ad1] by (auto simp: open_outputs_def split: if_splits)
    then show ?thesis using False
      by (intro exI [of _ p1] exI [of _ "[]"]) (auto simp: line_of_def outputs_open_def)
  next
    case True
    obtain hr p2 ad2 where h: "(if hdmi then open_hdmi w p1 ad1 else Some (True, p1, ad1)) = Some (hr, p2, ad2)"
      using assms n True by (auto simp: open_outputs_def split: option.splits)
    obtain p3 ad3 where c: "close_failed nr hr p2 ad2 = (p3, ad3)" by force
    have e: "e = (if (normal \<or> hdmi) \<and> nr \<and> hr then 0 else - ENOMEM)"
      "ad' = ad3\<lparr>prim_out := Some (if e = 0 \<and> echo_ref ad3 \<noteq> None then p3\<lparr>o_echo := echo_ref ad3\<rparr> else p3)\<rparr>"
      using assms n h c True by (auto simp: open_outputs_def ENOMEM_def split: if_splits)
    obtain l1 where 1: "ad1 = ad\<lparr>pcm_log := pcm_log ad @ l1\<rparr>" "o_hdmi p1 = o_hdmi p" "o_esai p1 = o_esai p"
      "o_standby p1 = o_standby p" "o_echo p1 = o_echo p" "normal \<longrightarrow> o_normal p1 \<noteq> None"
      "\<not> normal \<longrightarrow> o_normal p1 = o_normal p" "pcm_closes l1 = {#}" "pcm_opens l1 = (if normal then one (o_normal p1) else {#})"
      "\<not> normal \<or> all_ready w \<longrightarrow> nr"
    proof (cases normal)
      case nt: True
      then obtain c where "nr = os_ready w (pcm_log ad) c" "ad1 = did (PcmOpen c nr) ad" "o_normal p1 = Some c"
        "o_hdmi p1 = o_hdmi p" "o_esai p1 = o_esai p" "o_standby p1 = o_standby p" "o_echo p1 = o_echo p"
        using n True open_normal_cases [of w p ad e1 nr p1 ad1] by auto
      then show ?thesis using nt by (intro that [of "[PcmOpen c nr]"]) (simp_all add: did_def all_ready_def)
    next
      case False
      then show ?thesis using n by (intro that [of "[]"]) simp_all
    qed
    obtain l2 where 2: "ad2 = ad1\<lparr>pcm_log := pcm_log ad1 @ l2\<rparr>" "o_normal p2 = o_normal p1" "o_esai p2 = o_esai p1"
      "o_standby p2 = o_standby p1" "o_echo p2 = o_echo p1" "hdmi \<longrightarrow> o_hdmi p2 \<noteq> None"
      "\<not> hdmi \<longrightarrow> o_hdmi p2 = o_hdmi p1" "pcm_closes l2 = {#}" "pcm_opens l2 = (if hdmi then one (o_hdmi p2) else {#})"
      "\<not> hdmi \<or> all_ready w \<longrightarrow> hr"
    proof (cases hdmi)
      case ht: True
      then obtain c where "hr = os_ready w (pcm_log ad1) c" "ad2 = did (PcmOpen c hr) ad1" "o_hdmi p2 = Some c"
        "o_normal p2 = o_normal p1" "o_esai p2 = o_esai p1" "o_standby p2 = o_standby p1" "o_echo p2 = o_echo p1"
        using h open_hdmi_cases [of w p1 ad1 hr p2 ad2] by auto
      then show ?thesis using ht by (intro that [of "[PcmOpen c hr]"]) (simp_all add: did_def all_ready_def)
    next
      case False
      then show ?thesis using h by (intro that [of "[]"]) simp_all
    qed
    obtain l3 where 3: "ad3 = ad2\<lparr>pcm_log := pcm_log ad2 @ l3\<rparr>" "nr \<and> hr \<longrightarrow> l3 = [] \<and> p3 = p2" "o_esai p3 = o_esai p2"
      "o_standby p3 = o_standby p2" "o_echo p3 = o_echo p2" using close_failed_cases [OF c] by blast
    let ?p = "if e = 0 \<and> echo_ref ad3 \<noteq> None then p3\<lparr>o_echo := echo_ref ad3\<rparr> else p3"
    have "ad' = ad\<lparr>prim_out := Some ?p, pcm_log := pcm_log ad @ l1 @ l2 @ l3\<rparr>"
      using e(2) 1(1) 2(1) 3(1) by simp
    moreover have "outputs_open w normal hdmi p ad e ?p (l1 @ l2 @ l3)"
    proof (cases "e = 0")
      case True
      then have "nr" "hr" "normal \<or> hdmi" using e(1) by (auto simp: ENOMEM_def split: if_splits)
      then show ?thesis using True 1 2 3 by (auto simp: outputs_open_def)
    next
      case False
      then have "\<not> (normal \<or> hdmi) \<or> \<not> nr \<or> \<not> hr" using e(1) by auto
      then have "nr" "hr" "\<not> normal" "\<not> hdmi" if "all_ready w" using that 1(10) 2(10) by auto
      then show ?thesis using False 1(2-5,7-9) 2(2-5,7-9) 3 unfolding outputs_open_def by (cases "all_ready w") simp_all
    qed
    ultimately show ?thesis by blast
  qed
qed

lemma prim_start:
  assumes st: "start_output_stream_primary w ad = Some (e, ad')" and p: "prim_out ad = Some p"
  shows "ad_mode ad = mode_in_call (os_bits w) \<and> e \<noteq> 0 \<and> ad' = ad \<or>
    ad_mode ad \<noteq> mode_in_call (os_bits w) \<and>
    (\<exists>lg p' l normal hdmi. ad' = ad\<lparr>mix_log := lg, prim_out := Some p', pcm_log := pcm_log ad @ l\<rparr> \<and>
      outputs_open w normal hdmi p ad e p' l \<and> (normal \<longrightarrow> idle (esai_out ad)) \<and> (hdmi \<longrightarrow> idle (hdmi_out ad)))"
proof (cases "ad_mode ad = mode_in_call (os_bits w)")
  case False
  then obtain ad1 where s: "select_output_device (os_mixers w) (os_bits w) ad = Some ad1"
    using st by (auto simp: start_output_stream_primary_def cavan_check_audio_mode_def Let_def split: option.splits)
  then obtain lg where a: "ad1 = ad\<lparr>mix_log := lg\<rparr>" by (auto dest: select_output_log)
  then obtain normal hdmi where "open_outputs w normal hdmi p ad1 = Some (e, ad')"
    and i: "normal \<longrightarrow> idle (esai_out ad)" "hdmi \<longrightarrow> idle (hdmi_out ad)"
    using st False s p by (auto simp: start_output_stream_primary_def cavan_check_audio_mode_def Let_def)
  then obtain p' l where "ad' = ad1\<lparr>prim_out := Some p', pcm_log := pcm_log ad1 @ l\<rparr>"
    and "outputs_open w normal hdmi p ad1 e p' l" using open_outputs_cases by blast
  then have "ad' = ad\<lparr>mix_log := lg, prim_out := Some p', pcm_log := pcm_log ad @ l\<rparr> \<and> outputs_open w normal hdmi p ad e p' l"
    using a by (simp add: outputs_open_def)
  then show ?thesis using False i by blast
qed (use st in \<open>auto simp: start_output_stream_primary_def cavan_check_audio_mode_def EBUSY_def\<close>)

lemma line_of_idle: "idle x = (\<not> runs (map_option line_of x))"
  by (cases x) (simp_all add: idle_def line_of_def)

lemma active_prim [simp]:
  "active_output k (ad\<lparr>mix_log := lg\<rparr>) = active_output k ad"
  "active_output k (ad\<lparr>prim_out := x\<rparr>) = (if k = OUTPUT_PRIMARY then x else active_output k ad)"
  by (cases k; simp)+

lemma line_books:
  assumes b: "desk_books d" and h: "line_held (d_out d k) = {#}" and l: "pcm_closes l = {#}" "pcm_opens l = line_held (Some y)"
    and s: "l_run y \<or> l_pcms y = (None, None, None)"
    and x: "k = OUTPUT_PRIMARY \<Longrightarrow> runs (d_out d OUTPUT_HDMI) \<Longrightarrow> fst (snd (l_pcms y)) = None"
      "k = OUTPUT_PRIMARY \<Longrightarrow> runs (d_out d OUTPUT_ESAI) \<Longrightarrow> fst (l_pcms y) = None"
      "k \<noteq> OUTPUT_PRIMARY \<Longrightarrow> \<not> runs (d_out d OUTPUT_PRIMARY)"
  shows "desk_books (d\<lparr>d_out := (d_out d)(k \<mapsto> y), d_log := d_log d @ l\<rparr>)" (is "desk_books ?d")
proof -
  have none: "l_pcms z = (None, None, None)" if "d_out d OUTPUT_PRIMARY = Some z" "\<not> runs (d_out d OUTPUT_PRIMARY)" for z
    using b that unfolding desk_books_def by fastforce
  have "held ?d = held d + line_held (Some y)" using h by (cases k) (simp_all add: held_def ac_simps)
  then have m: "pcm_opens (d_log ?d) = pcm_closes (d_log ?d) + held ?d" using b l by (simp add: desk_books_def ac_simps)
  have 1: "l_pcms z = (None, None, None)" if "d_out ?d j = Some z" "\<not> l_run z" for j z
    using b s that unfolding desk_books_def by (cases "j = k") auto
  have 2: "fst (snd (l_pcms z)) = None" if "d_out ?d OUTPUT_PRIMARY = Some z" "runs (d_out ?d OUTPUT_HDMI)" for z
    using b that x none by (cases k) (auto simp: desk_books_def)
  have 3: "fst (l_pcms z) = None" if "d_out ?d OUTPUT_PRIMARY = Some z" "runs (d_out ?d OUTPUT_ESAI)" for z
    using b that x none by (cases k) (auto simp: desk_books_def)
  show ?thesis unfolding desk_books_def using 1 2 3 m by blast
qed

lemma prim_start_ok:
  assumes ok: "hal_ok w (desk_of w ad)" and p: "prim_out ad = Some p" and sb: "o_standby p"
    and st: "start_output_stream_primary w ad = Some (e, ad')"
  shows "hal_ok w (if e = 0 then d_run OUTPUT_PRIMARY (desk_of w ad') else desk_of w ad')"
proof -
  consider "e \<noteq> 0" "ad' = ad"
    | lg p' l normal hdmi where "ad_mode ad \<noteq> mode_in_call (os_bits w)"
        "ad' = ad\<lparr>mix_log := lg, prim_out := Some p', pcm_log := pcm_log ad @ l\<rparr>" "outputs_open w normal hdmi p ad e p' l"
        "normal \<longrightarrow> idle (esai_out ad)" "hdmi \<longrightarrow> idle (hdmi_out ad)"
    using prim_start [OF st p] by blast
  then show ?thesis
  proof cases
    case 1
    then show ?thesis using ok by simp
  next
    case 2
    define d where "d = desk_of w ad"
    have d: "desk_of w ad' = d\<lparr>d_out := (d_out d)(OUTPUT_PRIMARY \<mapsto> line_of p'), d_log := d_log d @ l\<rparr>" (is "_ = ?d")
    proof -
      have "(\<lambda>k. map_option line_of (active_output k ad')) = (d_out d)(OUTPUT_PRIMARY \<mapsto> line_of p')"
        unfolding 2(2) by (rule ext) (simp add: active_prim d_def desk_of_def)
      then show ?thesis by (simp add: desk_of_def 2(2) d_def)
    qed
    have o: "d_out d OUTPUT_PRIMARY = Some (line_of p)" "d_live d = echo_ref ad" "\<not> d_call d"
      "runs (d_out d OUTPUT_HDMI) = (\<not> idle (hdmi_out ad))" "runs (d_out d OUTPUT_ESAI) = (\<not> idle (esai_out ad))"
      using p 2(1) by (simp_all add: d_def desk_of_def line_of_idle)
    have lp: "desk_line_ok OUTPUT_PRIMARY (line_of p)" using ok o by (auto simp: hal_ok_def desk_ok_def d_def)
    then have pe: "o_echo p = None" "o_esai p = None" using sb by (simp_all add: desk_line_ok_def line_of_def)
    have sb': "o_standby p'" using 2(3) sb by (simp add: outputs_open_def)
    have lok: "desk_line_ok OUTPUT_PRIMARY ((line_of p')\<lparr>l_run := True\<rparr>)" if "e = 0"
      using 2(3) pe that by (auto simp: outputs_open_def desk_line_ok_def line_of_def)
    have lok': "desk_line_ok OUTPUT_PRIMARY (line_of p')" if "e \<noteq> 0"
      using 2(3) pe sb' that by (auto simp: outputs_open_def desk_line_ok_def line_of_def)
    have ok1: "desk_ok (if e = 0 then d_run OUTPUT_PRIMARY ?d else ?d)"
    proof (cases "e = 0")
      case True
      have "\<forall>f. l_echo (line_of p') = Some f \<longrightarrow> d_live d = Some f"
        using 2(3) True pe o by (auto simp: outputs_open_def line_of_def split: if_splits)
      then show ?thesis using ok lok True o by (simp add: hal_ok_def desk_ok_def d_run_def d_def [symmetric])
    next
      case False
      have "l_echo (line_of p') = None" using 2(3) False pe by (simp add: outputs_open_def line_of_def)
      then show ?thesis using ok lok' False o by (simp add: hal_ok_def desk_ok_def d_def [symmetric])
    qed
    have ok2: "desk_books (if e = 0 then d_run OUTPUT_PRIMARY ?d else ?d)" if r: "all_ready w"
    proof -
      have b: "desk_books d" using ok r by (simp add: hal_ok_def d_def)
      have "\<not> l_run (line_of p)" using sb by (simp add: line_of_def)
      then have "l_pcms (line_of p) = (None, None, None)" using b o(1) unfolding desk_books_def by blast
      then have n: "o_normal p = None" "o_hdmi p = None" by (simp_all add: line_of_def)
      have e: "o_esai p' = None" using 2(3) pe by (simp add: outputs_open_def)
      define y where "y = (if e = 0 then (line_of p')\<lparr>l_run := True\<rparr> else line_of p')"
      have y: "l_pcms y = (o_normal p', o_hdmi p', None)" "l_run y = (e = 0)"
        using e sb' by (simp_all add: y_def line_of_def)
      have c: "pcm_closes l = {#}" "pcm_opens l = line_held (Some y)" "e = 0 \<or> l_pcms y = (None, None, None)"
        "idle (esai_out ad) \<or> o_normal p' = None" "idle (hdmi_out ad) \<or> o_hdmi p' = None"
        using 2(3-5) r n by (auto simp: outputs_open_def y)
      have "line_held (d_out d OUTPUT_PRIMARY) = {#}" using o n pe by (simp add: line_of_def)
      then have "desk_books (d\<lparr>d_out := (d_out d)(OUTPUT_PRIMARY \<mapsto> y), d_log := d_log d @ l\<rparr>)"
        using c y o by (intro line_books [OF b]) auto
      moreover have "(if e = 0 then d_run OUTPUT_PRIMARY ?d else ?d) = d\<lparr>d_out := (d_out d)(OUTPUT_PRIMARY \<mapsto> y), d_log := d_log d @ l\<rparr>"
        by (simp add: y_def d_run_def)
      ultimately show ?thesis by simp
    qed
    have "fx_ok (os_bits w) (d_fx d)" using ok by (simp add: hal_ok_def d_def)
    then show ?thesis using ok1 ok2 d by (simp add: hal_ok_def d_run_def split: if_splits)
  qed
qed

section \<open>The direct streams\<close>

lemma standby_fields [simp]:
  "ad_mode (do_output_standby k ad) = ad_mode ad" "j \<noteq> k \<Longrightarrow> active_output j (do_output_standby k ad) = active_output j ad"
  by (cases "active_output k ad"; simp add: do_output_standby_def set_out_def)+

lemma direct_cases:
  assumes k: "k = OUTPUT_HDMI \<and> start_output_stream_hdmi w ad = Some (e, ad') \<or>
            k = OUTPUT_ESAI \<and> start_output_stream_esai w ad = Some (e, ad')"
    and m: "ad_mode ad \<noteq> mode_in_call (os_bits w)" and p: "active_output k (do_output_standby OUTPUT_PRIMARY ad) = Some p"
  shows "\<exists>c p' ok. let ad1 = do_output_standby OUTPUT_PRIMARY ad in
      ad' = put_output k (Some p') (ad1\<lparr>pcm_log := pcm_log ad1 @ PcmOpen c ok # (if ok then [] else [PcmClose c])\<rparr>) \<and>
      ok = os_ready w (pcm_log ad1) c \<and> e = (if ok then 0 else - ENOMEM) \<and>
      p' = (if k = OUTPUT_HDMI then p\<lparr>o_hdmi := if ok then Some c else None\<rparr> else p\<lparr>o_esai := if ok then Some c else None\<rparr>)"
  using k
proof
  assume h: "k = OUTPUT_HDMI \<and> start_output_stream_hdmi w ad = Some (e, ad')"
  define ad1 where "ad1 = do_output_standby OUTPUT_PRIMARY ad"
  have p1: "hdmi_out ad1 = Some p" using p h by (simp add: ad1_def)
  from h m obtain c where "get_card_for_device True (o_device p AND out_digital (os_bits w)) ad1 = Some c"
    by (auto simp: start_output_stream_hdmi_def cavan_check_audio_mode_def Let_def ad1_def [symmetric] p1 split: option.splits)
  then show ?thesis using h m p1
    by (intro exI [of _ c] exI [of _ "p\<lparr>o_hdmi := if os_ready w (pcm_log ad1) c then Some c else None\<rparr>"]
        exI [of _ "os_ready w (pcm_log ad1) c"])
      (auto simp: start_output_stream_hdmi_def cavan_check_audio_mode_def Let_def ad1_def [symmetric] open_pcm_def did_def
        split: if_splits)
next
  assume h: "k = OUTPUT_ESAI \<and> start_output_stream_esai w ad = Some (e, ad')"
  define ad1 where "ad1 = do_output_standby OUTPUT_PRIMARY ad"
  have p1: "esai_out ad1 = Some p" using p h by (simp add: ad1_def)
  from h m obtain c where "get_card_for_device True (o_device p AND out_speaker (os_bits w)) ad1 = Some c"
    by (auto simp: start_output_stream_esai_def cavan_check_audio_mode_def Let_def ad1_def [symmetric] p1 split: option.splits)
  then show ?thesis using h m p1
    by (intro exI [of _ c] exI [of _ "p\<lparr>o_esai := if os_ready w (pcm_log ad1) c then Some c else None\<rparr>"]
        exI [of _ "os_ready w (pcm_log ad1) c"])
      (auto simp: start_output_stream_esai_def cavan_check_audio_mode_def Let_def ad1_def [symmetric] open_pcm_def did_def
        split: if_splits)
qed

lemma hdmi_start_ok:
  assumes ok: "hal_ok w (desk_of w ad)" and p: "active_output k ad = Some p" and sb: "o_standby p"
    and k: "k = OUTPUT_HDMI \<and> start_output_stream_hdmi w ad = Some (e, ad') \<or>
            k = OUTPUT_ESAI \<and> start_output_stream_esai w ad = Some (e, ad')"
  shows "hal_ok w (if e = 0 then d_run k (desk_of w ad') else desk_of w ad')"
proof (cases "ad_mode ad = mode_in_call (os_bits w)")
  case True
  then have "e \<noteq> 0 \<and> ad' = ad"
    using k by (auto simp: start_output_stream_hdmi_def start_output_stream_esai_def cavan_check_audio_mode_def EBUSY_def)
  then show ?thesis using ok by simp
next
  case False
  define ad1 where "ad1 = do_output_standby OUTPUT_PRIMARY ad"
  have ok1: "hal_ok w (desk_of w ad1)" unfolding ad1_def standby_desk using ok by (rule d_standby_ok)
  have kp: "k \<noteq> OUTPUT_PRIMARY" using k by auto
  have p1: "active_output k ad1 = Some p" using p kp unfolding ad1_def by simp
  have nr: "\<not> runs (d_out (desk_of w ad1) OUTPUT_PRIMARY)" unfolding ad1_def standby_desk by (rule d_standby_stops)
  obtain c p' ok where a: "ad' = put_output k (Some p') (ad1\<lparr>pcm_log := pcm_log ad1 @ PcmOpen c ok # (if ok then [] else [PcmClose c])\<rparr>)"
    and ok': "ok = os_ready w (pcm_log ad1) c" "e = (if ok then 0 else - ENOMEM)"
    and p': "p' = (if k = OUTPUT_HDMI then p\<lparr>o_hdmi := if ok then Some c else None\<rparr> else p\<lparr>o_esai := if ok then Some c else None\<rparr>)"
    using direct_cases [OF k False p1 [unfolded ad1_def]] unfolding ad1_def by metis
  define d where "d = desk_of w ad1"
  define y where "y = (line_of p')\<lparr>l_run := ok\<rparr>"
  define l where "l = PcmOpen c ok # (if ok then [] else [PcmClose c])"
  have run: "(if e = 0 then d_run k (desk_of w ad') else desk_of w ad') = d\<lparr>d_out := (d_out d)(k \<mapsto> y), d_log := d_log d @ l\<rparr>"
  proof -
    have "(\<lambda>j. map_option line_of (active_output j ad')) = (d_out d)(k \<mapsto> line_of p')"
      unfolding a by (rule ext) (simp add: d_def desk_of_def)
    then have "desk_of w ad' = d\<lparr>d_out := (d_out d)(k \<mapsto> line_of p'), d_log := d_log d @ l\<rparr>"
      by (simp add: desk_of_def a d_def l_def)
    moreover have "line_of p' = y" if "\<not> ok" using p' sb that by (simp add: y_def line_of_def)
    ultimately show ?thesis using ok' by (auto simp: d_run_def y_def ENOMEM_def)
  qed
  have o: "d_out d k = Some (line_of p)" using p1 by (simp add: d_def desk_of_def)
  have lok: "desk_line_ok k (line_of p)" using ok1 o unfolding d_def by (rule hal_lineD)
  then have ly: "desk_line_ok k y" using p' kp k sb by (auto simp: y_def desk_line_ok_def line_of_def)
  have "d_call d = False" using False by (simp add: d_def desk_of_def ad1_def)
  then have "desk_ok (d\<lparr>d_out := (d_out d)(k \<mapsto> y), d_log := d_log d @ l\<rparr>)"
    using ok1 ly kp by (simp add: hal_ok_def desk_ok_def d_def [symmetric]) blast
  moreover have "desk_books (d\<lparr>d_out := (d_out d)(k \<mapsto> y), d_log := d_log d @ l\<rparr>)" if r: "all_ready w"
  proof (rule line_books)
    show b: "desk_books d" using ok1 r by (simp add: hal_ok_def d_def)
    have "\<not> l_run (line_of p)" using sb by (simp add: line_of_def)
    then have n: "l_pcms (line_of p) = (None, None, None)" using b o unfolding desk_books_def by blast
    then show "line_held (d_out d k) = {#}" using o by simp
    have ok: "ok" using r ok' by (simp add: all_ready_def)
    show "pcm_closes l = {#}" "pcm_opens l = line_held (Some y)" "l_run y \<or> l_pcms y = (None, None, None)"
      using ok n p' k by (auto simp: l_def y_def line_of_def)
  qed (use kp nr in \<open>simp_all add: d_def\<close>)
  ultimately show ?thesis using ok1 unfolding run by (simp add: hal_ok_def d_def)
qed

end
