(* ===== verification/Alsa_Calls.thy ===== *)
theory Alsa_Calls
  imports Alsa_Desk
begin

text \<open>
  The invariant \<open>hal_ok\<close> of the ALSA audio HAL is kept by every call of its interface: writing, opening and closing
  streams, changing the device and the mode, recording, and adding and removing effects.
\<close>

section \<open>Writing\<close>

text \<open>Changes that a desk does not show.\<close>

definition d_logged :: "pcm_op list \<Rightarrow> desk \<Rightarrow> desk" where
  "d_logged l d = d\<lparr>d_log := d_log d @ l\<rparr>"

lemma d_logged_ok:
  assumes "hal_ok w d" and "pcm_opens l = {#}" and "pcm_closes l = {#}"
  shows "hal_ok w (d_logged l d)"
proof -
  have "desk_ok (d_logged l d)" using assms by (simp add: hal_ok_def desk_ok_def d_logged_def) blast
  moreover have "desk_books d \<Longrightarrow> desk_books (d_logged l d)"
    by (erule books_same [where l = l]) (use assms in \<open>simp_all add: d_logged_def\<close>)
  ultimately show ?thesis using assms by (simp add: hal_ok_def d_logged_def)
qed

lemma desk_writes [simp]: "desk_of w (ad\<lparr>pcm_writes := n\<rparr>) = desk_of w ad"
  by (rule desk_eqI) simp_all

lemma desk_did: "desk_of w (did x ad) = d_logged [x] (desk_of w ad)"
  by (simp add: desk_of_def did_def d_logged_def)

definition quietly :: "Os \<Rightarrow> 'a Alsa_scheme \<Rightarrow> 'a Alsa_scheme \<Rightarrow> bool" where
  "quietly w ad ad' = (\<exists>l. desk_of w ad' = d_logged l (desk_of w ad) \<and> pcm_opens l = {#} \<and> pcm_closes l = {#} \<and>
     prim_out ad' = prim_out ad \<and> hdmi_out ad' = hdmi_out ad \<and> esai_out ad' = esai_out ad)"

lemma quiet_refl: "quietly w ad ad"
  unfolding quietly_def by (rule exI [of _ "[]"]) (simp add: d_logged_def)

lemma quiet_trans: "quietly w ad ad' \<Longrightarrow> quietly w ad' ad'' \<Longrightarrow> quietly w ad ad''"
  unfolding quietly_def by (auto simp: d_logged_def intro: exI [of _ "_ @ _"])

lemma quiet_ok: "quietly w ad ad' \<Longrightarrow> hal_ok w (desk_of w ad) \<Longrightarrow> hal_ok w (desk_of w ad')"
  by (auto simp: quietly_def d_logged_ok)

lemma quiet_writes: "quietly w ad (ad\<lparr>pcm_writes := n\<rparr>)"
  unfolding quietly_def by (rule exI [of _ "[]"]) (simp add: d_logged_def)

lemma quiet_write: "quietly w ad (did (PcmWrite c xs) (ad\<lparr>pcm_writes := n\<rparr>))"
  unfolding quietly_def by (rule exI [of _ "[PcmWrite c xs]"]) (simp add: desk_did, simp add: did_def)

lemma write_once_quiet: "pcm_write_once w c xs ad = (r, ad') \<Longrightarrow> quietly w ad ad'"
  by (auto simp: pcm_write_once_def Let_def quiet_writes quiet_write)

lemma write_wrapper_quiet: "pcm_write_wrapper w c xs ad = (r, ad') \<Longrightarrow> quietly w ad ad'"
  by (auto simp: pcm_write_wrapper_def split: prod.splits if_splits dest: write_once_quiet intro: quiet_trans)

lemma write_pcms_quiet: "write_pcms w xs buf n ps r ad = Some (e, ad') \<Longrightarrow> quietly w ad ad'"
proof (induction ps arbitrary: r ad)
  case (Cons a ps)
  then show ?case
    by (cases a) (auto split: if_splits prod.splits dest!: write_wrapper_quiet intro: quiet_trans)
qed (auto simp: quiet_refl)

lemma set_prim_desk:
  assumes "\<And>p. line_of (f p) = line_of p"
  shows "desk_of w (set_prim f ad) = desk_of w ad"
proof -
  have "map_option line_of (active_output k (set_prim f ad)) = map_option line_of (active_output k ad)" for k
    by (cases k) (simp_all add: set_prim_def option.map_comp comp_def assms)
  then show ?thesis by (simp add: desk_of_def) (simp add: set_prim_def)
qed

lemma prim_written: "desk_of w (set_prim (\<lambda>p. p\<lparr>o_written := f p\<rparr>) ad) = desk_of w ad"
  by (rule set_prim_desk) (simp add: line_of_def)

lemma prim_put_desk:
  assumes "prim_out ad = Some p"
  shows "desk_of w (ad\<lparr>prim_out := Some (p\<lparr>o_standby := False, o_buffer := b\<rparr>)\<rparr>) = d_run OUTPUT_PRIMARY (desk_of w ad)"
proof -
  have "map_option line_of (active_output k (ad\<lparr>prim_out := Some (p\<lparr>o_standby := False, o_buffer := b\<rparr>)\<rparr>)) =
      ((d_out (desk_of w ad))(OUTPUT_PRIMARY := map_option (\<lambda>y. y\<lparr>l_run := True\<rparr>) (d_out (desk_of w ad) OUTPUT_PRIMARY))) k" for k
    using assms by (simp add: desk_of_def line_of_def)
  then show ?thesis by (simp add: desk_of_def d_run_def fun_eq_iff)
qed

lemma d_run_running: "runs (d_out d k) \<Longrightarrow> d_run k d = d"
proof -
  assume "runs (d_out d k)"
  then have "(d_out d)(k := map_option (\<lambda>y. y\<lparr>l_run := True\<rparr>) (d_out d k)) = d_out d"
    by (cases "d_out d k") (auto simp: fun_eq_iff)
  then show ?thesis by (simp add: d_run_def)
qed

lemma write_primary_ok:
  assumes ok: "hal_ok w (desk_of w ad)" and wr: "out_write_primary w xs ad = Some (r, ad')"
  shows "hal_ok w (desk_of w ad')"
proof -
  obtain p0 where p0: "prim_out ad = Some p0" using wr by (auto simp: out_write_primary_def split: option.splits)
  obtain e ad1 where st: "(if o_standby p0 then start_output_stream_primary w ad else Some (0, ad)) = Some (e, ad1)"
    using wr p0 by (auto simp: out_write_primary_def Let_def split: option.splits)
  show ?thesis
  proof (cases "e = 0")
    case False
    then have "ad' = ad1" "o_standby p0" using wr p0 st by (auto simp: out_write_primary_def Let_def split: if_splits)
    then show ?thesis using prim_start_ok [OF ok p0] st False by simp
  next
    case True
    have live: "\<not> (o_standby p0 \<and> freed_input ad1)" using wr p0 st True by (auto simp: out_write_primary_def Let_def)
    obtain p1 where p1: "prim_out ad1 = Some p1" using wr p0 st True by (auto simp: out_write_primary_def Let_def split: option.splits)
    obtain buf n where b: "resample_out w xs p1 ad1 = (buf, n)" by force
    let ?p2 = "p1\<lparr>o_standby := False, o_buffer := buf\<rparr>"
    let ?ad2 = "ad1\<lparr>prim_out := Some ?p2\<rparr>"
    obtain ad3 where e: "(case o_echo ?p2 of None \<Rightarrow> Some ?ad2
         | Some r \<Rightarrow> map_option (\<lambda>d. did (EchoData r d) ?ad2) (get_playback_delay w (n div 2) ?p2 ?ad2)) = Some ad3"
      using wr p0 st True p1 b live by (auto simp: out_write_primary_def Let_def simp del: de_Morgan_conj split: option.splits)
    obtain q ad4 where wp: "write_pcms w xs buf n (out_pcms ?p2) (if o_standby p0 then Some 0 else None) ad3 = Some (q, ad4)"
      using wr p0 st True p1 b e live unfolding out_write_primary_def by (auto simp: Let_def simp del: de_Morgan_conj split: option.splits)
    let ?ad5 = "if q = 0 then set_prim (\<lambda>p. p\<lparr>o_written := o_written p + length xs div 2\<rparr>) ad4 else ad4"
    have fin: "(if o_standby p0 \<and> voice_input w ad1 \<and> active_input ?ad5 then do_input_standby w ?ad5 else Some ?ad5) = Some ad'"
      using wr p0 st True p1 b e wp live unfolding out_write_primary_def by (auto simp: Let_def simp del: de_Morgan_conj)
    have "hal_ok w (d_run OUTPUT_PRIMARY (desk_of w ad1))"
    proof (cases "o_standby p0")
      case True
      then show ?thesis using prim_start_ok [OF ok p0 True] st \<open>e = 0\<close> by simp
    next
      case False
      then show ?thesis using st ok p0 by (simp add: d_run_running desk_of_def line_of_def)
    qed
    then have 2: "hal_ok w (desk_of w ?ad2)" unfolding prim_put_desk [OF p1] .
    have 3: "hal_ok w (desk_of w ad3)" using e 2 by (auto split: option.splits simp: desk_did d_logged_ok)
    have "hal_ok w (desk_of w ad4)" using write_pcms_quiet [OF wp] 3 by (rule quiet_ok)
    then have 5: "hal_ok w (desk_of w ?ad5)" by (simp add: prim_written)
    show ?thesis using fin 5 by (auto split: if_splits dest!: in_standby_desk intro: d_stop_ok)
  qed
qed

lemma set_out_desk:
  assumes "\<And>p. line_of (f p) = line_of p"
  shows "desk_of w (set_out k f ad) = desk_of w ad"
proof -
  have "map_option line_of (active_output j (set_out k f ad)) = map_option line_of (active_output j ad)" for j
    by (simp add: set_out_def option.map_comp comp_def assms)
  then show ?thesis by (simp add: desk_of_def set_out_def)
qed

lemma set_out_run: "desk_of w (set_out k (\<lambda>p. p\<lparr>o_standby := False\<rparr>) ad) = d_run k (desk_of w ad)"
proof -
  have "(\<lambda>j. map_option line_of (active_output j (set_out k (\<lambda>p. p\<lparr>o_standby := False\<rparr>) ad))) =
      (d_out (desk_of w ad))(k := map_option (\<lambda>y. y\<lparr>l_run := True\<rparr>) (d_out (desk_of w ad) k))"
    by (rule ext) (simp add: set_out_def desk_of_def option.map_comp comp_def line_of_def)
  then show ?thesis by (simp add: desk_of_def d_run_def set_out_def)
qed

lemma set_out_written: "desk_of w (set_out k (\<lambda>p. p\<lparr>o_written := f p\<rparr>) a) = desk_of w a"
  by (rule set_out_desk) (simp add: line_of_def)

lemma write_direct_ok:
  assumes "hal_ok w (desk_of w ad)" and "write_direct w k pcm frame xs ad = Some (e, ad')"
  shows "hal_ok w (desk_of w ad')"
  using assms
  by (auto simp: write_direct_def set_out_written split: option.splits prod.splits if_splits dest!: write_wrapper_quiet quiet_ok)

lemma direct_running:
  assumes "hal_ok w (desk_of w ad)" and "active_output k ad = Some p" and "k \<noteq> OUTPUT_PRIMARY"
    and "if o_standby p then k = OUTPUT_HDMI \<and> start_output_stream_hdmi w ad = Some (0, ad1) \<or>
            k = OUTPUT_ESAI \<and> start_output_stream_esai w ad = Some (0, ad1) else ad1 = ad"
  shows "hal_ok w (desk_of w (set_out k (\<lambda>p. p\<lparr>o_standby := False\<rparr>) ad1))"
proof (cases "o_standby p")
  case True
  then show ?thesis using hdmi_start_ok [OF assms(1,2) True, of 0 ad1] assms(4) by (simp add: set_out_run)
next
  case False
  then have "runs (d_out (desk_of w ad) k)" using assms(2) by (simp add: desk_of_def line_of_def)
  then show ?thesis using assms False by (simp add: set_out_run d_run_running)
qed

lemma write_hdmi_ok:
  assumes ok: "hal_ok w (desk_of w ad)" and wr: "out_write_hdmi w xs ad = Some (r, ad')"
  shows "hal_ok w (desk_of w ad')"
proof -
  obtain p where p: "hdmi_out ad = Some p" using wr by (auto simp: out_write_hdmi_def split: option.splits)
  obtain e ad1 where st: "(if o_standby p then start_output_stream_hdmi w ad else Some (0, ad)) = Some (e, ad1)"
    using wr p by (auto simp: out_write_hdmi_def Let_def split: option.splits)
  show ?thesis
  proof (cases "e = 0")
    case False
    then have "ad' = ad1" "o_standby p" using wr p st by (auto simp: out_write_hdmi_def Let_def split: if_splits)
    then show ?thesis using hdmi_start_ok [of w ad OUTPUT_HDMI p e ad1] ok p st False by simp
  next
    case True
    let ?ad2 = "set_out OUTPUT_HDMI (\<lambda>p. p\<lparr>o_standby := False\<rparr>) ad1"
    have "hal_ok w (desk_of w ?ad2)" using st True p ok by (intro direct_running) (auto split: if_splits)
    moreover obtain q where "write_direct w OUTPUT_HDMI (Option.bind (hdmi_out ?ad2) o_hdmi) (2 * popcount (o_mask p)) xs ?ad2 = Some (q, ad')"
      using wr p st True by (auto simp: out_write_hdmi_def Let_def)
    ultimately show ?thesis by (rule write_direct_ok)
  qed
qed

lemma write_esai_ok:
  assumes ok: "hal_ok w (desk_of w ad)" and wr: "out_write_esai w xs ad = Some (r, ad')"
  shows "hal_ok w (desk_of w ad')"
proof -
  obtain p where p: "esai_out ad = Some p" using wr by (auto simp: out_write_esai_def split: option.splits)
  obtain e ad1 where st: "(if o_standby p then start_output_stream_esai w ad else Some (0, ad)) = Some (e, ad1)"
    using wr p by (auto simp: out_write_esai_def Let_def split: option.splits)
  show ?thesis
  proof (cases "e = 0")
    case False
    then have "ad' = ad1" "o_standby p" using wr p st by (auto simp: out_write_esai_def Let_def split: if_splits)
    then show ?thesis using hdmi_start_ok [of w ad OUTPUT_ESAI p e ad1] ok p st False by simp
  next
    case True
    let ?ad2 = "set_out OUTPUT_ESAI (\<lambda>p. p\<lparr>o_standby := False\<rparr>) ad1"
    have "hal_ok w (desk_of w ?ad2)" using st True p ok by (intro direct_running) (auto split: if_splits)
    moreover obtain q where "write_direct w OUTPUT_ESAI (Option.bind (esai_out ?ad2) o_esai) (2 * popcount (o_mask p))
        (convert_output_for_esai (o_channels p) xs) ?ad2 = Some (q, ad')"
      using wr p st True by (auto simp: out_write_esai_def Let_def)
    ultimately show ?thesis by (rule write_direct_ok)
  qed
qed

section \<open>Streams and modes\<close>

lemma put_new_ok:
  assumes ok: "hal_ok w d" and n: "d_out d k = None" and y: "l_pcms y = (None, None, None)" "\<not> l_run y" "l_echo y = None"
  shows "hal_ok w (d\<lparr>d_out := (d_out d)(k \<mapsto> y)\<rparr>)"
proof -
  have "desk_line_ok k y" using y by (simp add: desk_line_ok_def)
  then have "desk_ok (d\<lparr>d_out := (d_out d)(k \<mapsto> y)\<rparr>)" using ok y by (auto simp: hal_ok_def desk_ok_def)
  moreover have "desk_books (d\<lparr>d_out := (d_out d)(k \<mapsto> y)\<rparr>)" if "desk_books d"
    using that n y by (cases k) (auto simp: desk_books_def held_def)
  ultimately show ?thesis using ok by (simp add: hal_ok_def)
qed

lemma put_output_desk: "desk_of w (put_output k x ad) = (desk_of w ad)\<lparr>d_out := (d_out (desk_of w ad))(k := map_option line_of x)\<rparr>"
proof -
  have "(\<lambda>j. map_option line_of (active_output j (put_output k x ad))) = (d_out (desk_of w ad))(k := map_option line_of x)"
    by (rule ext) (simp add: desk_of_def)
  then show ?thesis by (simp add: desk_of_def)
qed

lemma new_stream_line: "line_of (new_stream d m ms rs) = \<lparr>l_pcms = (None, None, None), l_run = False, l_echo = None\<rparr>"
  by (simp add: line_of_def new_stream_def)

lemma hdmi_stream_line:
  "hdmi_stream w d r m ad = Some (e, p) \<Longrightarrow> line_of p = \<lparr>l_pcms = (None, None, None), l_run = False, l_echo = None\<rparr>"
  by (auto simp: hdmi_stream_def Let_def line_of_def new_stream_def split: if_splits option.splits prod.splits)

lemma stream_of_line:
  "stream_of w k d r m ad = Some (e, p) \<Longrightarrow> line_of p = \<lparr>l_pcms = (None, None, None), l_run = False, l_echo = None\<rparr>"
proof (cases k)
  case OUTPUT_HDMI
  then show "stream_of w k d r m ad = Some (e, p) \<Longrightarrow> ?thesis" using hdmi_stream_line by simp
qed (auto simp: line_of_def new_stream_def Let_def)

lemma open_output_ok:
  assumes ok: "hal_ok w (desk_of w ad)" and op: "adev_open_output_stream w direct devices r chm ad = Some (e, ad')"
  shows "hal_ok w (desk_of w ad')"
proof -
  define k where "k = output_kind w direct devices ad"
  have "ad' = ad \<or> active_output k ad = None \<and> (\<exists>f p. stream_of w k devices r chm ad = Some (f, p) \<and> ad' = put_output k (Some p) ad)"
    using op by (auto simp: adev_open_output_stream_def k_def Let_def split: if_splits option.splits)
  then show ?thesis
  proof
    assume "active_output k ad = None \<and> (\<exists>f p. stream_of w k devices r chm ad = Some (f, p) \<and> ad' = put_output k (Some p) ad)"
    then obtain p where n: "active_output k ad = None" and a: "ad' = put_output k (Some p) ad"
      and p: "line_of p = \<lparr>l_pcms = (None, None, None), l_run = False, l_echo = None\<rparr>" using stream_of_line by blast
    have "hal_ok w ((desk_of w ad)\<lparr>d_out := (d_out (desk_of w ad))(k \<mapsto> line_of p)\<rparr>)"
      using ok by (rule put_new_ok) (use p n in \<open>simp_all add: desk_of_def\<close>)
    then show ?thesis by (simp add: a put_output_desk)
  qed (use ok in simp)
qed

lemma close_output_ok:
  assumes "hal_ok w (desk_of w ad)"
  shows "hal_ok w (desk_of w (adev_close_output_stream k ad))"
proof -
  define d where "d = d_standby k (desk_of w ad)"
  have d: "hal_ok w d" "\<not> runs (d_out d k)" unfolding d_def using assms d_standby_ok d_standby_stops by blast+
  have "desk_ok (d\<lparr>d_out := (d_out d)(k := None)\<rparr>)" using d by (auto simp: hal_ok_def desk_ok_def)
  moreover have "desk_books (d\<lparr>d_out := (d_out d)(k := None)\<rparr>)" if b: "desk_books d"
  proof -
    have "line_held (d_out d k) = {#}"
    proof (cases "d_out d k")
      case (Some y)
      then have "l_pcms y = (None, None, None)" using b d(2) unfolding desk_books_def by (metis runs_simps(2))
      then show ?thesis using Some by simp
    qed simp
    then show ?thesis using b by (cases k) (auto simp: desk_books_def held_def)
  qed
  ultimately have "hal_ok w (d\<lparr>d_out := (d_out d)(k := None)\<rparr>)" using d by (simp add: hal_ok_def)
  then show ?thesis by (simp add: adev_close_output_stream_def put_output_desk standby_desk d_def)
qed

lemma out_device_desk [simp]: "desk_of w (ad\<lparr>out_device := v\<rparr>) = desk_of w ad" "desk_of w (ad\<lparr>tty_mode := m\<rparr>) = desk_of w ad"
  "desk_of w (ad\<lparr>low_power := x\<rparr>) = desk_of w ad" "desk_of w (ad\<lparr>mic_mute := x\<rparr>) = desk_of w ad"
  by (rule desk_eqI; simp)+

lemma set_device_desk: "desk_of w (set_out k (\<lambda>p. p\<lparr>o_device := v\<rparr>) ad) = desk_of w ad"
  by (rule set_out_desk) (simp add: line_of_def)

lemma take_device_desk:
  assumes "take_device w k v ad = Some ad'"
  shows "desk_of w ad' = desk_of w ad"
proof -
  have "desk_of w (set_out k (\<lambda>p. p\<lparr>o_device := v\<rparr>) (ad\<lparr>out_device := v\<rparr>)) = desk_of w ad" by (simp add: set_device_desk)
  then show ?thesis using assms
    by (auto simp: take_device_def Let_def split: if_splits option.splits
        dest!: select_output_desk [where w = w] scan_desk [where w = w])
qed

lemma set_output_ok:
  assumes ok: "hal_ok w (desk_of w ad)" and st: "out_set_parameters w k dev ad = Some ad'"
  shows "hal_ok w (desk_of w ad')"
  using st standby_desk [of w k ad] d_standby_ok [OF ok, of k] ok
  by (auto simp: out_set_parameters_def Let_def split: option.splits if_splits
      dest!: take_device_desk in_standby_desk intro!: d_stop_ok)

section \<open>The mode\<close>

definition d_mode :: "bool \<Rightarrow> desk \<Rightarrow> desk" where
  "d_mode x d = d\<lparr>d_call := x, d_flag := x\<rparr>"

lemma d_mode_fields [simp]: "d_out (d_mode x d) = d_out d" "d_rec (d_mode x d) = d_rec d" "d_mode x (d_mode y d) = d_mode x d"
  "d_active (d_mode x d) = d_active d" "d_fx (d_mode x d) = d_fx d"
  by (simp_all add: d_mode_def)

lemma d_mode_same: "hal_ok w d \<Longrightarrow> d_mode (d_call d) d = d"
  by (simp add: hal_ok_def desk_ok_def d_mode_def)

lemma d_mode_standby: "d_standby k (d_mode x d) = d_mode x (d_standby k d)"
  by (simp add: d_standby_def d_mode_def split: option.splits)

lemma d_mode_put: "d_put r (d_mode x d) = d_mode x (d_put r d)"
  by (simp add: d_put_def d_mode_def split: option.splits)

lemma d_mode_stop: "d_stop (d_mode x d) = d_mode x (d_stop d)"
  by (simp add: d_stop_def Let_def d_mode_def d_put_def split: option.splits)

text \<open>When nothing runs a call can begin or end.\<close>

lemma d_mode_ok:
  assumes "hal_ok w (d_mode x d)" and "y \<Longrightarrow> (\<forall>k. \<not> runs (d_out d k)) \<and> \<not> d_rec d"
  shows "hal_ok w (d_mode y d)"
proof -
  have "desk_ok (d_mode y d)" using assms by (simp add: hal_ok_def desk_ok_def d_mode_def) blast
  moreover have "desk_books (d_mode x d) = desk_books (d_mode y d)" by (simp add: desk_books_def held_def d_mode_def)
  ultimately show ?thesis using assms(1) by (simp add: hal_ok_def)
qed

lemma d_standby_less: "runs (d_out (d_standby k d) j) \<Longrightarrow> runs (d_out d j) \<and> j \<noteq> k"
  by (auto simp: d_standby_def runs_def split: option.splits if_splits)

lemma d_standby_rec [simp]: "d_rec (d_standby k d) = d_rec d" "d_active (d_standby k d) = d_active d"
  by (simp_all add: d_standby_def split: option.splits)

lemma d_put_less: "runs (d_out (d_put r d) j) \<Longrightarrow> runs (d_out d j)"
  by (auto simp: d_put_def runs_def split: option.splits if_splits)

lemma d_stop_less: "runs (d_out (d_stop d) j) \<Longrightarrow> runs (d_out d j)"
  by (auto simp: d_stop_def Let_def split: option.splits if_splits dest!: d_put_less)

lemma active_desk: "active_input ad = d_active (desk_of w ad)"
  by (simp add: desk_of_def)

lemma force_standby_desk:
  assumes f: "force_all_standby w ad = Some ad'" and ok: "hal_ok w (d_mode x (desk_of w ad))"
  shows "hal_ok w (d_mode y (desk_of w ad'))" "\<not> runs (d_out (desk_of w ad') k)" "\<not> d_rec (desk_of w ad')"
    "d_call (desk_of w ad') = d_call (desk_of w ad)" "d_flag (desk_of w ad') = d_flag (desk_of w ad)"
proof -
  define d where "d = d_standby OUTPUT_ESAI (d_standby OUTPUT_HDMI (d_standby OUTPUT_PRIMARY (desk_of w ad)))"
  have ok1: "hal_ok w (d_mode x d)" using ok by (simp add: d_def d_mode_standby [symmetric] d_standby_ok)
  have r: "\<not> runs (d_out d k)" for k using d_standby_less unfolding d_def by (metis out_slot.exhaust)
  have a: "d_rec d \<longrightarrow> d_active d" using ok1 by (simp add: hal_ok_def desk_ok_def d_mode_def)
  define ad1 where "ad1 = fold do_output_standby [OUTPUT_PRIMARY, OUTPUT_HDMI, OUTPUT_ESAI] ad"
  have d1: "desk_of w ad1 = d" by (simp add: ad1_def d_def standby_desk)
  have "(if active_input ad1 then do_input_standby w ad1 else Some ad1) = Some ad'"
    using f unfolding force_all_standby_def ad1_def [symmetric] Let_def by (simp split: if_splits)
  then have d': "desk_of w ad' = (if d_active d then d_stop d else d)"
    unfolding active_desk [of ad1 w] d1 [symmetric] by (auto split: if_splits dest: in_standby_desk)
  show r': "\<not> runs (d_out (desk_of w ad') k)" for k using r d_stop_less unfolding d' by (auto split: if_splits)
  show n: "\<not> d_rec (desk_of w ad')" using a d_stop_stops unfolding d' by auto
  have "hal_ok w (d_mode x (desk_of w ad'))" using ok1 by (simp add: d' d_mode_stop [symmetric] d_stop_ok)
  then show "hal_ok w (d_mode y (desk_of w ad'))" using r' n by (rule_tac d_mode_ok) auto
  show "d_call (desk_of w ad') = d_call (desk_of w ad)" "d_flag (desk_of w ad') = d_flag (desk_of w ad)"
    by (simp_all add: d' d_def d_stop_def d_standby_def d_put_def Let_def split: option.splits)
qed

lemma call_desk: "desk_of w (ad\<lparr>in_call := x\<rparr>) = (desk_of w ad)\<lparr>d_flag := x\<rparr>"
proof -
  have "active_output k (ad\<lparr>in_call := x\<rparr>) = active_output k ad" for k by (cases k) simp_all
  then show ?thesis by (simp add: desk_of_def)
qed

lemma mode_desk: "desk_of w (ad\<lparr>ad_mode := m\<rparr>) = (desk_of w ad)\<lparr>d_call := (m = mode_in_call (os_bits w))\<rparr>"
proof -
  have "active_output k (ad\<lparr>ad_mode := m\<rparr>) = active_output k ad" for k by (cases k) simp_all
  then show ?thesis by (simp add: desk_of_def)
qed

lemma call_devices_desk: "desk_of w (call_devices b ad) = desk_of w ad"
  by (simp add: call_devices_def)

lemma d_mode_eq: "d_call d = x \<Longrightarrow> d_flag d = x \<Longrightarrow> d_mode x d = d"
  by (simp add: d_mode_def)

lemma select_mode_ok:
  assumes ok: "hal_ok w (d_mode x (desk_of w ad))" and s: "select_mode w ad = Some ad'"
    and f: "in_call ad \<longrightarrow> ad_mode ad \<noteq> mode_in_call (os_bits w)" "x = in_call ad"
  shows "hal_ok w (desk_of w ad')"
proof -
  let ?call = "ad_mode ad = mode_in_call (os_bits w)"
  have c: "d_call (desk_of w ad) = ?call" "d_flag (desk_of w ad) = in_call ad" by (simp_all add: desk_of_def)
  consider "?call" "\<not> in_call ad" | "\<not> ?call" "in_call ad" | "\<not> ?call" "\<not> in_call ad" using f by blast
  then show ?thesis
  proof cases
    case 1
    then obtain ad1 ad2 where a: "force_all_standby w ad = Some ad1"
      "select_output_device (os_mixers w) (os_bits w) (call_devices (os_bits w) ad1) = Some ad2"
      and d': "desk_of w ad' = desk_of w (ad2\<lparr>in_call := True\<rparr>)"
      using s by (auto simp: select_mode_def Let_def split: option.splits dest!: audio_mode_desk [where w = w])
    have "desk_of w ad2 = desk_of w ad1" using select_output_desk [OF a(2)] by (simp add: call_devices_desk)
    then have "desk_of w ad' = d_mode True (desk_of w ad1)"
      using force_standby_desk [OF a(1) ok] c 1 by (simp add: d' call_desk d_mode_def)
    then show ?thesis using force_standby_desk(1) [OF a(1) ok] by simp
  next
    case 2
    then obtain ad1 where a: "force_all_standby w (ad\<lparr>in_call := False\<rparr>) = Some ad1" and d': "desk_of w ad' = desk_of w ad1"
      using s by (auto simp: select_mode_def Let_def split: option.splits
          dest!: audio_mode_desk [where w = w] select_output_desk [where w = w] select_input_desk [where w = w])
    have ok1: "hal_ok w (d_mode x (desk_of w (ad\<lparr>in_call := False\<rparr>)))" using ok by (simp add: call_desk d_mode_def)
    have "desk_of w ad' = d_mode False (desk_of w ad1)"
      unfolding d' using force_standby_desk(4,5) [OF a ok1] c 2 by (intro d_mode_eq [symmetric]) (simp_all add: call_desk)
    then show ?thesis using force_standby_desk(1) [OF a ok1] by simp
  next
    case 3
    then have "desk_of w ad' = desk_of w ad" using s by (auto simp: select_mode_def Let_def dest!: audio_mode_desk [where w = w])
    moreover have "d_mode x (desk_of w ad) = desk_of w ad" by (rule d_mode_eq) (use c 3 f in simp_all)
    ultimately show ?thesis using ok by simp
  qed
qed

lemma set_mode_ok:
  assumes ok: "hal_ok w (desk_of w ad)" and s: "adev_set_mode w m ad = Some ad'"
  shows "hal_ok w (desk_of w ad')"
proof (cases "ad_mode ad = m")
  case False
  have f: "in_call ad = (ad_mode ad = mode_in_call (os_bits w))" using ok by (simp add: hal_ok_def desk_ok_def desk_of_def)
  have "d_mode (in_call ad) (desk_of w (ad\<lparr>ad_mode := m\<rparr>)) = desk_of w ad"
    unfolding mode_desk by (simp add: d_mode_def desk_of_def f)
  then have "hal_ok w (d_mode (in_call (ad\<lparr>ad_mode := m\<rparr>)) (desk_of w (ad\<lparr>ad_mode := m\<rparr>)))" using ok by simp
  moreover have "select_mode w (ad\<lparr>ad_mode := m\<rparr>) = Some ad'" using s False by (simp add: adev_set_mode_def)
  moreover have "in_call (ad\<lparr>ad_mode := m\<rparr>) \<longrightarrow> ad_mode (ad\<lparr>ad_mode := m\<rparr>) \<noteq> mode_in_call (os_bits w)" using f False by auto
  ultimately show ?thesis by (rule select_mode_ok) (rule refl)
qed (use assms in \<open>simp add: adev_set_mode_def\<close>)

lemma set_parameters_ok:
  "hal_ok w (desk_of w ad) \<Longrightarrow> adev_set_parameters w tty screen ad = Some (r, ad') \<Longrightarrow> hal_ok w (desk_of w ad')"
  by (auto simp: adev_set_parameters_def Let_def split: option.splits if_splits dest!: select_output_desk [where w = w])

section \<open>Recording\<close>

lemma set_in_desk:
  assumes "\<And>s. i_pcm (f s) = i_pcm s \<and> i_standby (f s) = i_standby s \<and> i_echo (f s) = i_echo s \<and> fx_of (f s) = fx_of s"
  shows "desk_of w (set_in f ad) = desk_of w ad"
  using assms by (simp add: desk_of_def set_in_def)

lemma same_in_desk:
  assumes "same_stream (in_stream ad) s"
  shows "desk_of w (ad\<lparr>in_stream := s\<rparr>) = desk_of w ad"
  using assms by (simp add: desk_of_def same_stream_def fx_of_def)

lemma in_fields_desk [simp]: "desk_of w (ad\<lparr>in_source := x\<rparr>) = desk_of w ad" "desk_of w (ad\<lparr>in_card_idx := i\<rparr>) = desk_of w ad"
  "desk_of w (ad\<lparr>fx_log := l\<rparr>) = desk_of w ad"
  by (rule desk_eqI; simp)+

text \<open>A stream that is gone: no PCM, no reference, and other effects and channels.\<close>

lemma no_pcm_ok:
  assumes "hal_ok w d" and "\<not> d_rec d" and "fx_ok (os_bits w) x"
  shows "hal_ok w (d\<lparr>d_pcm := NoPcm, d_rec_echo := None, d_fx := x\<rparr>)"
  using assms by (auto simp: hal_ok_def desk_ok_def desk_books_def held_def)

lemma open_in_ok:
  assumes ok: "hal_ok w (desk_of w ad)" and sb: "i_standby (in_stream ad)"
    and op: "adev_open_input_stream w dv r pcm16 chm ad = Some (e, ad')"
  shows "hal_ok w (desk_of w ad')"
proof -
  have "hal_ok w (desk_of w (ad\<lparr>in_stream := s, in_source := 0\<rparr>))"
    if "i_pcm s = NoPcm" "i_standby s" "i_echo s = None" "effects s = []" "aux_channels s = 0" for s
  proof -
    have "desk_of w (ad\<lparr>in_stream := s\<rparr>) = (desk_of w ad)\<lparr>d_pcm := NoPcm, d_rec_echo := None, d_fx := fx_of s\<rparr>"
      using that sb by (simp add: desk_of_def)
    moreover have "hal_ok w \<dots>"
      using ok sb that by (intro no_pcm_ok) (simp_all add: desk_of_def fx_ok_def fx_of_def)
    ultimately show ?thesis by simp
  qed
  then show ?thesis using op ok
    by (auto simp: adev_open_input_stream_def Let_def split: if_splits option.splits dest!: scan_desk [where w = w])
qed

lemma close_in_ok:
  assumes ok: "hal_ok w (desk_of w ad)" and cl: "adev_close_input_stream w ad = Some ad'"
  shows "hal_ok w (desk_of w ad')"
proof -
  obtain ad1 where a: "do_input_standby w ad = Some ad1"
    and d: "desk_of w ad' = (desk_of w ad1)\<lparr>d_pcm := NoPcm, d_rec_echo := None, d_fx := fx_of ((in_stream ad1)\<lparr>effects := []\<rparr>)\<rparr>"
    using cl by (auto simp: adev_close_input_stream_def desk_of_def set_in_def fx_of_def)
  have ok1: "hal_ok w (desk_of w ad1)" using in_standby_desk [OF a] d_stop_ok [OF ok] by simp
  have "fx_ok (os_bits w) (fx_of ((in_stream ad1)\<lparr>effects := []\<rparr>))"
    using ok1 by (auto simp: hal_ok_def desk_of_def fx_ok_def fx_of_def)
  moreover have "\<not> d_rec (desk_of w ad1)" using in_standby_desk [OF a] d_stop_stops by simp
  ultimately show ?thesis unfolding d using ok1 by (intro no_pcm_ok)
qed

lemma active_echo [simp]: "active_output k (ad\<lparr>echo_ref := r\<rparr>) = active_output k ad" "active_output k (ad\<lparr>echo_count := n\<rparr>) = active_output k ad"
  by (cases k; simp)+

lemma d_put_fields [simp]: "d_rec (d_put r d) = d_rec d" "d_active (d_put r d) = d_active d" "d_call (d_put r d) = d_call d"
  "d_rec_echo (d_put r d) = d_rec_echo d" "d_pcm (d_put r d) = d_pcm d"
  by (simp_all add: d_put_def split: option.splits)

lemma d_put_none: "r = d_live d \<Longrightarrow> d_live (d_put r d) = None"
  by (auto simp: d_put_def split: option.splits)

text \<open>A new reference: the primary stream has it, when it runs.\<close>

lemma new_echo_ok:
  assumes ok: "hal_ok w d" and y: "d_out d OUTPUT_PRIMARY = Some y" "l_run y" and n: "d_live d = None" "d_rec_echo d = None"
  shows "hal_ok w (d\<lparr>d_out := (d_out d)(OUTPUT_PRIMARY \<mapsto> y\<lparr>l_echo := Some e\<rparr>), d_live := Some e, d_rec_echo := Some e\<rparr>)" (is "hal_ok w ?d")
proof -
  have "desk_line_ok OUTPUT_PRIMARY (y\<lparr>l_echo := Some e\<rparr>)" using hal_lineD [OF ok y(1)] y(2) by (simp add: desk_line_ok_def)
  moreover have "d_call d \<Longrightarrow> \<not> runs (d_out d OUTPUT_PRIMARY)" using ok by (simp add: hal_ok_def desk_ok_def)
  then have "\<not> d_call d" using y by auto
  ultimately have "desk_ok ?d" using ok by (simp add: hal_ok_def desk_ok_def)
  moreover have "desk_books d \<Longrightarrow> desk_books ?d" by (erule books_same [where l = "[]"]) (simp_all add: y)
  ultimately show ?thesis using ok by (simp add: hal_ok_def)
qed

lemma echo_set_desk:
  assumes "prim_out ad = Some p"
  shows "desk_of w (set_in (\<lambda>s. s\<lparr>i_echo := Some e\<rparr>) (set_prim (\<lambda>p. p\<lparr>o_echo := Some e\<rparr>) (ad\<lparr>echo_ref := Some e, echo_count := n\<rparr>))) =
    (desk_of w ad)\<lparr>d_out := (d_out (desk_of w ad))(OUTPUT_PRIMARY \<mapsto> (line_of p)\<lparr>l_echo := Some e\<rparr>), d_live := Some e, d_rec_echo := Some e\<rparr>"
proof -
  have l: "line_of (p\<lparr>o_echo := Some e\<rparr>) = (line_of p)\<lparr>l_echo := Some e\<rparr>" by (simp add: line_of_def)
  have "map_option line_of (active_output k (ad\<lparr>prim_out := Some (p\<lparr>o_echo := Some e\<rparr>), echo_ref := Some e, echo_count := n, in_stream := s\<rparr>)) =
      ((d_out (desk_of w ad))(OUTPUT_PRIMARY \<mapsto> (line_of p)\<lparr>l_echo := Some e\<rparr>)) k" for k s
    by (cases k) (simp_all add: desk_of_def l)
  then show ?thesis using assms by (simp add: desk_of_def set_in_def set_prim_def fun_eq_iff l fx_of_def)
qed

lemma get_echo_ok:
  assumes ok: "hal_ok w (desk_of w ad)" and n: "i_echo (in_stream ad) = None" and g: "get_echo_reference w ad = (e, ad')"
  defines "ad'' \<equiv> set_in (\<lambda>s. s\<lparr>i_echo := e\<rparr>) ad'"
  shows "hal_ok w (desk_of w ad'')" "d_rec (desk_of w ad'') = d_rec (desk_of w ad)" "d_active (desk_of w ad'') = d_active (desk_of w ad)"
    "d_call (desk_of w ad'') = d_call (desk_of w ad)"
proof -
  define ad1 where "ad1 = put_echo_reference (echo_ref ad) ad"
  have d1: "desk_of w ad1 = d_put (echo_ref ad) (desk_of w ad)" by (simp add: ad1_def put_echo_desk)
  have r: "d_rec_echo (desk_of w ad) = None" "echo_ref ad = d_live (desk_of w ad)" using n by (simp_all add: desk_of_def)
  have f: "d_rec (desk_of w ad1) = d_rec (desk_of w ad)" "d_active (desk_of w ad1) = d_active (desk_of w ad)" "d_call (desk_of w ad1) = d_call (desk_of w ad)"
    "d_rec_echo (desk_of w ad1) = None" "d_live (desk_of w ad1) = None"
    using r d_put_none [OF r(2)] by (simp_all add: d1)
  have "(desk_of w ad1)\<lparr>d_rec_echo := None\<rparr> = desk_of w ad1" using f(4) by simp
  moreover have "hal_ok w ((desk_of w ad1)\<lparr>d_rec_echo := None\<rparr>)"
    unfolding d1 by (rule d_put_ok [OF ok _ r(2)]) (simp add: r(1))
  ultimately have ok1: "hal_ok w (desk_of w ad1)" by (simp only:)
  have l1: "echo_ref ad1 = None" using f(5) by (simp add: desk_of_def)
  have g': "ad' = (if prim_running ad1 \<and> os_echo w (echo_count ad1)
       then set_prim (\<lambda>p. p\<lparr>o_echo := Some (echo_count ad1)\<rparr>) (ad1\<lparr>echo_ref := Some (echo_count ad1), echo_count := Suc (echo_count ad1)\<rparr>)
       else ad1)" "e = echo_ref ad'"
    using g unfolding get_echo_reference_def ad1_def [symmetric] by (auto simp: Let_def split: if_splits)
  have "hal_ok w (desk_of w ad'') \<and> d_rec (desk_of w ad'') = d_rec (desk_of w ad1) \<and> d_active (desk_of w ad'') = d_active (desk_of w ad1) \<and>
      d_call (desk_of w ad'') = d_call (desk_of w ad1)"
  proof (cases "prim_running ad1 \<and> os_echo w (echo_count ad1)")
    case True
    then obtain p where p: "prim_out ad1 = Some p" "\<not> o_standby p" by (auto simp: prim_running_def split: option.splits)
    let ?e = "echo_count ad1"
    have d: "desk_of w ad'' = (desk_of w ad1)\<lparr>d_out := (d_out (desk_of w ad1))(OUTPUT_PRIMARY \<mapsto> (line_of p)\<lparr>l_echo := Some ?e\<rparr>),
        d_live := Some ?e, d_rec_echo := Some ?e\<rparr>"
    proof -
      have "ad' = set_prim (\<lambda>p. p\<lparr>o_echo := Some ?e\<rparr>) (ad1\<lparr>echo_ref := Some ?e, echo_count := Suc ?e\<rparr>)" using True g'(1) by simp
      moreover have "e = Some ?e" using True g' by (simp add: set_prim_def)
      ultimately show ?thesis using echo_set_desk [OF p(1), of w ?e "Suc ?e"] by (simp only: ad''_def)
    qed
    have "d_out (desk_of w ad1) OUTPUT_PRIMARY = Some (line_of p)" "l_run (line_of p)" using p by (simp_all add: desk_of_def line_of_def)
    then show ?thesis unfolding d using new_echo_ok [OF ok1 _ _ f(5,4)] by simp
  next
    case False
    then have a: "ad' = ad1" using g'(1) by (auto split: if_splits)
    then have "e = None" using g'(2) l1 by simp
    then have "desk_of w ad'' = desk_of w ad1" using f(4) by (simp add: ad''_def a desk_of_def set_in_def fx_of_def)
    then show ?thesis using ok1 by simp
  qed
  then show "hal_ok w (desk_of w ad'')" "d_rec (desk_of w ad'') = d_rec (desk_of w ad)" "d_active (desk_of w ad'') = d_active (desk_of w ad)"
    "d_call (desk_of w ad'') = d_call (desk_of w ad)" using f by simp_all
qed

text \<open>The start of the capture stream leaves it with an open PCM, or in standby with none.\<close>

lemma opened_ok:
  assumes ok: "hal_ok w d" and f: "\<not> d_rec d" "d_active d" "\<not> d_call d"
  shows "hal_ok w (d\<lparr>d_pcm := OpenPcm c, d_rec := True, d_log := d_log d @ [PcmOpen c x]\<rparr>)"
    "hal_ok w (d\<lparr>d_pcm := ClosedPcm, d_active := False, d_log := d_log d @ [PcmOpen c x, PcmClose c]\<rparr>)"
  using assms by (auto simp: hal_ok_def desk_ok_def desk_books_def held_def)

lemma active_start [simp]: "desk_of w (ad\<lparr>active_input := x\<rparr>) = (desk_of w ad)\<lparr>d_active := x\<rparr>"
  by (simp add: desk_of_def)

lemma stale_desk [simp]: "desk_of w (ad\<lparr>stale_input := x\<rparr>) = desk_of w ad"
  by (simp add: desk_of_def)

lemma run_in_desk: "desk_of w (set_in (\<lambda>s. s\<lparr>i_standby := False, mute_500ms := f s\<rparr>) ad) = (desk_of w ad)\<lparr>d_rec := True\<rparr>"
  by (simp add: desk_of_def set_in_def fx_of_def)

lemma open_input_ok:
  assumes ok: "hal_ok w (desk_of w ad)" and f: "\<not> d_rec (desk_of w ad)" "d_active (desk_of w ad)" "\<not> d_call (desk_of w ad)"
    and op: "open_input w c cfg ad = Some (e, ad')"
  shows "if e = 0 then hal_ok w ((desk_of w ad')\<lparr>d_rec := True\<rparr>) else hal_ok w (desk_of w ad')"
proof -
  obtain r ch fm where cfg: "cfg = (r, ch, fm)" by (cases cfg)
  define ad1 where "ad1 = set_in (\<lambda>s. s\<lparr>i_rate := r, i_channels := ch, i_format := fm\<rparr>) ad"
  define ad2 where "ad2 = (if need_echo (in_stream ad1) \<and> i_echo (in_stream ad1) = None
      then (case get_echo_reference w ad1 of (e, ad') \<Rightarrow> set_in (\<lambda>s. s\<lparr>i_echo := e\<rparr>) ad') else ad1)"
  define x where "x = os_ready w (pcm_log ad2) c"
  have d1: "desk_of w ad1 = desk_of w ad" unfolding ad1_def by (rule set_in_desk) (simp add: fx_of_def)
  obtain y ad0 where g: "get_echo_reference w ad1 = (y, ad0)" by force
  have 2: "hal_ok w (desk_of w ad2)" "\<not> d_rec (desk_of w ad2)" "d_active (desk_of w ad2)" "\<not> d_call (desk_of w ad2)"
    using get_echo_ok [OF _ _ g] ok f d1 g by (auto simp: ad2_def)
  have run: "(if \<not> x then Some (- ENOMEM, (set_in (\<lambda>s. s\<lparr>i_pcm := ClosedPcm\<rparr>) (did (PcmClose c) (did (PcmOpen c x) ad2)))\<lparr>active_input := False\<rparr>)
      else (case renew_resampler w r (in_stream (did (PcmOpen c x) ad2)) of
              None \<Rightarrow> None
            | Some s \<Rightarrow> Some (0, (did (PcmOpen c x) ad2)\<lparr>in_stream := s\<lparr>i_pcm := OpenPcm c, read_buf_frames := 0, proc_buf := []\<rparr>\<rparr>))) = Some (e, ad')"
    using op unfolding cfg open_input_def x_def ad2_def ad1_def Let_def prod.case .
  show ?thesis
  proof (cases x)
    case False
    then have "e \<noteq> 0" "desk_of w ad' = (desk_of w ad2)\<lparr>d_pcm := ClosedPcm, d_active := False, d_log := d_log (desk_of w ad2) @ [PcmOpen c x, PcmClose c]\<rparr>"
      using run by (auto simp: ENOMEM_def desk_of_def did_def set_in_def fx_of_def)
    then show ?thesis using opened_ok(2) [OF 2] by simp
  next
    case True
    then obtain s where s: "renew_resampler w r (in_stream ad2) = Some s" "e = 0"
      and a: "ad' = (did (PcmOpen c x) ad2)\<lparr>in_stream := s\<lparr>i_pcm := OpenPcm c, read_buf_frames := 0, proc_buf := []\<rparr>\<rparr>"
      using run by (auto simp: did_def split: option.splits)
    have "i_echo s = i_echo (in_stream ad2)" "fx_of s = fx_of (in_stream ad2)"
      using s(1) by (auto simp: renew_resampler_def fx_of_def split: if_splits)
    then have "(desk_of w ad')\<lparr>d_rec := True\<rparr> = (desk_of w ad2)\<lparr>d_pcm := OpenPcm c, d_rec := True, d_log := d_log (desk_of w ad2) @ [PcmOpen c x]\<rparr>"
      by (simp add: a desk_of_def did_def fx_of_def)
    then show ?thesis using opened_ok(1) [OF 2] s(2) by simp
  qed
qed

lemma in_start_ok:
  assumes ok: "hal_ok w (desk_of w ad)" and sb: "i_standby (in_stream ad)" and st: "start_input_stream w ad = Some (e, ad')"
  shows "if e = 0 then hal_ok w ((desk_of w ad')\<lparr>d_rec := True\<rparr>) else hal_ok w (desk_of w ad')"
proof (cases "ad_mode ad = mode_in_call (os_bits w)")
  case True
  then have "e \<noteq> 0 \<and> ad' = ad" using st by (auto simp: start_input_stream_def cavan_check_audio_mode_def EBUSY_def)
  then show ?thesis using ok by simp
next
  case False
  then obtain ad2 where a: "select_input_device (os_mixers w) (os_bits w) (ad\<lparr>active_input := True, stale_input := False, in_device := i_device (in_stream ad)\<rparr>) = Some ad2"
    and b: "start_on_card w ad2 = Some (e, ad')"
    using st by (auto simp: start_input_stream_def cavan_check_audio_mode_def Let_def split: option.splits)
  have d2: "desk_of w ad2 = (desk_of w ad)\<lparr>d_active := True\<rparr>" using select_input_desk [OF a, of w] by simp
  have 3: "hal_ok w (desk_of w ad2)" "\<not> d_rec (desk_of w ad2)" "d_active (desk_of w ad2)" "\<not> d_call (desk_of w ad2)"
  proof -
    have "\<not> d_rec (desk_of w ad)" "\<not> d_call (desk_of w ad)" using sb False by (simp_all add: desk_of_def)
    then show "hal_ok w (desk_of w ad2)" "\<not> d_rec (desk_of w ad2)" "d_active (desk_of w ad2)" "\<not> d_call (desk_of w ad2)"
      using ok unfolding d2 by (auto simp: hal_ok_def desk_ok_def desk_books_def held_def)
  qed
  consider "e \<noteq> 0" "desk_of w ad' = desk_of w ad2"
    | i c cfg where "open_input w c cfg (ad2\<lparr>in_card_idx := i\<rparr>) = Some (e, ad')"
    using b by (auto simp: start_on_card_def EINVAL_def split: option.splits prod.splits)
  then show ?thesis
  proof cases
    case 1
    then show ?thesis using 3 by simp
  next
    case (2 i c cfg)
    then show ?thesis using 3 by (intro open_input_ok) simp_all
  qed
qed

lemma capture_ready_ok:
  assumes "hal_ok w (desk_of w ad)" and "in_ready w ad = Some (e, ad')"
  shows "hal_ok w (desk_of w ad')"
  using assms in_start_ok [of w ad] by (auto simp: in_ready_def run_in_desk split: if_splits option.splits)

lemma capture_read_ok:
  assumes ok: "hal_ok w (desk_of w ad)" and rd: "in_read w n ad = Some (xs, ad')"
  shows "hal_ok w (desk_of w ad')"
proof -
  obtain e ad1 where r: "in_ready w ad = Some (e, ad1)" using rd by (auto simp: in_read_def in_fill_def Let_def split: option.splits)
  have ok1: "hal_ok w (desk_of w ad1)" using ok r by (rule capture_ready_ok)
  show ?thesis
  proof (cases "e < 0")
    case False
    then obtain ad2 q ys s m where s: "spdif_in_rate_check w ad1 = Some ad2" and c: "capture w n (in_stream ad2) = Some (q, ys, s)"
      and a: "ad' = ad2\<lparr>in_stream := s\<lparr>mute_500ms := m\<rparr>\<rparr>"
      using rd r by (auto simp: in_read_def in_fill_def set_in_def Let_def split: option.splits prod.splits)
    have "\<exists>t. ad2 = ad1\<lparr>in_stream := t\<rparr>"
      using s by (auto simp: spdif_in_rate_check_def Let_def split: option.splits if_splits intro: exI [of _ "in_stream ad1"])
    then have "desk_of w ad2 = desk_of w ad1" using same_in_desk spdif_same [OF s] by fastforce
    moreover have "desk_of w ad' = desk_of w ad2"
      using alsa_capture_same [OF c] by (simp add: a desk_of_def same_stream_def fx_of_def)
    ultimately show ?thesis using ok1 by simp
  qed (use rd r ok1 in \<open>simp add: in_read_def in_fill_def Let_def\<close>)
qed

section \<open>Effects\<close>

lemma command_log: "\<exists>l. snd (command w h c r) = (snd r)\<lparr>fx_log := l\<rparr>"
  by (cases "os_command w (fx_log (snd r)) h c") (simp add: command_def, rule exI, rule refl)

lemma same_fx_log: "\<exists>l. ad = ad\<lparr>fx_log := l\<rparr>"
  by (rule exI [of _ "fx_log ad"]) simp

lemma configure_log: "\<exists>l. snd (in_configure_effect_channels w h c ad) = ad\<lparr>fx_log := l\<rparr>"
proof -
  define ad1 where "ad1 = ad\<lparr>fx_log := fx_log ad @ [(h, GetConfig)]\<rparr>"
  obtain l where l: "snd (command w h (SetConfig (fst c OR snd c)) (0, ad1)) = ad1\<lparr>fx_log := l\<rparr>" using command_log [of w h _ "(0, ad1)"] by auto
  obtain m where m: "snd (command w h (SetAux c) (command w h (SetConfig (fst c OR snd c)) (0, ad1))) = ad1\<lparr>fx_log := m\<rparr>"
    using command_log [of w h "SetAux c" "command w h (SetConfig (fst c OR snd c)) (0, ad1)"] l by auto
  obtain n where "snd (command w h Enable (command w h (SetAux c) (command w h (SetConfig (fst c OR snd c)) (0, ad1)))) = ad1\<lparr>fx_log := n\<rparr>"
    using command_log [of w h Enable "command w h (SetAux c) (command w h (SetConfig (fst c OR snd c)) (0, ad1))"] m by auto
  then show ?thesis unfolding in_configure_effect_channels_def Let_def ad1_def by auto
qed

lemma configure_all_log:
  "\<exists>l. snd (fold (\<lambda>e (st, ad). case in_configure_effect_channels w (ef_handle e) c ad of
                             (cur, ad') \<Rightarrow> (if cur \<noteq> 0 then cur else st, ad')) es (st, ad)) = ad\<lparr>fx_log := l\<rparr>"
proof (induction es arbitrary: st ad)
  case Nil
  show ?case using same_fx_log by simp
next
  case (Cons e es)
  obtain cur ad1 where c: "in_configure_effect_channels w (ef_handle e) c ad = (cur, ad1)" by force
  then obtain l where "ad1 = ad\<lparr>fx_log := l\<rparr>" using configure_log [of w "ef_handle e" c ad] by auto
  then show ?case using Cons.IH [of "if cur \<noteq> 0 then cur else st" ad1] c by auto
qed

lemma reconfigure_log: "\<exists>l. snd (in_reconfigure_channels w effect c changed ad) = ad\<lparr>fx_log := l\<rparr>"
proof (cases changed)
  case True
  then show ?thesis using configure_all_log by (simp add: in_reconfigure_channels_def)
next
  case False
  show ?thesis
  proof (cases effect)
    case None
    then show ?thesis unfolding in_reconfigure_channels_def using False same_fx_log by (simp only: if_False option.case snd_conv)
  next
    case (Some h)
    show ?thesis
    proof (cases "snd c = 0")
      case True
      then show ?thesis unfolding in_reconfigure_channels_def using False Some same_fx_log by (simp only: if_False option.case snd_conv simp_thms)
    next
      case nz: False
      then show ?thesis unfolding in_reconfigure_channels_def using False Some configure_log [of w h c ad] by (simp only: if_False if_True option.case simp_thms)
    qed
  qed
qed

lemma command_desk [simp]: "desk_of w (snd (command w h c r)) = desk_of w (snd r)"
proof -
  obtain l where "snd (command w h c r) = (snd r)\<lparr>fx_log := l\<rparr>" using command_log by blast
  then show ?thesis by simp
qed

lemma reverse_desk: "desk_of w (in_configure_reverse w ad) = desk_of w ad"
proof -
  have "desk_of w (fold (\<lambda>e ad. if os_reverse w (ef_handle e)
                    then snd (command w (ef_handle e) (SetReverse (main_channels (in_stream ad))) (0, ad)) else ad) es ad) = desk_of w ad" for es
    by (induction es arbitrary: ad) simp_all
  then show ?thesis by (simp add: in_configure_reverse_def)
qed

text \<open>The invariant without the effects; a change of the effects alone keeps it.\<close>

definition hal_base :: "Os \<Rightarrow> desk \<Rightarrow> bool" where
  "hal_base w d = (desk_ok d \<and> (all_ready w \<longrightarrow> desk_books d))"

lemma hal_base_ok: "hal_ok w d = (hal_base w d \<and> fx_ok (os_bits w) (d_fx d))"
  by (auto simp: hal_ok_def hal_base_def)

lemma hal_base_fx [simp]: "hal_base w (d\<lparr>d_fx := x\<rparr>) = hal_base w d"
  by (simp add: hal_base_def desk_ok_def desk_books_def held_def)

lemma set_fx_desk:
  assumes "\<And>s. i_pcm (f s) = i_pcm s \<and> i_standby (f s) = i_standby s \<and> i_echo (f s) = i_echo s"
  shows "desk_of w (set_in f ad) = (desk_of w ad)\<lparr>d_fx := fx_of (f (in_stream ad))\<rparr>"
  using assms by (simp add: desk_of_def set_in_def)

lemma get_aux_supported: "in_get_aux_channels b s \<noteq> 0 \<Longrightarrow> aux_supported b s (in_get_aux_channels b s)"
  by (auto simp: in_get_aux_channels_def aux_supported_def in_aux_cnl_configs_def match_count_all split: if_splits)

lemma update_aux_ok:
  assumes ok: "hal_base w (desk_of w ad)" and len: "length (effects (in_stream ad)) \<le> MAX_PREPROCESSORS"
    and u: "in_update_aux_channels w effect ad = Some ad'"
  shows "hal_ok w (desk_of w ad')"
proof -
  let ?s = "in_stream ad" and ?aux = "in_get_aux_channels (os_bits w) (in_stream ad)"
  obtain st ad1 where r: "in_reconfigure_channels w effect (main_channels ?s, ?aux) (?aux \<noteq> aux_channels ?s) ad = (st, ad1)"
    by force
  then obtain l where l: "ad1 = ad\<lparr>fx_log := l\<rparr>" using reconfigure_log [of w effect "(main_channels ?s, ?aux)" _ ad] by (metis snd_conv)
  obtain a ad2 where a: "(if st \<noteq> 0 then (0, snd (in_reconfigure_channels w effect (main_channels ?s, 0) True ad1)) else (?aux, ad1)) = (a, ad2)"
    by force
  obtain m where m: "ad2 = ad\<lparr>fx_log := m\<rparr>"
    using a l reconfigure_log [of w effect "(main_channels ?s, 0)" True ad1] by (cases "st \<noteq> 0") auto
  have d2: "desk_of w ad2 = desk_of w ad" "in_stream ad2 = ?s" by (simp_all add: m)
  have "a = 0 \<or> a = ?aux" using a by (auto split: if_splits)
  then have fx: "fx_ok (os_bits w) (fx_of (?s\<lparr>aux_channels := a\<rparr>))"
    using len get_aux_supported [of "os_bits w" ?s] by (auto simp: fx_ok_def fx_of_def aux_supported_def)
  have v: "(if aux_channels ?s \<noteq> a then do_input_standby w (set_in (\<lambda>s. s\<lparr>aux_channels := a\<rparr>) ad2) else Some ad2) = Some ad'"
    using u r a d2(2) by (simp add: in_update_aux_channels_def Let_def)
  show ?thesis
  proof (cases "aux_channels ?s = a")
    case True
    then have "fx_ok (os_bits w) (fx_of ?s)" using fx by (simp add: fx_of_def)
    then show ?thesis using v True ok d2 by (auto simp: hal_base_ok desk_of_def)
  next
    case False
    let ?ad3 = "set_in (\<lambda>s. s\<lparr>aux_channels := a\<rparr>) ad2"
    have "desk_of w ?ad3 = (desk_of w ad)\<lparr>d_fx := fx_of (?s\<lparr>aux_channels := a\<rparr>)\<rparr>" using set_fx_desk [of "\<lambda>s. s\<lparr>aux_channels := a\<rparr>" w ad2] d2 by simp
    then have "hal_ok w (desk_of w ?ad3)" using ok fx by (simp add: hal_base_ok)
    then show ?thesis using v False d_stop_ok by (auto dest!: in_standby_desk)
  qed
qed

lemma need_echo_desk [simp]: "desk_of w (set_in (\<lambda>s. s\<lparr>need_echo := x\<rparr>) ad) = desk_of w ad"
  by (rule set_in_desk) (simp add: fx_of_def)

lemma capture_standby_ok: "hal_ok w (desk_of w ad) \<Longrightarrow> do_input_standby w ad = Some ad' \<Longrightarrow> hal_ok w (desk_of w ad')"
  by (simp add: in_standby_desk d_stop_ok)

lemma few_effects: "hal_ok w (desk_of w ad) \<Longrightarrow> length (effects (in_stream ad)) \<le> MAX_PREPROCESSORS"
  by (simp add: hal_ok_def desk_of_def fx_ok_def fx_of_def)

lemma effects_base:
  assumes "hal_ok w (desk_of w ad)"
  shows "hal_base w (desk_of w (set_in (\<lambda>s. s\<lparr>effects := f s\<rparr>) ad))" "hal_base w (desk_of w (set_in (\<lambda>s. s\<lparr>i_device := v\<rparr>) ad))"
  using assms by (simp_all add: set_fx_desk hal_base_ok)

lemma add_effect_ok:
  assumes ok: "hal_ok w (desk_of w ad)" and add: "in_add_audio_effect w h ad = Some (e, ad')"
  shows "hal_ok w (desk_of w ad')"
proof (cases "ad' = ad")
  case False
  let ?ad1 = "set_in (\<lambda>s. s\<lparr>effects := effects s @ [\<lparr>ef_handle = h, ef_configs = in_read_audio_effect_channel_configs w h\<rparr>]\<rparr>) ad"
  obtain ad2 where u: "in_update_aux_channels w (Some h) ?ad1 = Some ad2" and n: "length (effects (in_stream ad)) < MAX_PREPROCESSORS"
    using add False by (auto simp: in_add_audio_effect_def split: if_splits option.splits prod.splits)
  have "hal_ok w (desk_of w ad2)" using effects_base(1) [OF ok] _ u by (rule update_aux_ok) (use n in \<open>simp add: set_in_def\<close>)
  then show ?thesis using add u n False
    by (auto simp: in_add_audio_effect_def reverse_desk split: if_splits prod.splits intro!: d_stop_ok dest!: in_standby_desk)
qed (use ok in simp)

lemma remove_slot_length: "remove_slot h es = Some fs \<Longrightarrow> length fs \<le> length es"
  by (induction es arbitrary: fs) (force split: if_splits)+

lemma remove_effect_ok:
  assumes ok: "hal_ok w (desk_of w ad)" and rm: "in_remove_audio_effect w h ad = Some (e, ad')"
  shows "hal_ok w (desk_of w ad')"
proof (cases "ad' = ad")
  case False
  obtain es ad2 where es: "remove_slot h (effects (in_stream ad)) = Some es"
    and u: "in_update_aux_channels w None (set_in (\<lambda>s. s\<lparr>effects := es\<rparr>) ad) = Some ad2" and ne: "effects (in_stream ad) \<noteq> []"
    using rm False by (auto simp: in_remove_audio_effect_def split: if_splits option.splits prod.splits)
  have "hal_ok w (desk_of w ad2)"
    using effects_base(1) [OF ok] _ u by (rule update_aux_ok) (use remove_slot_length [OF es] few_effects [OF ok] in \<open>simp add: set_in_def\<close>)
  then show ?thesis using rm u es ne False
    by (auto simp: in_remove_audio_effect_def split: if_splits prod.splits intro!: d_stop_ok dest!: in_standby_desk)
qed (use ok in simp)

lemma scan_in_stream: "scan_available_device b y rescan ad = Some (e, ad') \<Longrightarrow> in_stream ad' = in_stream (ad :: 'a Alsa_scheme)"
  by (drule scan_more) (cases ad; cases ad'; simp)

lemma new_device_ok:
  assumes ok: "hal_ok w (desk_of w ad)" and s: "set_in_device w v ad = Some ad'"
  shows "hal_ok w (desk_of w ad')"
proof -
  let ?ad0 = "set_in (\<lambda>s. s\<lparr>i_device := v\<rparr>) ad"
  obtain ad1 where d: "(if v AND in_usb_device (os_bits w) \<noteq> 0
             then map_option snd (scan_available_device (os_bits w) (os_sys w) False ?ad0) else Some ?ad0) = Some ad1"
    and u: "in_update_aux_channels w None ad1 = Some ad'"
    using s by (auto simp: set_in_device_def Let_def split: option.splits)
  have 1: "desk_of w ad1 = desk_of w ?ad0" "in_stream ad1 = in_stream ?ad0"
    using d by (auto split: if_splits dest: scan_desk [where w = w] scan_in_stream)
  show ?thesis using _ _ u
    by (rule update_aux_ok) (use effects_base(2) [OF ok] few_effects [OF ok] 1 in \<open>simp_all add: set_in_def\<close>)
qed

lemma set_source_desk: "desk_of w (snd (set_source src ad)) = desk_of w ad"
  by (simp add: set_source_def Let_def split: option.splits)

lemma set_input_ok:
  assumes ok: "hal_ok w (desk_of w ad)" and st: "in_set_parameters w src dev ad = Some ad'"
  shows "hal_ok w (desk_of w ad')"
proof -
  obtain sb ad1 where s: "set_source src ad = (sb, ad1)" by force
  then have "hal_ok w (desk_of w ad1)" using ok set_source_desk [of w src ad] by simp
  then show ?thesis using st s
    by (auto simp: in_set_parameters_def Let_def split: if_splits option.splits intro: capture_standby_ok new_device_ok)
qed

section \<open>All calls\<close>

lemma step_ok:
  assumes "hal_ok w (desk_of w ad)" and "alsa_step w c ad = Some ad'"
  shows "hal_ok w (desk_of w ad')"
proof (cases c)
  case (WriteOutput k xs)
  then show ?thesis using assms by (cases k) (auto intro: write_primary_ok write_hdmi_ok write_esai_ok)
next
  case (OpenOutput direct d r m)
  then show ?thesis using assms by (auto split: if_splits intro: open_output_ok)
next
  case (CloseOutput k)
  then show ?thesis using assms by (auto split: if_splits intro: close_output_ok)
next
  case (StandbyOutput k)
  then show ?thesis using assms by (auto simp: standby_desk d_standby_ok split: if_splits)
next
  case (SetOutput k dev)
  then show ?thesis using assms by (auto split: if_splits intro: set_output_ok)
next
  case (OpenInput d r pcm16 m)
  then show ?thesis using assms by (auto split: if_splits intro: open_in_ok)
next
  case CloseInput
  then show ?thesis using assms by (auto split: if_splits intro: close_in_ok)
next
  case StandbyInput
  then show ?thesis using assms by (auto split: if_splits intro: capture_standby_ok)
next
  case (SetInput src dev)
  then show ?thesis using assms by (auto split: if_splits intro: set_input_ok)
next
  case (ReadInput n)
  then show ?thesis using assms by (auto split: if_splits intro: capture_read_ok)
next
  case (AddEffect h)
  then show ?thesis using assms by (auto split: if_splits intro: add_effect_ok)
next
  case (RemoveEffect h)
  then show ?thesis using assms by (auto split: if_splits intro: remove_effect_ok)
next
  case (SetMode m)
  then show ?thesis using assms by (auto split: if_splits intro: set_mode_ok)
next
  case (SetParameters tty screen)
  then show ?thesis using assms by (auto split: if_splits intro: set_parameters_ok)
next
  case (SetMicMute x)
  then show ?thesis using assms by (auto simp: adev_set_mic_mute_def)
qed

interpretation alsa_session: partial_stepper "alsa_step w" "\<lambda>ad. hal_ok w (desk_of w ad)"
  by unfold_locales (rule step_ok)

end
