(* ===== verification/Alsa_Session.thy ===== *)
theory Alsa_Session
  imports Alsa_Calls
begin

text \<open>
  What holds of the ALSA audio HAL after any sequence of calls on the opened device, and an error path that leaves a
  PCM open; with a session on a board that has one codec.
\<close>

section \<open>A board with a codec, and mixers without controls\<close>

definition quiet_mixers :: Mixers where
  "quiet_mixers = \<lparr>ctl_by_name = (\<lambda>m s. None), num_values = (\<lambda>m c. 0)\<rparr>"

definition quiet_os :: Os where
  "quiet_os = demo_os\<lparr>os_mixers := quiet_mixers\<rparr>"

definition codec_board :: "'a Cards_scheme \<Rightarrow> bool" where
  "codec_board ad =
     (card_list ad = [Some 1, Some 6, Some 6, Some 6] \<and> supported_out (cards ad ! 1) = codec_out demo_bits \<and>
      card_no (cards ad ! 1) = 0)"

lemma quiet_path: "snd (set_route_by_array quiet_mixers m r en) = []"
proof -
  have "snd (set_settings quiet_mixers k en rs) = []" for k rs by (cases rs) (simp_all add: quiet_mixers_def)
  then show ?thesis by (simp add: set_route_by_array_def split: option.splits)
qed

lemma quiet_route: "codec_board ad \<Longrightarrow> route_all quiet_mixers st ad = Some ad"
proof -
  assume b: "codec_board ad"
  have "[0..<MAX_AUDIO_CARD_NUM] = [0, 1, 2, 3]" by (simp add: card_numbers upt_rec)
  then show "route_all quiet_mixers st ad = Some ad" using b by (simp add: route_all_def route_card_def quiet_path codec_board_def)
qed

lemma quiet_select: "codec_board ad \<Longrightarrow> select_output_device quiet_mixers b ad = Some ad"
  by (simp add: select_output_device_def quiet_route split: prod.splits)

lemma codec_names: "driver_name (wm8958_card b) = ''wm8958-audio''" "driver_name (wm8962_card b) = ''wm8962-audio''"
  "supported_out (wm8962_card b) = codec_out b"
  by (simp_all add: wm8958_card_def wm8962_card_def)

lemma codec_scan:
  "\<exists>ad. scan_available_device demo_bits demo_sys True (adev_zero (audio_card_list demo_bits)) = Some (0, ad) \<and> codec_board ad"
proof -
  have s: "[0..<MAX_AUDIO_CARD_SCAN] = 0 # [1..<MAX_AUDIO_CARD_SCAN]" by (simp add: card_numbers upt_rec)
  have k: "known_card (audio_card_list demo_bits) ''wm8962-audio'' = Some 1"
    by (simp add: known_card_def audio_card_list_def upt_rec codec_names)
  have t: "[Suc 0..<MAX_AUDIO_CARD_SCAN] = Suc 0 # [Suc (Suc 0)..<MAX_AUDIO_CARD_SCAN]" by (simp add: card_numbers upt_rec)
  have c: "length (audio_card_list demo_bits) = 7" "audio_card_list demo_bits ! Suc 0 = wm8962_card demo_bits"
    by (simp_all add: audio_card_list_def)
  have n: "replicate 4 x = [x, x, x, x]" "replicate 3 x = [x, x, x]" "MAX_AUDIO_CARD_NUM = 4" "SUPPORT_CARD_NUM = 7" for x :: "'b option"
    by (simp_all add: card_numbers numeral_eq_Suc)
  show ?thesis
    by (simp add: scan_available_device_def s t k c n adev_zero_def demo_sys_def scan_listed.simps enter_card_def probe_card_def
        codec_names fill_null_def codec_board_def Let_def)
qed

lemma codec_board_frame [simp]:
  "codec_board (ad\<lparr>default_rate := r\<rparr>) = codec_board ad" "codec_board (ad\<lparr>ad_mode := m\<rparr>) = codec_board ad"
  "codec_board (ad\<lparr>out_device := v\<rparr>) = codec_board ad" "codec_board (ad\<lparr>in_device := v\<rparr>) = codec_board ad"
  "codec_board (ad\<lparr>tty_mode := t\<rparr>) = codec_board ad" "codec_board (ad\<lparr>device_is_auto := x\<rparr>) = codec_board ad"
  "codec_board (ad\<lparr>prim_out := p\<rparr>) = codec_board ad" "codec_board (ad\<lparr>pcm_log := l\<rparr>) = codec_board ad"
  "codec_board (ad\<lparr>in_call := x\<rparr>) = codec_board ad" "codec_board (ad\<lparr>pcm_writes := n\<rparr>) = codec_board ad"
  by (simp_all add: codec_board_def)

lemma codec_open:
  "\<exists>ad. adev_open quiet_os True ''sabresd'' (audio_card_list demo_bits) = Some (0, Some ad) \<and> codec_board ad \<and>
     prim_out ad = None \<and> hdmi_out ad = None \<and> esai_out ad = None \<and> in_stream ad = no_input \<and> in_call ad = False \<and>
     ad_mode ad = 0 \<and> pcm_log ad = [] \<and> echo_ref ad = None \<and> active_input ad = False \<and> pcm_writes ad = 0"
proof -
  obtain ad where s: "scan_available_device demo_bits demo_sys True (adev_zero (audio_card_list demo_bits)) = Some (0, ad)"
    and b: "codec_board ad" using codec_scan by blast
  have o: "os_bits quiet_os = demo_bits" "os_sys quiet_os = demo_sys" "os_mixers quiet_os = quiet_mixers" "mode_normal demo_bits = 0"
    by (simp_all add: quiet_os_def demo_os_def demo_bits_def)
  have m: "Cards.more ad = Cards.more (adev_zero (audio_card_list demo_bits))" using s by (rule scan_more)
  have f: "prim_out ad = None" "hdmi_out ad = None" "esai_out ad = None" "in_stream ad = no_input" "in_call ad = False"
     "pcm_log ad = []" "echo_ref ad = None" "active_input ad = False" "pcm_writes ad = 0"
    using m by (cases ad; simp add: adev_zero_def)+
  show ?thesis
    by (simp add: adev_open_def s o f quiet_route quiet_select b Let_def)
qed

definition demo_stream :: stream_out where
  "demo_stream = new_stream 2 3 [3, 0, 0] (44100 # replicate 19 0)"

lemma codec_play:
  assumes b: "codec_board ad" and p: "prim_out ad = None" "hdmi_out ad = None" "esai_out ad = None"
    and f: "ad_mode ad = 0" "echo_ref ad = None" "active_input ad = False" "pcm_log ad = []" "in_call ad = False"
  shows "\<exists>ad1 p. alsa_run quiet_os [OpenOutput False 2 44100 3, WriteOutput OUTPUT_PRIMARY [1, 2]] ad = Some ad1 \<and>
     prim_out ad1 = Some p \<and> \<not> o_standby p \<and> codec_board ad1 \<and> ad_mode ad1 = 0 \<and> active_input ad1 = False \<and> in_call ad1 = False"
proof -
  have o: "os_bits quiet_os = demo_bits" "os_mixers quiet_os = quiet_mixers" "os_resampler quiet_os = 0" "os_ready quiet_os l c"
    "os_write quiet_os k xs = 0" for l c k xs
    by (simp_all add: quiet_os_def demo_os_def)
  have d: "mode_in_call demo_bits = 2" "2 AND out_digital demo_bits = 0" "2 AND (out_all demo_bits AND NOT (out_digital demo_bits)) = 2"
     "2 AND out_dgtl_dock demo_bits = 0" "ch_out_stereo demo_bits = 3" "2 AND codec_out demo_bits \<noteq> 0"
    by (simp_all add: demo_bits_def codec_out_def)
  show ?thesis
    using b [unfolded codec_board_def] b
    by (simp add: alsa_run_def adev_open_output_stream_def output_kind_def o p Let_def f d out_write_primary_def new_stream_def
        start_output_stream_primary_def cavan_check_audio_mode_def quiet_select open_outputs_def idle_def open_normal_def
        get_card_for_device_def serving_def open_pcm_def did_def close_failed_def resample_out_def out_pcms_def
        pcm_write_wrapper_def pcm_write_once_def set_prim_def voice_input_def freed_input_def)
qed

section \<open>What holds after any calls\<close>

lemma opened_desk:
  assumes "adev_open w named product cs = Some (e, Some ad)" and "mode_normal (os_bits w) \<noteq> mode_in_call (os_bits w)"
  shows "hal_ok w (desk_of w ad)"
proof -
  obtain ad1 where s: "scan_available_device (os_bits w) (os_sys w) True (adev_zero cs) = Some (0, ad1)"
    using assms(1) by (auto simp: adev_open_def split: if_splits option.splits prod.splits)
  then obtain ad2 where r: "route_all (os_mixers w) (defaults, True) (ad1\<lparr>default_rate := mm_rate ad1\<rparr>) = Some ad2"
    using assms(1) by (auto simp: adev_open_def split: if_splits option.splits)
  let ?b = "os_bits w"
  obtain ad3 where o: "select_output_device (os_mixers w) ?b (ad2\<lparr>ad_mode := mode_normal ?b, out_device := out_speaker ?b,
      in_device := in_builtin_mic ?b AND NOT (bit_in ?b)\<rparr>) = Some ad3"
    and ad: "ad = ad3\<lparr>tty_mode := TTY_MODE_OFF, device_is_auto := is_infix ''sabreauto'' product\<rparr>"
    using assms(1) s r by (auto simp: adev_open_def Let_def split: if_splits)
  have m: "Cards.more ad1 = Cards.more (adev_zero cs)" using s by (rule scan_more)
  have f: "prim_out ad1 = None" "hdmi_out ad1 = None" "esai_out ad1 = None" "in_stream ad1 = no_input" "in_call ad1 = False"
     "pcm_log ad1 = []" "echo_ref ad1 = None" "active_input ad1 = False"
    using m by (cases ad1; simp add: adev_zero_def)+
  obtain l1 where 1: "ad2 = ad1\<lparr>default_rate := mm_rate ad1, mix_log := l1\<rparr>" using route_all_log [OF r] by auto
  have g: "prim_out ad = None" "hdmi_out ad = None" "esai_out ad = None" "in_stream ad = no_input" "in_call ad = False"
     "pcm_log ad = []" "echo_ref ad = None" "active_input ad = False" "ad_mode ad = mode_normal ?b"
    using select_output_log [OF o] by (auto simp: ad 1 f)
  have "active_output k ad = None" for k using g by (cases k) simp_all
  then have "desk_of w ad = \<lparr>d_out = \<lambda>k. None, d_pcm = NoPcm, d_rec = False, d_rec_echo = None, d_live = None, d_active = False,
      d_call = False, d_flag = False, d_log = [], d_fx = ([], 0, 0, 0)\<rparr>"
    using g assms(2) by (simp add: desk_of_def no_input_def fx_of_def)
  then show ?thesis by (simp add: hal_ok_def desk_ok_def desk_books_def held_def fx_ok_def)
qed

lemma session_ok:
  assumes "adev_open w named product cs = Some (e, Some ad0)" and "mode_normal (os_bits w) \<noteq> mode_in_call (os_bits w)"
    and "alsa_run w calls ad0 = Some ad"
  shows "hal_ok w (desk_of w ad)"
  using alsa_session.prun_inv [OF opened_desk [OF assms(1,2)]] assms(3) by (simp add: alsa_run_def)

lemma line_fields: "d_out (desk_of w ad) k = map_option line_of (active_output k ad)"
  by (simp add: desk_of_def)

lemma line_pcms: "(l_pcms (line_of p) = (None, None, None)) = (out_pcms p = [])"
  by (auto simp: line_of_def out_pcms_def split: option.splits)

text \<open>C6: Whatever calls are made on the device that was opened: during a phone call no playback stream runs and the
  capture stream is in standby; a playback stream that runs has a PCM to write to, and a capture stream that runs is
  the active input and has an open PCM. So no write or read of a running stream follows a NULL or closed PCM.\<close>

theorem calls_silence_streams:
  assumes "adev_open w named product cs = Some (e, Some ad0)" and "mode_normal (os_bits w) \<noteq> mode_in_call (os_bits w)"
    and "alsa_run w calls ad0 = Some ad"
  shows "(if ad_mode ad = mode_in_call (os_bits w) then (\<forall>k. idle (active_output k ad)) \<and> i_standby (in_stream ad) else True) \<and>
    (\<forall>k. case active_output k ad of None \<Rightarrow> True | Some p \<Rightarrow> o_standby p \<or> out_pcms p \<noteq> []) \<and>
    (i_standby (in_stream ad) \<or> active_input ad \<and> (\<exists>c. i_pcm (in_stream ad) = OpenPcm c))"
proof -
  have ok: "hal_ok w (desk_of w ad)" using assms by (rule session_ok)
  have 1: "idle (active_output k ad)" "i_standby (in_stream ad)" if "ad_mode ad = mode_in_call (os_bits w)" for k
    using ok that by (simp_all add: hal_ok_def desk_ok_def line_of_idle line_fields) (simp_all add: desk_of_def)
  have 2: "o_standby p \<or> out_pcms p \<noteq> []" if "active_output k ad = Some p" for k p
  proof -
    have "desk_line_ok k (line_of p)" using ok by (rule hal_lineD) (simp add: line_fields that)
    moreover have "l_run (line_of p) = (\<not> o_standby p)" by (simp add: line_of_def)
    ultimately show ?thesis unfolding desk_line_ok_def line_pcms [symmetric] by blast
  qed
  have 3: "i_standby (in_stream ad) \<or> active_input ad \<and> (\<exists>c. i_pcm (in_stream ad) = OpenPcm c)"
    using ok by (auto simp: hal_ok_def desk_ok_def desk_of_def)
  show ?thesis using 1 2 3 by (simp split: option.splits)
qed

text \<open>C20: Whatever calls are made, the echo reference that the capture stream or the primary stream uses is the one
  that the device keeps, never one that has been freed; and only a running primary stream has one.\<close>

theorem echo_reference_live:
  assumes "adev_open w named product cs = Some (e, Some ad0)" and "mode_normal (os_bits w) \<noteq> mode_in_call (os_bits w)"
    and "alsa_run w calls ad0 = Some ad"
  shows "(i_echo (in_stream ad) = None \<or> i_echo (in_stream ad) = echo_ref ad) \<and>
    (case prim_out ad of None \<Rightarrow> True | Some p \<Rightarrow> o_echo p = None \<or> o_echo p = echo_ref ad \<and> \<not> o_standby p)"
proof -
  have ok: "hal_ok w (desk_of w ad)" using assms by (rule session_ok)
  have "i_echo (in_stream ad) = None \<or> i_echo (in_stream ad) = echo_ref ad"
    using ok by (cases "i_echo (in_stream ad)") (auto simp: hal_ok_def desk_ok_def desk_of_def)
  moreover have "o_echo p = None \<or> o_echo p = echo_ref ad \<and> \<not> o_standby p" if "prim_out ad = Some p" for p
  proof -
    have "d_out (desk_of w ad) OUTPUT_PRIMARY = Some (line_of p)" using that by (simp add: line_fields)
    from prim_echo [OF ok this] show ?thesis by (auto simp: line_of_def desk_of_def)
  qed
  ultimately show ?thesis by (simp split: option.splits)
qed

text \<open>The PCMs that the streams have.\<close>

definition stream_pcms :: "'a Alsa_scheme \<Rightarrow> int multiset" where
  "stream_pcms ad =
     mset (concat (map (\<lambda>k. case active_output k ad of None \<Rightarrow> [] | Some p \<Rightarrow> map fst (out_pcms p)) [OUTPUT_PRIMARY, OUTPUT_HDMI, OUTPUT_ESAI])) +
     (case i_pcm (in_stream ad) of OpenPcm c \<Rightarrow> {#c#} | _ \<Rightarrow> {#})"

lemma line_mset: "mset (map fst (out_pcms p)) = line_held (Some (line_of p))"
  by (simp add: out_pcms_def line_of_def split: option.splits)

lemma held_pcms: "held (desk_of w ad) = stream_pcms ad"
proof -
  have k: "mset (case active_output k ad of None \<Rightarrow> [] | Some p \<Rightarrow> map fst (out_pcms p)) = line_held (d_out (desk_of w ad) k)" for k
    unfolding line_fields by (cases "active_output k ad") (simp_all only: option.map option.case line_mset line_held_simps mset.simps)
  have "mset (case prim_out ad of None \<Rightarrow> [] | Some p \<Rightarrow> map fst (out_pcms p)) = line_held (d_out (desk_of w ad) OUTPUT_PRIMARY)"
    "mset (case hdmi_out ad of None \<Rightarrow> [] | Some p \<Rightarrow> map fst (out_pcms p)) = line_held (d_out (desk_of w ad) OUTPUT_HDMI)"
    "mset (case esai_out ad of None \<Rightarrow> [] | Some p \<Rightarrow> map fst (out_pcms p)) = line_held (d_out (desk_of w ad) OUTPUT_ESAI)"
    using k [of OUTPUT_PRIMARY] k [of OUTPUT_HDMI] k [of OUTPUT_ESAI] by simp_all
  moreover have "d_pcm (desk_of w ad) = i_pcm (in_stream ad)" by (simp add: desk_of_def)
  ultimately show ?thesis by (simp add: held_def stream_pcms_def rec_held_def ac_simps)
qed

text \<open>C8: When every PCM can be opened: after any calls each PCM that was opened has been closed or belongs to one
  stream, a stream in standby has none, and the primary stream has left the card of every direct stream that runs.\<close>

theorem opened_pcms_accounted:
  assumes "adev_open w named product cs = Some (e, Some ad0)" and "mode_normal (os_bits w) \<noteq> mode_in_call (os_bits w)"
    and "\<forall>l c. os_ready w l c" and "alsa_run w calls ad0 = Some ad"
  shows "pcm_opens (pcm_log ad) = pcm_closes (pcm_log ad) + stream_pcms ad \<and>
    (\<forall>k. case active_output k ad of None \<Rightarrow> True | Some p \<Rightarrow> o_standby p = (out_pcms p = [])) \<and>
    (case prim_out ad of None \<Rightarrow> True
     | Some p \<Rightarrow> (idle (hdmi_out ad) \<or> o_hdmi p = None) \<and> (idle (esai_out ad) \<or> o_normal p = None))"
proof -
  have ok: "hal_ok w (desk_of w ad)" using assms(1,2,4) by (rule session_ok)
  then have b: "desk_books (desk_of w ad)" using assms(3) by (simp add: hal_ok_def all_ready_def)
  have 1: "pcm_opens (pcm_log ad) = pcm_closes (pcm_log ad) + stream_pcms ad"
    using b by (simp add: desk_books_def held_pcms) (simp add: desk_of_def)
  have 2: "o_standby p = (out_pcms p = [])" if "active_output k ad = Some p" for k p
  proof -
    have d: "d_out (desk_of w ad) k = Some (line_of p)" by (simp add: line_fields that)
    then have "desk_line_ok k (line_of p)" using ok by (rule hal_lineD [rotated])
    moreover have "\<not> l_run (line_of p) \<Longrightarrow> l_pcms (line_of p) = (None, None, None)" using b d unfolding desk_books_def by blast
    moreover have "l_run (line_of p) = (\<not> o_standby p)" by (simp add: line_of_def)
    ultimately show ?thesis unfolding desk_line_ok_def line_pcms [symmetric] by blast
  qed
  have 3: "(idle (hdmi_out ad) \<or> o_hdmi p = None) \<and> (idle (esai_out ad) \<or> o_normal p = None)" if "prim_out ad = Some p" for p
  proof -
    have d: "d_out (desk_of w ad) OUTPUT_PRIMARY = Some (line_of p)" by (simp add: line_fields that)
    have "fst (snd (l_pcms (line_of p))) = o_hdmi p" "fst (l_pcms (line_of p)) = o_normal p" by (simp_all add: line_of_def)
    moreover have "runs (d_out (desk_of w ad) OUTPUT_HDMI) = (\<not> idle (hdmi_out ad))" "runs (d_out (desk_of w ad) OUTPUT_ESAI) = (\<not> idle (esai_out ad))"
      by (simp_all add: line_fields line_of_idle)
    ultimately show ?thesis using b d unfolding desk_books_def by metis
  qed
  show ?thesis using 1 2 3 by (simp split: option.splits)
qed

text \<open>C37: Whatever calls are made, a capture stream has at most three effects, and its auxiliary channels are none or
  those of a configuration that the microphone, the table and every effect support.\<close>

theorem aux_channels_supported:
  assumes "adev_open w named product cs = Some (e, Some ad0)" and "mode_normal (os_bits w) \<noteq> mode_in_call (os_bits w)"
    and "alsa_run w calls ad0 = Some ad"
  shows "length (effects (in_stream ad)) \<le> 3 \<and>
    (aux_channels (in_stream ad) = 0 \<or> aux_supported (os_bits w) (in_stream ad) (aux_channels (in_stream ad)))"
proof -
  have "fx_ok (os_bits w) (fx_of (in_stream ad))" using session_ok [OF assms] by (simp add: hal_ok_def desk_of_def)
  then show ?thesis by (auto simp: fx_ok_def fx_of_def aux_supported_def MAX_PREPROCESSORS_def)
qed

text \<open>C25: The primary stream is to play on HDMI and another card, and only the other card's PCM can be opened: the
  start fails, closes the HDMI one and leaves the other open in a stream that stays in standby. Standby then leaves it open, as
  does closing the stream, for both look at the standby flag first; when the stream is closed nothing refers to the open PCM any
  more.\<close>

theorem failed_start_leaks:
  assumes "prim_out ad = Some p" and "o_standby p" and "o_hdmi p = None" and "o_normal p = None"
    and "idle (hdmi_out ad)" and "idle (esai_out ad)" and "o_device p AND out_dgtl_dock (os_bits w) = 0"
    and "o_device p AND (out_all (os_bits w) AND NOT (out_digital (os_bits w))) \<noteq> 0" and "o_device p AND out_digital (os_bits w) \<noteq> 0"
    and "ad_mode ad \<noteq> mode_in_call (os_bits w)"
    and "get_card_for_device True (o_device p AND (out_all (os_bits w) AND NOT (out_digital (os_bits w)))) ad = Some c"
    and "get_card_for_device True (o_device p AND out_digital (os_bits w)) ad = Some h"
    and "os_ready w (pcm_log ad) c" and "\<not> os_ready w (pcm_log ad @ [PcmOpen c True]) h"
    and "start_output_stream_primary w ad = Some (e, ad')"
  shows "e = - ENOMEM \<and> pcm_log ad' = pcm_log ad @ [PcmOpen c True, PcmOpen h False, PcmClose h] \<and>
    (\<exists>q. prim_out ad' = Some q \<and> o_standby q \<and> map fst (out_pcms q) = c # map fst (out_pcms p)) \<and>
    do_output_standby OUTPUT_PRIMARY ad' = ad' \<and> pcm_log (adev_close_output_stream OUTPUT_PRIMARY ad') = pcm_log ad' \<and>
    prim_out (adev_close_output_stream OUTPUT_PRIMARY ad') = None"
proof -
  let ?b = "os_bits w"
  obtain ad1 where s: "select_output_device (os_mixers w) ?b ad = Some ad1"
    and op: "(case prim_out ad1 of
                None \<Rightarrow> None
              | Some p \<Rightarrow>
                  open_outputs w (o_device p AND (out_all ?b AND NOT (out_digital ?b)) \<noteq> 0 \<and> idle (esai_out ad1))
                    (o_device p AND out_digital ?b \<noteq> 0 \<and> idle (hdmi_out ad1)) p ad1) = Some (e, ad')"
    using assms(10,15) by (auto simp: start_output_stream_primary_def cavan_check_audio_mode_def Let_def split: option.splits)
  obtain l where l: "ad1 = ad\<lparr>mix_log := l\<rparr>" using select_output_log [OF s] by blast
  have g: "get_card_for_device True d (ad\<lparr>mix_log := l\<rparr>) = get_card_for_device True d ad" 
    "get_card_for_device True d (ad\<lparr>mix_log := l, pcm_log := m\<rparr>) = get_card_for_device True d ad" for d m
    by (simp_all add: get_card_for_device_def)
  have c: "close_failed True False x y = (case o_hdmi x of None \<Rightarrow> (x, y) | Some h \<Rightarrow> (x\<lparr>o_hdmi := None\<rparr>, did (PcmClose h) y))"
    for x and y :: "'a Alsa_scheme" by (simp add: close_failed_def split: option.splits)
  define q where "q = p\<lparr>o_rate_normal := default_rate ad, o_channels := 2, o_normal := Some c, o_rate_hdmi := default_rate ad, o_hdmi := None\<rparr>"
  have r: "e = - ENOMEM"
    "ad' = ad\<lparr>mix_log := l, pcm_log := pcm_log ad @ [PcmOpen c True, PcmOpen h False, PcmClose h], prim_out := Some q\<rparr>"
    using op assms
    by (simp_all add: l open_outputs_def open_normal_def open_hdmi_def open_pcm_def did_def g c Let_def q_def)
  have q: "o_standby q" "out_pcms q = [(c, default_rate ad)] @ out_pcms p" using assms by (simp_all add: q_def out_pcms_def split: option.splits)
  then have s: "do_output_standby OUTPUT_PRIMARY ad' = ad'" by (simp add: do_output_standby_def r(2))
  then show ?thesis using q r by (simp add: adev_close_output_stream_def)
qed

section \<open>A start of the capture stream that fails\<close>

lemma standby_keeps_input: "freed_input (do_output_standby k ad) = freed_input ad"
  by (cases k; cases "active_output k ad"; simp add: do_output_standby_def set_out_def freed_input_def)

text \<open>When no card records from the device, \<open>active_input\<close> keeps pointing to the stream that did not start. Closing that stream
  frees it, and the next change into or out of a call stops all streams through the pointer.\<close>

lemma failed_capture_freed:
  assumes "i_standby (in_stream ad)" and "start_input_stream w ad = Some (- EINVAL, ad1)" and "adev_close_input_stream w ad1 = Some ad2"
  shows "freed_input ad2 \<and> force_all_standby w ad2 = None"
proof -
  obtain ad0 where s: "start_on_card w ad0 = Some (- EINVAL, ad1)" "active_input ad0" "i_standby (in_stream ad0)"
    using assms(1,2)
    by (auto simp: start_input_stream_def cavan_check_audio_mode_def EINVAL_def EBUSY_def split: if_splits option.splits
        dest!: select_input_log)
  then have "active_input ad1 \<and> i_standby (in_stream ad1)"
    by (auto simp: start_on_card_def open_input_def Let_def EINVAL_def ENOMEM_def split: option.splits prod.splits if_splits)
  then have "freed_input ad2" using assms(3) by (auto simp: adev_close_input_stream_def do_input_standby_def set_in_def freed_input_def)
  then show ?thesis by (simp add: force_all_standby_def standby_keeps_input)
qed

section \<open>One session\<close>

definition demo_calls :: "alsa_call list" where
  "demo_calls = [OpenOutput False 2 44100 3, WriteOutput OUTPUT_PRIMARY [1, 2]]"

lemma do_standby_frame:
  "codec_board (do_output_standby k ad) = codec_board ad" "active_input (do_output_standby k ad) = active_input ad"
  "in_call (do_output_standby k ad) = in_call ad" "in_stream (do_output_standby k ad) = in_stream ad"
  by (cases k; cases "active_output k ad"; simp add: do_output_standby_def set_out_def codec_board_def)+

lemma quiet_os_fields: "os_bits quiet_os = demo_bits" "os_mixers quiet_os = quiet_mixers" "mode_normal demo_bits = 0" "mode_in_call demo_bits = 2"
  "mode_count demo_bits = 4" "os_ready quiet_os l c"
  by (simp_all add: quiet_os_def demo_os_def demo_bits_def)

lemma codec_call:
  assumes "codec_board ad" and "ad_mode ad = 0" and "\<not> active_input ad" and "\<not> in_call ad"
  shows "\<exists>ad1. adev_set_mode quiet_os 2 ad = Some ad1 \<and> ad_mode ad1 = 2"
  using assms
  by (simp add: adev_set_mode_def select_mode_def quiet_os_fields force_all_standby_def do_standby_frame call_devices_def
      quiet_select quiet_route cavan_set_audio_mode_def freed_input_def Let_def)

lemma codec_session:
  "\<exists>ad0 ad p ad1. adev_open quiet_os True ''sabresd'' (audio_card_list demo_bits) = Some (0, Some ad0) \<and>
     alsa_run quiet_os demo_calls ad0 = Some ad \<and> prim_out ad = Some p \<and> \<not> o_standby p \<and>
     alsa_run quiet_os (demo_calls @ [SetMode 2]) ad0 = Some ad1 \<and> ad_mode ad1 = 2"
proof -
  obtain ad0 where o: "adev_open quiet_os True ''sabresd'' (audio_card_list demo_bits) = Some (0, Some ad0)" "codec_board ad0"
     "prim_out ad0 = None" "hdmi_out ad0 = None" "esai_out ad0 = None" "in_call ad0 = False" "ad_mode ad0 = 0" "pcm_log ad0 = []"
     "echo_ref ad0 = None" "active_input ad0 = False"
    using codec_open by blast
  obtain ad p where r: "alsa_run quiet_os demo_calls ad0 = Some ad" "prim_out ad = Some p" "\<not> o_standby p" "codec_board ad" "ad_mode ad = 0"
     "active_input ad = False" "in_call ad = False"
    using codec_play [of ad0] o unfolding demo_calls_def by blast
  obtain ad1 where "adev_set_mode quiet_os 2 ad = Some ad1" "ad_mode ad1 = 2" using codec_call [of ad] r by blast
  then have "alsa_run quiet_os (demo_calls @ [SetMode 2]) ad0 = Some ad1" using r by (simp add: alsa_run_def foldM_append)
  then show ?thesis using o(1) r(1-3) \<open>ad_mode ad1 = 2\<close> by blast
qed

theorem calls_silence_streams_witness:
  "\<exists>ad0 ad. adev_open quiet_os True ''sabresd'' (audio_card_list demo_bits) = Some (0, Some ad0) \<and>
     alsa_run quiet_os (demo_calls @ [SetMode 2]) ad0 = Some ad \<and> ad_mode ad = 2 \<and> idle (prim_out ad)"
proof -
  obtain ad0 ad where o: "adev_open quiet_os True ''sabresd'' (audio_card_list demo_bits) = Some (0, Some ad0)"
    and r: "alsa_run quiet_os (demo_calls @ [SetMode 2]) ad0 = Some ad" "ad_mode ad = 2" using codec_session by blast
  have "\<forall>k. idle (active_output k ad)" using calls_silence_streams [OF o _ r(1)] r(2) by (simp add: quiet_os_fields)
  from this [THEN spec, of OUTPUT_PRIMARY] show ?thesis using o r by auto
qed

theorem echo_reference_live_witness:
  "\<exists>ad0 ad. adev_open quiet_os True ''sabresd'' (audio_card_list demo_bits) = Some (0, Some ad0) \<and>
     alsa_run quiet_os demo_calls ad0 = Some ad \<and> (i_echo (in_stream ad) = None \<or> i_echo (in_stream ad) = echo_ref ad)"
proof -
  obtain ad0 ad where o: "adev_open quiet_os True ''sabresd'' (audio_card_list demo_bits) = Some (0, Some ad0)"
    and r: "alsa_run quiet_os demo_calls ad0 = Some ad" using codec_session by blast
  show ?thesis using echo_reference_live [OF o _ r] o r by (simp add: quiet_os_fields)
qed

theorem opened_pcms_accounted_witness:
  "\<exists>ad0 ad p. adev_open quiet_os True ''sabresd'' (audio_card_list demo_bits) = Some (0, Some ad0) \<and>
     alsa_run quiet_os demo_calls ad0 = Some ad \<and> prim_out ad = Some p \<and> out_pcms p \<noteq> [] \<and>
     pcm_opens (pcm_log ad) = pcm_closes (pcm_log ad) + stream_pcms ad"
proof -
  obtain ad0 ad p where o: "adev_open quiet_os True ''sabresd'' (audio_card_list demo_bits) = Some (0, Some ad0)"
    and r: "alsa_run quiet_os demo_calls ad0 = Some ad" "prim_out ad = Some p" "\<not> o_standby p" using codec_session by blast
  have a: "\<forall>k. case active_output k ad of None \<Rightarrow> True | Some p \<Rightarrow> o_standby p = (out_pcms p = [])"
    and m: "pcm_opens (pcm_log ad) = pcm_closes (pcm_log ad) + stream_pcms ad"
    using opened_pcms_accounted [OF o _ _ r(1)] by (simp_all add: quiet_os_fields)
  have "out_pcms p \<noteq> []" using a [THEN spec, of OUTPUT_PRIMARY] r(2,3) by simp
  then show ?thesis using o r m by blast
qed

theorem aux_channels_supported_witness:
  "\<exists>ad0 ad. adev_open quiet_os True ''sabresd'' (audio_card_list demo_bits) = Some (0, Some ad0) \<and>
     alsa_run quiet_os demo_calls ad0 = Some ad \<and> length (effects (in_stream ad)) \<le> 3"
proof -
  obtain ad0 ad where o: "adev_open quiet_os True ''sabresd'' (audio_card_list demo_bits) = Some (0, Some ad0)"
    and r: "alsa_run quiet_os demo_calls ad0 = Some ad" using codec_session by blast
  show ?thesis using aux_channels_supported [OF o _ r] o r by (simp add: quiet_os_fields)
qed

text \<open>The codec and an HDMI card; only the first PCM can be opened.\<close>

definition leak_os :: Os where
  "leak_os = quiet_os\<lparr>os_ready := (\<lambda>l c. l = [])\<rparr>"

definition leak_alsa :: Alsa where
  "leak_alsa = demo_alsa\<lparr>card_list := [Some 1, Some 2, Some 6, Some 6],
     prim_out := Some (new_stream 0x402 3 [3, 0, 0] (44100 # replicate 19 0))\<rparr>"

lemma leak_select: "select_output_device quiet_mixers demo_bits leak_alsa = Some leak_alsa"
proof -
  have "[0..<MAX_AUDIO_CARD_NUM] = [0, 1, 2, 3]" by (simp add: card_numbers upt_rec)
  then have "route_all quiet_mixers st leak_alsa = Some leak_alsa" for st
    by (simp add: route_all_def route_card_def quiet_path leak_alsa_def)
  then show ?thesis by (simp add: select_output_device_def split: prod.splits)
qed

lemma leak_fields: "ad_mode leak_alsa = 0" "hdmi_out leak_alsa = None" "esai_out leak_alsa = None" "pcm_log leak_alsa = []"
  "prim_out leak_alsa = Some (new_stream 0x402 3 [3, 0, 0] (44100 # replicate 19 0))"
  "os_bits leak_os = demo_bits" "os_mixers leak_os = quiet_mixers" "os_ready leak_os l c = (l = [])"
  by (simp_all add: leak_alsa_def demo_alsa_def leak_os_def quiet_os_fields)

lemma leak_cards: "get_card_for_device True 2 leak_alsa = Some 0" "get_card_for_device True 0x400 leak_alsa = Some 0"
  "get_card_for_device True 0x400 (leak_alsa\<lparr>pcm_log := l\<rparr>) = Some 0"
  by (simp_all add: get_card_for_device_def serving_def leak_alsa_def demo_alsa_def audio_card_list_def codec_names hdmi_card_def
      plain_card_def codec_out_def demo_bits_def wm8962_card_def)

lemma leak_devices: "0x402 AND out_digital demo_bits = 0x400" "0x402 AND (out_all demo_bits AND NOT (out_digital demo_bits)) = 2"
  "0x402 AND out_dgtl_dock demo_bits = 0"
  by (simp_all add: demo_bits_def)

lemma leak_start: "\<exists>ad. start_output_stream_primary leak_os leak_alsa = Some (- ENOMEM, ad)"
  by (simp add: start_output_stream_primary_def quiet_os_fields cavan_check_audio_mode_def leak_fields leak_select Let_def new_stream_def
      idle_def leak_devices open_outputs_def open_normal_def open_hdmi_def open_pcm_def did_def leak_cards close_failed_def)

theorem failed_start_leaks_witness:
  "\<exists>ad. start_output_stream_primary leak_os leak_alsa = Some (- ENOMEM, ad) \<and>
     pcm_log ad = [PcmOpen 0 True, PcmOpen 0 False, PcmClose 0] \<and> pcm_log (adev_close_output_stream OUTPUT_PRIMARY ad) = pcm_log ad"
proof -
  obtain ad where s: "start_output_stream_primary leak_os leak_alsa = Some (- ENOMEM, ad)" using leak_start by blast
  show ?thesis
    using failed_start_leaks [OF leak_fields(5) _ _ _ _ _ _ _ _ _ _ _ _ _ s, of 0 0] s
    by (simp add: new_stream_def leak_fields leak_devices leak_cards idle_def quiet_os_fields)
qed

end
