(* ===== verification/Alsa_Echo.thy ===== *)
theory Alsa_Echo
  imports Alsa_Desk
begin

text \<open>
  The samples of the echo reference on their way to the effects (\<open>push_echo_reference\<close> of src/alsa/tinyalsa_hal.c):
  over any reads of a running capture stream every effect is given the samples that wait, as many as the one before it
  consumed, what the last one consumed leaves the array, and the rest waits for the next push; the array that holds it
  is not overrun. And what a stream that is stopped leaves in the array.
\<close>

section \<open>What was read, given and used\<close>

fun ref_read :: "ref_event list \<Rightarrow> int list" where
  "ref_read [] = []"
| "ref_read (RefRead xs # l) = xs @ ref_read l"
| "ref_read (e # l) = ref_read l"

fun ref_used :: "ref_event list \<Rightarrow> int list" where
  "ref_used [] = []"
| "ref_used (RefUsed xs # l) = xs @ ref_used l"
| "ref_used (e # l) = ref_used l"

text \<open>
  The contract of a push, event by event. The state is the samples that wait, the frames offered to the next effect, and the
  effects to come, of those \<open>hs\<close> that take a reference. A push offers its frames, as far as they are there; an effect is
  given the samples of the frames offered, the first that wait, and offers what it consumed to the next one; at the end
  what is still offered is taken out.
\<close>

type_synonym ref_state = "int list \<times> nat \<times> nat list"

fun ref_step :: "Os \<Rightarrow> nat \<Rightarrow> nat list \<Rightarrow> ref_event \<Rightarrow> ref_state \<Rightarrow> ref_state option" where
  "ref_step w ch hs (RefPush n) (p, k, todo) = (if todo = [] then Some (p, n, hs) else None)"
| "ref_step w ch hs (RefRead xs) (p, k, todo) = (if todo = hs then Some (p @ xs, k, todo) else None)"
| "ref_step w ch hs (Reverse h xs) (p, k, todo) =
     (let n = min k (length p div ch) in
      if (\<exists>t. todo = h # t) \<and> xs = take (n * ch) p then Some (p, os_reverse_used w h xs n, tl todo) else None)"
| "ref_step w ch hs (EchoDelay h d) st = Some st"
| "ref_step w ch hs (RefUsed ys) (p, k, todo) =
     (let n = min k (length p div ch) in if todo = [] \<and> ys = take (n * ch) p then Some (drop (n * ch) p, 0, []) else None)"

definition reverse_handles :: "Os \<Rightarrow> effect list \<Rightarrow> nat list" where
  "reverse_handles w fs = filter (os_reverse w) (map ef_handle fs)"

text \<open>An effect consumes no more than it is given; the reference gives whole frames, at most as many as it is asked for.\<close>

definition modest :: "Os \<Rightarrow> bool" where
  "modest w = (\<forall>h xs n. os_reverse_used w h xs n \<le> n)"

definition whole_reads :: "Os \<Rightarrow> nat \<Rightarrow> bool" where
  "whole_reads w ch =
     (\<forall>k e m d. ch dvd length (fst (snd (os_echo_read w k e m d))) \<and> length (fst (snd (os_echo_read w k e m d))) \<le> m * ch)"

definition ref_fits :: "stream_in \<Rightarrow> bool" where
  "ref_fits s = (requested_channel s dvd length (ref_buf s) \<and> length (ref_buf s) \<le> ref_buf_size s * requested_channel s)"

lemma ref_read_append [simp]: "ref_read (l @ m) = ref_read l @ ref_read m"
  by (induction l rule: ref_read.induct) simp_all

lemma ref_step_books: "ref_step w ch hs e (p, k, t) = Some (q, k', t') \<Longrightarrow> p @ ref_read [e] = ref_used [e] @ q"
  by (cases e) (auto simp: Let_def split: if_splits)

lemma ref_books:
  "foldM (ref_step w ch hs) l (p, k, t) = Some (q, k', t') \<Longrightarrow> p @ ref_read l = ref_used l @ q"
proof (induction l arbitrary: p k t)
  case (Cons e l)
  obtain p1 k1 t1 where s: "ref_step w ch hs e (p, k, t) = Some (p1, k1, t1)" "foldM (ref_step w ch hs) l (p1, k1, t1) = Some (q, k', t')"
    using Cons.prems by (auto split: option.splits)
  have "ref_read (e # l) = ref_read [e] @ ref_read l" "ref_used (e # l) = ref_used [e] @ ref_used l" by (cases e; simp)+
  then show ?case using ref_step_books [OF s(1)] Cons.IH [OF s(2)] by (metis append.assoc)
qed simp

section \<open>One push\<close>

lemma push_reverse_replay:
  assumes "modest w" and "min k (length buf div ch) = n" and "push_reverse w ch buf d fs n = (m, l)"
  shows "\<exists>k'. foldM (ref_step w ch hs) l (buf, k, reverse_handles w fs) = Some (buf, k', []) \<and> min k' (length buf div ch) = m \<and> m \<le> n"
  using assms(2,3)
proof (induction fs arbitrary: k n m l)
  case (Cons f fs)
  show ?case
  proof (cases "os_reverse w (ef_handle f)")
    case True
    let ?xs = "take (n * ch) buf" and ?u = "os_reverse_used w (ef_handle f) (take (n * ch) buf) n"
    obtain l' where l: "push_reverse w ch buf d fs ?u = (m, l')" "l = [Reverse (ef_handle f) ?xs, EchoDelay (ef_handle f) d] @ l'"
      using Cons.prems(2) True by (auto split: prod.splits)
    have le: "?u \<le> n" using assms(1) by (simp add: modest_def)
    moreover have "n \<le> length buf div ch" using Cons.prems(1) by linarith
    ultimately have u: "min ?u (length buf div ch) = ?u" by linarith
    then show ?thesis using Cons.IH [OF u l(1)] le l(2) Cons.prems(1) True by (auto simp: reverse_handles_def Let_def)
  next
    case False
    then show ?thesis using Cons.IH [OF Cons.prems(1)] Cons.prems(2) by (simp add: reverse_handles_def)
  qed
qed (simp add: reverse_handles_def)

lemma update_fits:
  assumes "ref_fits s" and "whole_reads w (requested_channel s)"
  obtains d t l where "update_echo_reference w e frames s = Some (d, t)" "ref_fits t" "same_stream s t" "ref_log t = ref_log s @ l"
    "foldM (ref_step w (requested_channel s) hs) l (ref_buf s, k, hs) = Some (ref_buf t, k, hs)"
proof -
  let ?ch = "requested_channel s" and ?have = "length (ref_buf s) div requested_channel s"
  have len: "length (ref_buf s) = ?have * ?ch" using assms(1) by (simp add: ref_fits_def)
  show ?thesis
  proof (cases "?have < frames")
    case True
    define s1 where "s1 = (if ref_buf_size s < frames then s\<lparr>ref_buf_size := frames\<rparr> else s)"
    obtain r xs d where x: "os_echo_read w (length (ref_log s)) e (frames - ?have) (get_capture_delay w s1) = (r, xs, d)"
      by (metis prod_cases3)
    then have xs: "?ch dvd length xs" "length xs \<le> (frames - ?have) * ?ch"
      using assms(2) by (auto simp: whole_reads_def dest: spec) (metis fst_conv snd_conv)+
    have "length (ref_buf s) + length xs \<le> frames * ?ch"
      using xs(2) mult_le_mono1 [OF less_imp_le [OF True], of ?ch] len unfolding diff_mult_distrib by linarith
    moreover have s1: "frames \<le> ref_buf_size s1" "ref_buf s1 = ref_buf s" "ref_log s1 = ref_log s" "requested_channel s1 = ?ch"
      "same_stream s s1" "ref_fits s1"
      using assms(1) by (auto simp: s1_def same_stream_def ref_fits_def intro: order_trans mult_le_mono1)
    moreover have "frames * ?ch \<le> ref_buf_size s1 * ?ch" using s1(1) by (rule mult_le_mono1)
    ultimately have fit: "length (ref_buf s) + length xs \<le> ref_buf_size s1 * ?ch" by linarith
    let ?t = "if r = 0 then s1\<lparr>ref_buf := ref_buf s @ xs, ref_log := ref_log s @ [RefRead xs]\<rparr>
      else s1\<lparr>ref_log := ref_log s @ [RefRead []]\<rparr>"
    show ?thesis
    proof (rule that [of d ?t "[RefRead (if r = 0 then xs else [])]"])
      show "update_echo_reference w e frames s = Some (d, ?t)"
        using True x fit by (simp add: update_echo_reference_def Let_def s1_def [symmetric])
      show "ref_fits ?t" using s1 fit xs(1) assms(1) by (auto simp: ref_fits_def)
      show "same_stream s ?t" using s1(5) by (auto simp: same_stream_def)
    qed (simp_all add: s1)
  next
    case False
    then show ?thesis using assms(1) by (intro that [of 0 s "[]"]) (simp_all add: update_echo_reference_def Let_def)
  qed
qed

definition ref_follows :: "Os \<Rightarrow> stream_in \<Rightarrow> stream_in \<Rightarrow> bool" where
  "ref_follows w s t =
     (ref_fits t \<and> (\<exists>l. ref_log t = ref_log s @ l \<and>
        foldM (ref_step w (requested_channel s) (reverse_handles w (effects s))) l (ref_buf s, 0, []) = Some (ref_buf t, 0, [])))"

lemma push_fits:
  assumes "ref_fits s" and "whole_reads w (requested_channel s)" and "modest w"
  obtains t where "push_echo_reference w e frames s = Some t" "ref_follows w s t"
proof -
  let ?s = "s\<lparr>ref_log := ref_log s @ [RefPush frames]\<rparr>" and ?ch = "requested_channel s"
  let ?hs = "reverse_handles w (effects s)"
  have "ref_fits ?s" using assms(1) by (simp add: ref_fits_def)
  then obtain d s1 l1 where u: "update_echo_reference w e frames ?s = Some (d, s1)" "ref_fits s1" "same_stream ?s s1"
    "ref_log s1 = ref_log s @ [RefPush frames] @ l1"
    "foldM (ref_step w ?ch ?hs) l1 (ref_buf s, frames, ?hs) = Some (ref_buf s1, frames, ?hs)"
    using update_fits [of ?s w e frames ?hs frames] assms(2) by auto
  have same: "requested_channel s1 = ?ch" "effects s1 = effects s" using u(3) by (simp_all add: same_stream_def)
  let ?have = "length (ref_buf s1) div ?ch"
  let ?n = "if ?have < frames then ?have else frames"
  let ?d = "if d < 0 then - (- d div 1000) else d div 1000"
  obtain m l where p: "push_reverse w ?ch (ref_buf s1) ?d (effects s) ?n = (m, l)" by fastforce
  have "min frames ?have = ?n" by simp
  from push_reverse_replay [OF assms(3) this p, of ?hs] obtain k
    where r: "foldM (ref_step w ?ch ?hs) l (ref_buf s1, frames, ?hs) = Some (ref_buf s1, k, [])" "min k ?have = m" "m \<le> ?n"
    by blast
  have m: "\<not> ?have < m" using r(3) by (simp split: if_splits)
  let ?u = "RefUsed (take (m * ?ch) (ref_buf s1))"
  let ?t = "s1\<lparr>ref_buf := drop (m * ?ch) (ref_buf s1), ref_log := ref_log s1 @ l @ [?u]\<rparr>"
  show ?thesis
  proof (rule that [of ?t])
    show "push_echo_reference w e frames s = Some ?t"
      using m by (simp only: push_echo_reference_def u(1) option.case prod.case Let_def p same if_False)
    have "foldM (ref_step w ?ch ?hs) ([RefPush frames] @ l1 @ l @ [?u]) (ref_buf s, 0, []) = Some (ref_buf ?t, 0, [])"
      using u(5) r(1,2) by (simp add: foldM_append Let_def)
    moreover have "ref_fits ?t" using u(2) by (auto simp: ref_fits_def same)
    ultimately show "ref_follows w s ?t" using u(4) by (auto simp: ref_follows_def)
  qed
qed

section \<open>Reading a running stream\<close>

text \<open>What a step of reading keeps, when the effects and the reference are as said.\<close>

definition echo_kept :: "Os \<Rightarrow> stream_in \<Rightarrow> stream_in \<Rightarrow> bool" where
  "echo_kept w s t =
     (same_stream s t \<and> (modest w \<and> whole_reads w (requested_channel s) \<and> ref_fits s \<longrightarrow> ref_follows w s t))"

definition same_ref :: "stream_in \<Rightarrow> stream_in \<Rightarrow> bool" where
  "same_ref s t = (ref_buf t = ref_buf s \<and> ref_buf_size t = ref_buf_size s \<and> ref_log t = ref_log s)"

lemma same_ref_kept: "same_stream s t \<Longrightarrow> same_ref s t \<Longrightarrow> echo_kept w s t"
  by (simp add: echo_kept_def same_ref_def same_stream_def ref_fits_def ref_follows_def)

lemma pcm_read_ref: "pcm_read_convert w n s = Some (r, xs, t) \<Longrightarrow> same_ref s t"
  by (auto simp: same_ref_def pcm_read_convert_def Let_def split: if_splits prod.splits option.splits)

lemma pull_ref: "pull w n s = Some (xs, t) \<Longrightarrow> same_ref s t"
  by (auto simp: same_ref_def pull_def get_next_buffer_def release_buffer_def Let_def dest!: pcm_read_ref
      split: if_splits prod.splits option.splits)

lemma echo_kept_trans:
  assumes "echo_kept w s t" and "echo_kept w t u"
  shows "echo_kept w s u"
proof -
  have same: "same_stream s t" "same_stream t u" using assms by (simp_all add: echo_kept_def)
  have "ref_follows w s u" if "modest w" "whole_reads w (requested_channel s)" "ref_fits s"
  proof -
    have st: "ref_follows w s t" using assms(1) that by (simp add: echo_kept_def)
    then have "ref_follows w t u" using assms(2) that same(1) by (simp add: echo_kept_def same_stream_def ref_follows_def)
    with st show ?thesis using same(1) by (auto simp: ref_follows_def same_stream_def foldM_append)
  qed
  then show ?thesis using same alsa_same_stream_trans by (auto simp: echo_kept_def)
qed

lemma push_kept: "push_reference w s = Some t \<Longrightarrow> echo_kept w s t"
proof (cases "i_echo s")
  case None
  moreover assume "push_reference w s = Some t"
  ultimately show ?thesis by (simp add: push_reference_def same_ref_kept same_ref_def)
next
  case (Some e)
  assume p: "push_reference w s = Some t"
  then have "push_echo_reference w e (length (proc_buf s) div requested_channel s) s = Some t"
    by (simp add: push_reference_def Some)
  then have "ref_follows w s t" if "modest w" "whole_reads w (requested_channel s)" "ref_fits s"
    using push_fits [OF that(3,2,1), of e "length (proc_buf s) div requested_channel s"] by auto
  then show ?thesis using push_reference_same [OF p] by (simp add: echo_kept_def)
qed

interpretation alsa_echo: kept_by_reading w "echo_kept w" for w
proof unfold_locales
  show "pull w n s = Some (xs, t) \<Longrightarrow> echo_kept w s t" for n s xs t by (rule same_ref_kept [OF alsa_pull_same pull_ref])
  show "echo_kept w s (s\<lparr>proc_buf := b\<rparr>)" for s b by (simp add: same_ref_kept same_stream_def same_ref_def)
qed (auto intro: echo_kept_trans push_kept simp: same_ref_kept same_ref_def)

lemma capture_kept: "capture w n s = Some (q, xs, t) \<Longrightarrow> echo_kept w s t"
  using alsa_echo.read_frames_kept [of w n "[]" s "(q, xs, t)"]
  by (auto simp: capture_def process_frames_def Let_def dest!: alsa_echo.process_loop_kept
      intro: same_ref_kept [OF pcm_read_same pcm_read_ref] split: if_splits option.splits)

lemma read_kept:
  assumes "in_read w n ad = Some (xs, ad')" and "\<not> i_standby (in_stream ad)"
  shows "\<exists>m s. echo_kept w (in_stream ad) s \<and> in_stream ad' = s\<lparr>mute_500ms := m\<rparr>"
proof -
  obtain ad2 q ys s where ad2: "spdif_in_rate_check w ad = Some ad2" and c: "capture w n (in_stream ad2) = Some (q, ys, s)"
    and ad': "in_stream ad' = s\<lparr>mute_500ms := mute_500ms s - 2 * (n * requested_channel (in_stream ad))\<rparr>"
    using assms by (auto simp: in_read_def in_fill_def in_ready_def set_in_def Let_def split: option.splits prod.splits)
  have "same_ref (in_stream ad) (in_stream ad2)" using ad2
    by (auto simp: spdif_in_rate_check_def renew_resampler_def same_ref_def Let_def split: option.splits if_splits)
  then have "echo_kept w (in_stream ad) s" by (rule echo_kept_trans [OF same_ref_kept [OF spdif_same [OF ad2]] capture_kept [OF c]])
  then show ?thesis using ad' by blast
qed

lemma read_echo_kept:
  assumes "in_read w n ad = Some (xs, ad')" and "\<not> i_standby (in_stream ad)"
  shows "echo_kept w (in_stream ad) (in_stream ad'\<lparr>mute_500ms := mute_500ms (in_stream ad)\<rparr>)"
proof -
  obtain m s where s: "echo_kept w (in_stream ad) s" "in_stream ad' = s\<lparr>mute_500ms := m\<rparr>" using read_kept [OF assms] by blast
  then have "in_stream ad'\<lparr>mute_500ms := mute_500ms (in_stream ad)\<rparr> = s" by (simp add: echo_kept_def same_stream_def)
  then show ?thesis using s(1) by simp
qed

definition echo_ready :: "Os \<Rightarrow> stream_in \<Rightarrow> stream_in \<Rightarrow> bool" where
  "echo_ready w s t =
     (requested_channel t = requested_channel s \<and> effects t = effects s \<and> i_standby t = i_standby s \<and> ref_follows w s t)"

lemma echo_ready_trans: "echo_ready w s t \<Longrightarrow> echo_ready w t u \<Longrightarrow> echo_ready w s u"
  by (auto simp: echo_ready_def ref_follows_def foldM_append)

lemma reads_kept:
  assumes "in_reads w ns ad = Some (outs, ad')" and "modest w" and "whole_reads w (requested_channel (in_stream ad))"
    and "\<not> i_standby (in_stream ad)" and "ref_fits (in_stream ad)"
  shows "echo_ready w (in_stream ad) (in_stream ad')"
  using assms(1,3-5)
proof (induction ns arbitrary: ad outs)
  case (Cons n ns)
  obtain xs ad1 yss where r: "in_read w n ad = Some (xs, ad1)" "in_reads w ns ad1 = Some (yss, ad')"
    using Cons.prems(1) by (auto split: option.splits)
  have e: "echo_ready w (in_stream ad) (in_stream ad1)"
    using read_echo_kept [OF r(1) Cons.prems(3)] Cons.prems(2,4) assms(2)
    by (auto simp: echo_ready_def echo_kept_def same_stream_def ref_follows_def ref_fits_def)
  then have "echo_ready w (in_stream ad1) (in_stream ad')"
    using Cons.IH [OF r(2)] Cons.prems by (simp add: echo_ready_def ref_follows_def)
  with e show ?case by (rule echo_ready_trans)
qed (simp add: echo_ready_def ref_follows_def)

text \<open>C18: However a running stream is read, each push gives every effect that takes a reference, in their order, the first
  samples that wait, as many frames as are pushed and as the effect before it consumed, and takes out of the array what
  the last one consumed (\<open>ref_step\<close>); what it leaves waits for the next push. So no sample that was read from the
  reference is lost: what waited before and what was read are, in order, what was taken out and what waits. The rest
  fits the array, and the next push of any frames never writes past it. This supposes that the reference gives whole
  frames, not more than it is asked for, and that an effect does not consume more than it is given.\<close>

theorem echo_frames_lossless:
  assumes "in_reads w ns ad = Some (outs, ad')" and "\<not> i_standby (in_stream ad)" and "ref_fits (in_stream ad)"
    and "modest w" and "whole_reads w (requested_channel (in_stream ad))"
  shows "\<exists>l. ref_log (in_stream ad') = ref_log (in_stream ad) @ l \<and>
    foldM (ref_step w (requested_channel (in_stream ad)) (reverse_handles w (effects (in_stream ad)))) l
      (ref_buf (in_stream ad), 0, []) = Some (ref_buf (in_stream ad'), 0, []) \<and>
    ref_buf (in_stream ad) @ ref_read l = ref_used l @ ref_buf (in_stream ad') \<and>
    length (ref_buf (in_stream ad')) \<le> ref_buf_size (in_stream ad') * requested_channel (in_stream ad') \<and>
    push_echo_reference w e frames (in_stream ad') \<noteq> None"
proof -
  have k: "echo_ready w (in_stream ad) (in_stream ad')" using reads_kept [OF assms(1,4,5,2,3)] .
  then have "ref_fits (in_stream ad')" "requested_channel (in_stream ad') = requested_channel (in_stream ad)"
    by (simp_all add: echo_ready_def ref_follows_def)
  moreover from this obtain t where "push_echo_reference w e frames (in_stream ad') = Some t"
    using push_fits [of "in_stream ad'" w e frames thesis] assms(4,5) by auto
  ultimately show ?thesis using k ref_books by (fastforce simp: echo_ready_def ref_follows_def ref_fits_def)
qed

text \<open>A resampler that has its frames already, one effect that cancels echo and consumes a frame less than it is given,
  and a sample that waits.\<close>

definition echo_os :: Os where
  "echo_os = demo_os\<lparr>os_requests := (\<lambda>n s. []), os_convert := (\<lambda>n xs. replicate n 9), os_reverse_used := (\<lambda>h xs n. n - 1)\<rparr>"

definition echo_alsa :: Alsa where
  "echo_alsa = demo_alsa\<lparr>in_stream := demo_in\<lparr>i_standby := False, i_pcm := OpenPcm 0, i_resampler := True, i_echo := Some 0,
     effects := [\<lparr>ef_handle = 3, ef_configs = []\<rparr>], ref_buf := [4], ref_buf_size := 2\<rparr>\<rparr>"

abbreviation demo_events :: "int \<Rightarrow> ref_event list" where
  "demo_events d \<equiv> [RefPush 2, RefRead [5], Reverse 3 [4, 5], EchoDelay 3 d, RefUsed [4]]"

lemma echo_push:
  assumes "requested_channel s = 1" and "ref_buf s = [4]" and "ref_log s = []" and "ref_buf_size s = 2"
    and "effects s = [\<lparr>ef_handle = 3, ef_configs = []\<rparr>]"
  shows "\<exists>d t. push_echo_reference echo_os 0 2 s = Some t \<and> ref_log t = demo_events d \<and> ref_buf t = [5] \<and>
    proc_buf t = proc_buf s \<and> requested_channel t = 1 \<and> mute_500ms t = mute_500ms s"
  using assms by (simp add: push_echo_reference_def update_echo_reference_def Let_def echo_os_def demo_os_def numeral_2_eq_2)

lemma echo_session: "\<exists>outs ad d. in_reads echo_os [2] echo_alsa = Some (outs, ad) \<and>
  ref_log (in_stream ad) = demo_events d \<and> ref_buf (in_stream ad) = [5]"
proof -
  let ?s = "in_stream echo_alsa"
  have f: "fill_proc echo_os 2 ?s = Some (2, ?s\<lparr>proc_buf := [9, 9]\<rparr>)"
    by (simp add: fill_proc_def Let_def echo_alsa_def demo_in_def read_frames.simps resample_from_provider_def echo_os_def demo_os_def
        numeral_2_eq_2)
  obtain d t where t: "push_echo_reference echo_os 0 2 (?s\<lparr>proc_buf := [9, 9]\<rparr>) = Some t"
    "ref_log t = demo_events d" "ref_buf t = [5]" "proc_buf t = [9, 9]" "requested_channel t = 1" "mute_500ms t = 0"
    using echo_push [of "?s\<lparr>proc_buf := [9, 9]\<rparr>"] by (auto simp: echo_alsa_def demo_in_def)
  have p: "push_reference echo_os (?s\<lparr>proc_buf := [9, 9]\<rparr>) = Some t"
    using t(1) by (simp add: push_reference_def echo_alsa_def demo_in_def numeral_2_eq_2)
  have o: "os_process echo_os es xs n = (n, take n xs)" for es xs n by (simp add: echo_os_def demo_os_def)
  have ch: "requested_channel ?s = 1" by (simp add: echo_alsa_def demo_in_def)
  have 1: "process_loop echo_os 2 [9, 9] u = Some (2, [9, 9], u)" if "requested_channel u = 1" for u
    using that by (subst process_loop.simps) (simp add: Let_def)
  have "process_loop echo_os 2 [] ?s = Some (2, [9, 9], t\<lparr>proc_buf := []\<rparr>)"
    by (subst process_loop.simps) (simp add: Let_def ch f p o t 1 numeral_2_eq_2 [symmetric])
  then have c: "capture echo_os 2 ?s = Some (2, [9, 9], t\<lparr>proc_buf := []\<rparr>)"
    by (simp add: capture_def process_frames_def) (simp add: echo_alsa_def demo_in_def)
  have "spdif_in_rate_check echo_os echo_alsa = Some echo_alsa"
    by (simp add: spdif_in_rate_check_def echo_alsa_def demo_alsa_def audio_card_list_def wm8962_card_def)
  moreover have "\<not> i_standby ?s" by (simp add: echo_alsa_def)
  ultimately show ?thesis using c t by (simp add: in_read_def in_fill_def in_ready_def set_in_def Let_def)
qed

theorem echo_frames_lossless_witness:
  "\<exists>outs ad l. in_reads echo_os [2] echo_alsa = Some (outs, ad) \<and> ref_log (in_stream ad) = l \<and>
     [4] @ ref_read l = ref_used l @ [5] \<and> ref_used l = [4] \<and> push_echo_reference echo_os 0 7 (in_stream ad) \<noteq> None"
proof -
  obtain outs ad d where r: "in_reads echo_os [2] echo_alsa = Some (outs, ad)"
    and l: "ref_log (in_stream ad) = demo_events d" "ref_buf (in_stream ad) = [5]" using echo_session by blast
  have o: "os_echo_read echo_os k e n x = (0, replicate n 5, x)" "os_reverse_used echo_os h xs n = n - 1" for k e n x h xs
    by (simp_all add: echo_os_def demo_os_def)
  have e: "\<not> i_standby (in_stream echo_alsa)" "requested_channel (in_stream echo_alsa) = 1" "ref_buf (in_stream echo_alsa) = [4]"
    "ref_buf_size (in_stream echo_alsa) = 2" "ref_log (in_stream echo_alsa) = []"
    by (simp_all add: echo_alsa_def demo_in_def)
  show ?thesis
    using echo_frames_lossless [OF r, of 0 7] r l by (auto simp: e o ref_fits_def modest_def whole_reads_def)
qed

section \<open>What a stopped stream leaves\<close>

lemma echo_get_input: "get_echo_reference w ad = (e, ad') \<Longrightarrow> ref_buf (in_stream ad') = ref_buf (in_stream ad)"
  by (auto simp: get_echo_reference_def put_echo_reference_def remove_echo_reference_def set_prim_def did_def Let_def
      split: option.splits if_splits)

lemma open_input_ref:
  assumes "open_input w c cfg ad = Some (0, ad')"
  shows "proc_buf (in_stream ad') = [] \<and> ref_buf (in_stream ad') = ref_buf (in_stream ad)"
  using assms
  by (auto simp: open_input_def renew_resampler_def set_in_def did_def Let_def ENOMEM_def dest!: echo_get_input
      split: prod.splits if_splits option.splits)

text \<open>A start empties \<open>proc_buf\<close> but not the array of the reference: frames left in it are given to the effects
  with the first frames of the next recording.\<close>

lemma stale_reference:
  assumes "in_ready w ad = Some (0, ad')" and "i_standby (in_stream ad)"
  shows "proc_buf (in_stream ad') = [] \<and> ref_buf (in_stream ad') = ref_buf (in_stream ad)"
proof -
  obtain ad1 where s: "start_input_stream w ad = Some (0, ad1)" and ad': "proc_buf (in_stream ad') = proc_buf (in_stream ad1)"
    "ref_buf (in_stream ad') = ref_buf (in_stream ad1)"
    using assms by (auto simp: in_ready_def set_in_def split: option.splits prod.splits if_splits)
  obtain ad2 where "start_on_card w ad2 = Some (0, ad1)" "in_stream ad2 = in_stream ad"
    using s by (auto simp: start_input_stream_def cavan_check_audio_mode_def EINVAL_def split: if_splits option.splits dest!: select_input_log)
  then show ?thesis using open_input_ref by (fastforce simp: start_on_card_def ad' EINVAL_def split: option.splits prod.splits)
qed

end
