(* ===== verification/Backlight.thy ===== *)
theory Backlight
  imports C_Prelude
begin

text \<open>
  The brightness of the display and of the keys, \<open>src/lights/fsl_lights.c\<close>, and the start of the mx5x power module,
  \<open>src/mx5x/power/power.c\<close>: both write text into files of the kernel. The file system is a map from paths to contents
  together with the paths that can be opened for writing. The four path buffers of the module are the model's state, and
  their 256 bytes are part of it: a path that does not fit is a write past the buffer, and the result is \<open>None\<close>.
\<close>

section \<open>State\<close>

datatype light_fn = Set_Backlight_Pwm | Set_Backlight_Key

record Lights =
  pwm_max_path :: string
  pwm_path :: string
  key_max_path :: string
  key_path :: string

record Files =
  content :: "string \<Rightarrow> string option"
  writable :: "string \<Rightarrow> bool"

definition DEF_BACKLIGHT_PATH :: string where
  "DEF_BACKLIGHT_PATH = ''/sys/class/backlight/''"

definition DEF_BACKLIGHT_DEV :: string where
  "DEF_BACKLIGHT_DEV = ''pwm-backlight''"

definition KEY_BACKLIGHT_DEV :: string where
  "KEY_BACKLIGHT_DEV = ''key-backlight.1''"

definition MAX_BRIGHTNESS :: u32 where
  "MAX_BRIGHTNESS = 255"

section \<open>Setting a brightness\<close>

text \<open>The brightness of a colour 0xRRGGBB.\<close>

definition light_brightness :: "u32 \<Rightarrow> u32" where
  "light_brightness color =
     drop_bit 8 (77 * (drop_bit 16 color AND 0x00ff) + 150 * (drop_bit 8 color AND 0x00ff) + 29 * (color AND 0x00ff))"

text \<open>Three bytes at most are read, into a zeroed word of four that \<open>atoi\<close> then reads as a string.\<close>

definition read_max :: "string \<Rightarrow> u32" where
  "read_max t = word_of_int (atoi (take 3 t))"

definition print_d :: "u32 \<Rightarrow> string" where
  "print_d w = (if sint w < 0 then ''-'' @ show_dec (nat (- sint w)) else show_dec (nat (sint w)))"

definition set_light_backlight_base :: "u32 \<Rightarrow> string \<Rightarrow> string \<Rightarrow> Files \<Rightarrow> int \<times> Files" where
  "set_light_backlight_base color max_path path fs =
     (case content fs max_path of
        None \<Rightarrow> (- 1, fs)
      | Some t \<Rightarrow>
          (let tmp_br = light_brightness color * read_max t div MAX_BRIGHTNESS
           in if \<not> writable fs path then (- 1, fs)
              else (0, fs\<lparr>content := (content fs)(path \<mapsto> print_d tmp_br)\<rparr>)))"

definition set_light :: "light_fn \<Rightarrow> Lights \<Rightarrow> u32 \<Rightarrow> Files \<Rightarrow> int \<times> Files" where
  "set_light fn l color =
     (case fn of
        Set_Backlight_Pwm \<Rightarrow> set_light_backlight_base color (pwm_max_path l) (pwm_path l)
      | Set_Backlight_Key \<Rightarrow> set_light_backlight_base color (key_max_path l) (key_path l))"

section \<open>Opening the device\<close>

text \<open>The result is the status with the function that the device got, and the module's paths; \<open>prop\<close> holds the system's
  properties. \<open>None\<close>: a path past the end of its buffer.\<close>

definition lights_device_open ::
  "(string \<Rightarrow> string option) \<Rightarrow> string \<Rightarrow> Lights \<Rightarrow> (int \<times> light_fn option \<times> Lights) option" where
  "lights_device_open prop name l =
     (let is_keyboard = (name = ''keyboard'') in
      if is_keyboard \<or> name = ''backlight'' then
        (let value = (if is_keyboard then (case prop ''hw.key.backlight.dev'' of None \<Rightarrow> KEY_BACKLIGHT_DEV | Some v \<Rightarrow> v)
                      else (case prop ''hw.backlight.dev'' of None \<Rightarrow> DEF_BACKLIGHT_DEV | Some v \<Rightarrow> v));
             base = DEF_BACKLIGHT_PATH @ value;
             max_path = base @ ''/max_brightness'';
             path = base @ ''/brightness''
         in if 256 \<le> length max_path then None
            else if is_keyboard
            then Some (0, Some Set_Backlight_Key, l\<lparr>key_path := path, key_max_path := max_path\<rparr>)
            else Some (0, Some Set_Backlight_Pwm, l\<lparr>pwm_path := path, pwm_max_path := max_path\<rparr>))
      else Some (- 22, None, l))"

section \<open>The mx5x power module\<close>

definition sysfs_write :: "string \<Rightarrow> string \<Rightarrow> Files \<Rightarrow> Files" where
  "sysfs_write path s fs = (if writable fs path then fs\<lparr>content := (content fs)(path \<mapsto> s)\<rparr> else fs)"

definition fsl_power_init :: "Files \<Rightarrow> Files" where
  "fsl_power_init = sysfs_write ''/sys/devices/platform/imx_dvfscore.0/enable'' ''1''"

section \<open>Numbers\<close>

lemma dec_acc_append: "list_all isdigit xs \<Longrightarrow> dec_acc a (xs @ ys) = dec_acc (dec_acc a xs) ys"
  by (induction xs arbitrary: a) simp_all

lemma dec_acc_show: "dec_acc 0 (show_dec n) = int n"
proof (induction n rule: show_dec.induct)
  case (1 n)
  show ?case
  proof (cases "n < 10")
    case True
    then show ?thesis by (subst show_dec.simps) simp
  next
    case False
    then have "dec_acc 0 (show_dec (n div 10)) = int (n div 10)" using 1 by simp
    moreover have "10 * int (n div 10) + int (n mod 10) = int n" by presburger
    ultimately show ?thesis using False by (subst show_dec.simps) (simp add: dec_acc_append show_dec_digits)
  qed
qed

lemma digit_facts: "isdigit c \<Longrightarrow> \<not> isspace c \<and> c \<noteq> NUL \<and> c \<noteq> CHR ''-'' \<and> c \<noteq> CHR ''+''"
  by (auto simp: isdigit_def isspace_def code_def)

definition ends_digits :: "string \<Rightarrow> bool" where
  "ends_digits t = (case t of [] \<Rightarrow> True | c # _ \<Rightarrow> \<not> isdigit c)"

lemma dec_acc_ends: "ends_digits t \<Longrightarrow> dec_acc a t = a"
  by (cases t) (simp_all add: ends_digits_def)

lemma cstr_digits: "list_all isdigit ds \<Longrightarrow> cstr (ds @ t) = ds @ cstr t"
  unfolding cstr_def by (induction ds) (auto dest: digit_facts)

lemma ends_digits_cstr: "ends_digits t \<Longrightarrow> ends_digits (cstr t)"
  by (cases t) (simp_all add: ends_digits_def cstr_def)

text \<open>\<open>atoi\<close> reads back what \<open>%d\<close> printed.\<close>

lemma atoi_show_dec:
  assumes "n < 2147483648" and "ends_digits t"
  shows "atoi (show_dec n @ t) = int n"
proof -
  obtain c cs where c: "show_dec n = c # cs" using show_dec_nonempty by (cases "show_dec n") auto
  have d: "isdigit c" using show_dec_digits [of n] by (simp add: c)
  have "sign_split (dropWhile isspace (cstr (show_dec n @ t))) = (1, show_dec n @ cstr t)"
    using digit_facts [OF d] by (simp add: cstr_digits show_dec_digits) (simp add: c)
  then have "atoi (show_dec n @ t) = wrap32 (clamp_long (int n))"
    by (simp add: atoi_def dec_acc_append show_dec_digits dec_acc_show dec_acc_ends ends_digits_cstr assms(2))
  then show ?thesis using assms(1) by (simp add: clamp_long_def wrap32_id)
qed

text \<open>The number that the first three digits of a number give.\<close>

fun three_digits :: "nat \<Rightarrow> nat" where
  "three_digits n = (if n < 1000 then n else three_digits (n div 10))"

declare three_digits.simps [simp del]

lemma three_digits_le: "three_digits n \<le> n \<and> three_digits n < 1000"
proof (induction n rule: three_digits.induct)
  case (1 n)
  then show ?case by (subst (1 2) three_digits.simps) (auto intro: le_trans)
qed

lemma length_show_dec_small: "n < 1000 \<Longrightarrow> length (show_dec n) \<le> 3"
  by (subst show_dec.simps, subst show_dec.simps, subst show_dec.simps) auto

lemma length_show_dec_big: "100 \<le> n \<Longrightarrow> 3 \<le> length (show_dec n)"
proof -
  have one: "Suc 0 \<le> length (show_dec m)" for m using show_dec_nonempty [of m] by (cases "show_dec m") auto
  assume n: "100 \<le> n"
  have "length (show_dec n) = Suc (Suc (length (show_dec (n div 10 div 10))))"
  proof -
    have "\<not> n < 10" "\<not> n div 10 < 10" using n by auto
    then show ?thesis by (subst show_dec.simps, subst show_dec.simps) simp
  qed
  then show ?thesis using one [of "n div 10 div 10"] by simp
qed

lemma take_three_digits: "1000 \<le> n \<Longrightarrow> take 3 (show_dec n @ t) = show_dec (three_digits n)"
proof (induction n arbitrary: t rule: three_digits.induct)
  case (1 n)
  have s: "show_dec n = show_dec (n div 10) @ [char_of (48 + n mod 10)]" using 1(2) by (subst show_dec.simps) simp
  have d: "three_digits n = three_digits (n div 10)" using 1(2) by (subst three_digits.simps) simp
  show ?case
  proof (cases "n div 10 < 1000")
    case True
    have "length (show_dec (n div 10)) = 3"
      using length_show_dec_small [OF True] length_show_dec_big [of "n div 10"] 1(2) by simp
    then show ?thesis using True by (simp add: s d three_digits.simps [of "n div 10"])
  next
    case False
    then show ?thesis using 1 s d by simp
  qed
qed

text \<open>A maximum is read up to its third digit, whatever follows it in the file.\<close>

lemma read_max_exact:
  assumes "ends_digits t"
  shows "read_max (show_dec n @ t) = word_of_nat (three_digits n)"
proof (cases "n < 1000")
  case True
  have "take 3 (show_dec n @ t) = show_dec n @ take (3 - length (show_dec n)) t"
    using length_show_dec_small [OF True] by simp
  moreover have "ends_digits (take k t)" for k
    using assms by (cases t; cases k) (simp_all add: ends_digits_def)
  ultimately show ?thesis using True by (simp add: read_max_def atoi_show_dec three_digits.simps)
next
  case False
  have "atoi (show_dec (three_digits n) @ []) = int (three_digits n)"
    using three_digits_le [of n] by (intro atoi_show_dec) (simp_all add: ends_digits_def)
  moreover have "take 3 (show_dec n @ t) = show_dec (three_digits n)" using False by (intro take_three_digits) simp
  ultimately show ?thesis unfolding read_max_def by simp
qed

definition luma :: "nat \<Rightarrow> nat \<Rightarrow> nat \<Rightarrow> nat" where
  "luma r g b = (77 * r + 150 * g + 29 * b) div 256"

definition colour :: "nat \<Rightarrow> nat \<Rightarrow> nat \<Rightarrow> nat \<Rightarrow> u32" where
  "colour a r g b = word_of_nat (a * 2 ^ 24 + r * 2 ^ 16 + g * 2 ^ 8 + b)"

lemma colour_byte:
  assumes "a < 256" "r < 256" "g < 256" "b < 256"
  shows "unat (colour a r g b AND 0x00ff) = b"
    "unat (drop_bit 8 (colour a r g b) AND 0x00ff) = g"
    "unat (drop_bit 16 (colour a r g b) AND 0x00ff) = r"
proof -
  have u: "unat (colour a r g b) = b + 256 * (g + 256 * (r + 256 * a))"
    unfolding colour_def unat_of_nat using assms by simp
  have m: "unat (x AND 0x00ff) = unat x mod 256" for x :: u32
  proof -
    have "x AND 0x00ff = take_bit 8 x" by (simp add: take_bit_eq_mask mask_eq_exp_minus_1)
    then show ?thesis by (simp add: take_bit_eq_mod unat_mod)
  qed
  have byte: "(x + 256 * y) mod 256 = x" "(x + 256 * y) div 256 = y" if "x < 256" for x y :: nat
    using that by (simp_all only: mod_mult_self2 div_mult_self2) simp_all
  have d: "unat (drop_bit 8 x) = unat x div 256" "unat (drop_bit 16 x) = unat x div 256 div 256" for x :: u32
    unfolding unat_drop_bit_eq by (simp_all add: drop_bit_eq_div div_mult2_eq)
  show "unat (colour a r g b AND 0x00ff) = b" "unat (drop_bit 8 (colour a r g b) AND 0x00ff) = g"
    "unat (drop_bit 16 (colour a r g b) AND 0x00ff) = r"
    unfolding m d u by (simp_all only: byte assms)
qed

lemma unat_light_brightness:
  assumes "a < 256" "r < 256" "g < 256" "b < 256"
  shows "unat (light_brightness (colour a r g b)) = luma r g b"
proof -
  have "unat (77 * x + 150 * y + 29 * z :: u32) = 77 * unat x + 150 * unat y + 29 * unat z"
    if "unat x < 256" "unat y < 256" "unat z < 256" for x y z
    using that by (simp add: unat_word_ariths)
  then have "unat (77 * (drop_bit 16 (colour a r g b) AND 0x00ff) + 150 * (drop_bit 8 (colour a r g b) AND 0x00ff) +
      29 * (colour a r g b AND 0x00ff)) = 77 * r + 150 * g + 29 * b"
    using assms(2-4) colour_byte [OF assms] by presburger
  then show ?thesis
    unfolding light_brightness_def luma_def unat_drop_bit_eq by (simp only: drop_bit_eq_div) simp
qed

lemma luma_bound: "r < 256 \<Longrightarrow> g < 256 \<Longrightarrow> b < 256 \<Longrightarrow> luma r g b \<le> 255"
  unfolding luma_def by linarith

lemma print_small: "n < 2147483648 \<Longrightarrow> print_d (word_of_nat n) = show_dec n"
  by (simp add: print_d_def sint_uint unsigned_of_nat take_bit_nat_eq_self signed_take_bit_int_eq_self)

section \<open>What is written\<close>

text \<open>C28: Setting a light to a colour writes, as a decimal number and nothing else, the share that the colour's
  luminance is of 255. It is the share of the number that the first three digits of the maximum's file give: of the
  maximum itself when it is below 1000, and then all of it for white; of at most a tenth of it otherwise, so that white
  does not reach the maximum. It is never more than the maximum.\<close>

theorem backlight_scaled:
  assumes "a < 256" "r < 256" "g < 256" "b < 256"
    and "content fs maxp = Some (show_dec m @ t)" and "ends_digits t" and "writable fs p"
  shows "set_light_backlight_base (colour a r g b) maxp p fs =
      (0, fs\<lparr>content := (content fs)(p \<mapsto> show_dec (luma r g b * three_digits m div 255))\<rparr>) \<and>
    luma r g b * three_digits m div 255 \<le> m \<and> luma 255 255 255 = 255 \<and>
    (if m < 1000 then three_digits m = m else 10 * three_digits m \<le> m)"
proof -
  let ?l = "luma r g b" and ?m = "three_digits m"
  let ?w = "light_brightness (colour a r g b) * word_of_nat ?m div MAX_BRIGHTNESS"
  have l: "?l \<le> 255" using luma_bound assms(2-4) by simp
  have m: "?m \<le> m" "?m < 1000" using three_digits_le [of m] by auto
  have lm: "?l * ?m \<le> 255 * ?m" using l by (rule mult_le_mono1)
  then have small: "?l * ?m mod 4294967296 = ?l * ?m" using m(2) by (intro mod_less) linarith
  have "unat ?w = ?l * ?m div 255"
    using small m(2) by (simp add: unat_div unat_word_ariths unat_light_brightness [OF assms(1-4)] unat_of_nat MAX_BRIGHTNESS_def)
  then have "?w = word_of_nat (?l * ?m div 255)" by (metis of_nat_unat ucast_id)
  moreover have le: "?l * ?m div 255 \<le> ?m" using lm by (metis div_le_mono nonzero_mult_div_cancel_left zero_neq_numeral)
  ultimately have "print_d ?w = show_dec (?l * ?m div 255)" using m(2) by (simp add: print_small)
  moreover have "if m < 1000 then ?m = m else 10 * ?m \<le> m"
    using three_digits_le [of "m div 10"] by (subst (1 2) three_digits.simps) auto
  ultimately show ?thesis using assms(5,7) le m(1)
    by (simp add: set_light_backlight_base_def read_max_exact [OF assms(6)] Let_def luma_def)
qed

definition demo_files :: Files where
  "demo_files = \<lparr>content = [''/m'' \<mapsto> ''248'' @ [NL]], writable = (\<lambda>p. p = ''/b'')\<rparr>"

theorem backlight_scaled_witness:
  "content (snd (set_light_backlight_base (colour 255 200 100 0) ''/m'' ''/b'' demo_files)) ''/b'' = Some ''114''"
proof -
  have d: "show_dec 248 = ''248''" "show_dec 114 = ''114''" by code_simp+
  show ?thesis using backlight_scaled [of 255 200 100 0 demo_files "''/m''" 248 "[NL]" "''/b''"]
    by (simp add: d demo_files_def ends_digits_def isdigit_def code_def luma_def three_digits.simps)
qed

text \<open>A maximum of four digits is cut to its first three.\<close>

lemma four_digits_cut: "read_max ''1023'' = 102"
  by (simp add: read_max_def atoi_def cstr_def isspace_def isdigit_def code_def clamp_long_def wrap32_def)

text \<open>When the properties that name the two devices have the length of a property (91 characters) and name different
  ones, both lights open, with paths that fit, and setting the keys' light leaves the display's file as it is. Any other
  name is refused.\<close>

theorem lights_apart:
  assumes "\<forall>k v. prop k = Some v \<longrightarrow> length v < 92"
    and "(case prop ''hw.key.backlight.dev'' of None \<Rightarrow> KEY_BACKLIGHT_DEV | Some v \<Rightarrow> v) \<noteq>
      (case prop ''hw.backlight.dev'' of None \<Rightarrow> DEF_BACKLIGHT_DEV | Some v \<Rightarrow> v)"
  shows "\<exists>l1 l2. lights_device_open prop ''backlight'' l = Some (0, Some Set_Backlight_Pwm, l1) \<and>
    lights_device_open prop ''keyboard'' l1 = Some (0, Some Set_Backlight_Key, l2) \<and>
    pwm_path l2 = pwm_path l1 \<and>
    content (snd (set_light Set_Backlight_Key l2 color fs)) (pwm_path l2) = content fs (pwm_path l2)"
proof -
  have "length (case prop ''hw.backlight.dev'' of None \<Rightarrow> DEF_BACKLIGHT_DEV | Some v \<Rightarrow> v) < 92"
    "length (case prop ''hw.key.backlight.dev'' of None \<Rightarrow> KEY_BACKLIGHT_DEV | Some v \<Rightarrow> v) < 92"
    using assms(1) by (auto simp: DEF_BACKLIGHT_DEV_def KEY_BACKLIGHT_DEV_def split: option.splits)
  then show ?thesis using assms(2)
    by (simp add: lights_device_open_def Let_def DEF_BACKLIGHT_PATH_def set_light_def set_light_backlight_base_def
        split: option.splits)
qed

theorem lights_apart_witness:
  "lights_device_open (\<lambda>_. None) ''backlight'' \<lparr>pwm_max_path = [], pwm_path = [], key_max_path = [], key_path = []\<rparr> \<noteq> None"
  using lights_apart [of "\<lambda>_. None" "\<lparr>pwm_max_path = [], pwm_path = [], key_max_path = [], key_path = []\<rparr>" 0 demo_files]
  by (auto simp: KEY_BACKLIGHT_DEV_def DEF_BACKLIGHT_DEV_def)

end
