(* ===== verification/Consumer_Ir.thy ===== *)
theory Consumer_Ir
  imports C_Prelude
begin

text \<open>
  The infrared transmitter of the mx6, \<open>src/mx6/consumerir/consumerir.c\<close>. Every call opens the device, asks the kernel
  and closes it. The answers of the kernel are a parameter; what the calls ask of it is the log of events.
\<close>

section \<open>The kernel's driver\<close>

record Ir_Os =
  ir_opens :: bool
  ir_set_carrier :: "int \<Rightarrow> int"
  ir_transmit :: "int list \<Rightarrow> int"
  ir_freqs_num :: "int \<times> u32"
  ir_freqs :: "nat \<Rightarrow> int \<times> int \<times> int"

datatype ir_event = IrOpened | IrClosed | IrSent int "int list"

type_synonym ir_range = "int \<times> int"

section \<open>The calls\<close>

definition consumerir_transmit :: "Ir_Os \<Rightarrow> int \<Rightarrow> int list \<Rightarrow> int \<times> ir_event list" where
  "consumerir_transmit os carrier_freq pattern =
     (if \<not> ir_opens os then (- 1, [])
      else if ir_set_carrier os carrier_freq \<noteq> 0 then (- 1, [IrOpened, IrClosed])
      else if ir_transmit os pattern \<noteq> 0 then (0, [IrOpened, IrClosed])
      else (0, [IrOpened, IrSent carrier_freq pattern, IrClosed]))"

definition consumerir_get_num_carrier_freqs :: "Ir_Os \<Rightarrow> int \<times> ir_event list" where
  "consumerir_get_num_carrier_freqs os =
     (if \<not> ir_opens os then (- 1, [])
      else (if fst (ir_freqs_num os) \<noteq> 0 then 0 else sint (snd (ir_freqs_num os)), [IrOpened, IrClosed]))"

function copy_ranges :: "Ir_Os \<Rightarrow> nat \<Rightarrow> nat \<Rightarrow> ir_range list \<Rightarrow> ir_range list" where
  "copy_ranges os i to_copy ranges =
     (if i < to_copy then
        copy_ranges os (i + 1) to_copy
          (case ir_freqs os i of (result, lo, hi) \<Rightarrow> if result \<noteq> 0 then ranges else ranges[i := (lo, hi)])
      else ranges)"
  by pat_completeness auto
termination by (relation "measure (\<lambda>(os, i, n, rs). n - i)") auto

declare copy_ranges.simps [simp del]

text \<open>\<open>None\<close> stands for a null pointer to the device or to the ranges; \<open>len\<close> is what the caller says of the array. The
  result has the array after the call.\<close>

definition consumerir_get_carrier_freqs ::
  "Ir_Os \<Rightarrow> bool \<Rightarrow> nat \<Rightarrow> ir_range list option \<Rightarrow> int \<times> ir_range list option \<times> ir_event list" where
  "consumerir_get_carrier_freqs os dev len ranges =
     (case ranges of
        None \<Rightarrow> (- 1, ranges, [])
      | Some rs \<Rightarrow>
          if \<not> dev then (- 1, ranges, [])
          else if \<not> ir_opens os then (- 1, ranges, [])
          else if fst (ir_freqs_num os) \<noteq> 0 then (- 1, ranges, [IrOpened])
          else
            (let freq_num = unat (snd (ir_freqs_num os));
                 to_copy = (if freq_num < len then freq_num else len)
             in (wrap32 (int to_copy), Some (copy_ranges os 0 to_copy rs), [IrOpened, IrClosed])))"

definition consumerir_open :: "string \<Rightarrow> bool \<Rightarrow> int \<times> bool" where
  "consumerir_open name device =
     (if name \<noteq> ''transmitter'' then (- 22, False) else if \<not> device then (- 22, False) else (0, True))"

section \<open>Ranges\<close>

lemma copy_ranges_nth:
  "length (copy_ranges os i n rs) = length rs \<and>
   (k < length rs \<longrightarrow> copy_ranges os i n rs ! k =
     (if i \<le> k \<and> k < n \<and> fst (ir_freqs os k) = 0 then snd (ir_freqs os k) else rs ! k))"
proof (induction os i n rs rule: copy_ranges.induct)
  case (1 os i n rs)
  show ?case
  proof (cases "i < n")
    case True
    then show ?thesis
      using "1.IH" [OF True] by (subst (1 2) copy_ranges.simps) (cases "i = k"; auto split: prod.splits)
  qed (subst (1 2) copy_ranges.simps, auto)
qed

text \<open>The caller gets as many ranges as the driver has and the array takes: the entries below that number hold what the
  driver says of them, unless it failed for one, which keeps what the caller had there; nothing past them is written.\<close>

theorem ranges_copied:
  assumes "ir_opens os" and "ir_freqs_num os = (0, num)" and "length rs = len" and "len < 2147483648"
  shows "\<exists>rs'. consumerir_get_carrier_freqs os True len (Some rs) = (int (min (unat num) len), Some rs', [IrOpened, IrClosed]) \<and>
    length rs' = len \<and>
    (\<forall>k. k < len \<longrightarrow> rs' ! k = (if k < unat num \<and> fst (ir_freqs os k) = 0 then snd (ir_freqs os k) else rs ! k))"
proof -
  have "wrap32 (int (min (unat num) len)) = int (min (unat num) len)" using assms(4) by (intro wrap32_id) auto
  moreover have "(if unat num < len then unat num else len) = min (unat num) len" by simp
  ultimately have call: "consumerir_get_carrier_freqs os True len (Some rs) =
      (int (min (unat num) len), Some (copy_ranges os 0 (min (unat num) len) rs), [IrOpened, IrClosed])"
    using assms(1,2) by (simp only: consumerir_get_carrier_freqs_def Let_def fst_conv snd_conv option.case) simp
  have "copy_ranges os 0 (min (unat num) len) rs ! k =
      (if k < unat num \<and> fst (ir_freqs os k) = 0 then snd (ir_freqs os k) else rs ! k)" if "k < len" for k
    using copy_ranges_nth [of os 0 "min (unat num) len" rs k] assms(3) that by simp
  then show ?thesis using call assms(3) copy_ranges_nth [of os 0 "min (unat num) len" rs] by blast
qed

definition demo_ir :: Ir_Os where
  "demo_ir = \<lparr>ir_opens = True, ir_set_carrier = (\<lambda>f. if f < 60000 then 0 else - 1), ir_transmit = (\<lambda>p. if p = [] then - 1 else 0),
     ir_freqs_num = (0, 2), ir_freqs = (\<lambda>i. (0, 30000 + int i, 40000))\<rparr>"

theorem ranges_copied_witness:
  "\<exists>rs. consumerir_get_carrier_freqs demo_ir True 3 (Some [(0, 0), (0, 0), (7, 7)]) = (2, Some rs, [IrOpened, IrClosed]) \<and>
     rs ! 1 = (30001, 40000) \<and> rs ! 2 = (7, 7)"
  using ranges_copied [of demo_ir 2 "[(0, 0), (0, 0), (7, 7)]" 3] by (auto simp: demo_ir_def)

section \<open>Descriptors\<close>

definition left_open :: "ir_event list \<Rightarrow> int" where
  "left_open es = int (count_list es IrOpened) - int (count_list es IrClosed)"

text \<open>A descriptor is left open by one call on one path only: asking for the ranges when the driver cannot tell how many
  there are. And a transmission that the driver refuses is reported as done.\<close>

theorem ir_descriptors:
  "left_open (snd (consumerir_transmit os f p)) = 0 \<and>
   left_open (snd (consumerir_get_num_carrier_freqs os)) = 0 \<and>
   left_open (snd (snd (consumerir_get_carrier_freqs os dev len rs))) =
     (if dev \<and> rs \<noteq> None \<and> ir_opens os \<and> fst (ir_freqs_num os) \<noteq> 0 then 1 else 0) \<and>
   (fst (consumerir_transmit os f p) = 0) = (ir_opens os \<and> ir_set_carrier os f = 0)"
  by (simp add: left_open_def consumerir_transmit_def consumerir_get_num_carrier_freqs_def consumerir_get_carrier_freqs_def
      Let_def split: option.split)

lemma transmit_hides_failure: "consumerir_transmit demo_ir 38000 [] = (0, [IrOpened, IrClosed])"
  by (simp add: consumerir_transmit_def demo_ir_def)

end
