(* ===== verification/Spec2Isabelle.thy ===== *)
theory Spec2Isabelle
  imports Td3020 Bt_Vendor Audio_Hw Nv12_Resize Wireless_Ptt Alsa_Session Alsa_Echo Backlight Consumer_Ir
begin

text \<open>
  The hardware abstraction layer for i.MX boards: the libraries that Android loads to reach the GPS
  receiver, the Bluetooth controller, the sound card, the camera, the lights, the infrared transmitter and the
  push-to-talk radio of a board. Each is a library (or daemon) of its own with its own callers; what they have in common is the kernel's
  files, serial lines and mixers behind them and the C library. This development models the C code
  of these parts, part by part, and proves what makes each of them correct. This theory holds no definitions;
  it brings the parts together.

  \<^bold>\<open>The parts and their theories\<close>

  \<^item> Shared (\<open>C_Prelude\<close>): the integers of C as words or as integers with the wrap written out
    (\<open>wrap16\<close>, \<open>wrap32\<close>), \<open>atoi\<close>, \<open>strtol\<close>, \<open>strtod\<close>, \<open>fgets\<close> and the like, folds that can fail (\<open>foldM\<close>),
    and the locales \<open>stepper\<close> and \<open>partial_stepper\<close>: a step (that can end the program) with an invariant
    each step keeps.
  \<^item> GPS (src/libgps/athr_gps.c). \<open>Nmea_Token\<close> has the tokenizer and \<open>str2int\<close>; \<open>Nmea_Reader\<close> the sentences
    that it cuts (\<open>nmea_reader_update_*\<close>, the satellites, the time); \<open>Gps_State\<close> the line buffer
    (\<open>nmea_reader_addc\<close>), \<open>nmea_reader_parse\<close>, the callbacks of the timer thread, the pipe to the
    control thread and the sleep and wake of the receiver. \<open>GpsState\<close> is the record of the same name;
    callbacks are the list \<open>g_out\<close>. The receiver, the clock and the configuration are parameters.
    \<open>Td3020\<close> is the driver of another receiver (src/libgps/td3020c.c); its tokenizer and parser are the same text
    and use the same definitions, its dispatch, threads, device and interface are its own.
  \<^item> Bluetooth (src/libbt-ath3k/src). \<open>Hci_Uart\<close> has the serial line, \<open>read_hci_event\<close> and the commands that
    wait for their event; \<open>Ps_Config\<close> the parser of the settings file (\<open>ath_parse_ps\<close>); \<open>Ath3k_Load\<close> the
    download of settings, patch and address; \<open>Ath3k_Init\<close> the whole of \<open>ath_ps_download\<close>, \<open>ath3k_init\<close> and
    \<open>hci_send\<close> (hardware_QCA3002.c); \<open>Bt_Upio\<close> the rfkill switch and the low power lines (upio.c);
    \<open>Bt_Vendor\<close> the interface the stack calls (bt_vendor_QCA3002.c, userial_vendor_QCA3002.c), which
    puts the power switch and the initialisation together.
  \<^item> Sound of the mx5x boards (src/mx5x/audio). \<open>Audio_Route\<close> has the paths of mixer settings, read from
    an XML file and applied in two phases (audio_route.c); \<open>Audio_Hw\<close> the streams above it (audio_hw.c): standby
    and start, the pacing of writes, the provider of the capture resampler.
  \<^item> Sound of the i.MX6 boards (src/alsa/tinyalsa_hal.c with the tables of config_*.h). \<open>Alsa_Convert\<close> has the
    conversions of samples and formats; \<open>Alsa_Config\<close> the tables of the known cards and their paths;
    \<open>Alsa_Cards\<close> the scan for cards and the lookups by device; \<open>Alsa_Select\<close> the choice of paths;
    \<open>Alsa_Capture\<close> the capture stream; \<open>Alsa_Effects\<close> its preprocessing effects; \<open>Alsa_Playback\<close> the primary,
    HDMI and ESAI streams; \<open>Alsa_Hal\<close> the calls on the device (\<open>adev_*\<close>), which use all of them, and sequences of
    calls (\<open>alsa_step\<close>, \<open>alsa_run\<close>). Over these \<open>Alsa_Desk\<close> has an abstraction of the device to its streams, PCMs
    and echo reference with what each operation does to it, \<open>Alsa_Calls\<close> the invariant each call keeps,
    \<open>Alsa_Session\<close> what holds after any calls, and \<open>Alsa_Echo\<close> the way of the reference's samples to the effects. The state grows from theory to theory: the records \<open>Cards\<close>, \<open>Routing\<close> and
    \<open>Alsa\<close> extend one another and together are \<open>imx_audio_device\<close>.
  \<^item> Lights and power of the mx5x (src/lights/fsl_lights.c, src/mx5x/power/power.c): \<open>Backlight\<close>. Infrared
    (src/mx6/consumerir/consumerir.c): \<open>Consumer_Ir\<close>.
  \<^item> Camera (src/mx6/libcamera/NV12_resize.c): \<open>Nv12_Resize\<close>, the bilinear scaler of NV12 frames.
  \<^item> Push-to-talk (src/wirelessptt/wireless.c): \<open>Wireless_Ptt\<close>, the daemon between the keys, the lines of
    the radio, its serial port and the mixer.

  \<^bold>\<open>How the code is modelled\<close>

  A function of the source is a definition of the same name, a struct is a record, an enumeration a
  datatype. A function that changes state takes the state and returns it. What the code says to the
  outside (writes, \<open>ioctl\<close>s, callbacks, mixer calls) is appended to a list in the state, in order;
  what the outside answers is a field of a parameter record (\<open>Env\<close>, \<open>Host\<close>, \<open>Bt_Os\<close>, \<open>Mixer\<close>, \<open>Hal\<close>,
  \<open>Frs\<close>, \<open>Bits\<close>, \<open>Sys\<close>, \<open>Mixers\<close>, \<open>Os\<close>, \<open>Td_Os\<close>, \<open>Ir_Os\<close>) and may depend on what was said before. Nothing is assumed of the answers unless a theorem says
  so. An access outside an array, a NULL that is dereferenced and a value that is used before it is
  set have the result \<open>None\<close>, so a theorem that a result is \<open>Some\<close> says that the code does not do this.

  \<^bold>\<open>What is shown\<close>

  \<^item> Input from outside: the tokenizer cuts a sentence into its fields and stays in the buffer, the
    line buffer is never overrun, an event of the controller does not depend on how the line cuts it,
    a settings file is read back as it was written. The places where the code does overrun an array
    are exact: which settings, which satellites, which answers.
  \<^item> Output: the download of the controller is the sequence of commands that the settings and the patch
    determine and stops at the first refusal; the mixer is brought from one set of paths to another
    by the calls that are needed and no more; a scaled pixel lies between its four neighbours; a light gets the
    share of its maximum that its colour says.
  \<^item> State: invariants over any sequence of operations, by an interpretation of a locale on the
    operations (\<open>stepper\<close> and \<open>partial_stepper\<close>, for sentences, XML documents, pins, streams and keys):
    one rate for all open PCMs, the lines of the radio agree with the flags, files and the timer of
    the low power lines are used in order; after any calls of the ALSA library no stream runs in a phone call, every
    opened PCM is closed or belongs to a running stream, an echo reference in use is alive, and
    an effect gets the frames of the reference in order (locale \<open>kept_by_reading\<close>); the second GPS driver never
    reports a position and never stops.
  \<^item> Return: \<open>rfkill_search\<close>, \<open>writev_loop\<close>, \<open>read_frames\<close>, \<open>process_loop\<close> and \<open>gps_dev_send\<close> have no bound in the source. They are partial functions, and where
    they matter it is shown when they return. All other loops are shown to end.

  \<^bold>\<open>Bounds\<close>

  No fuel is used. The sizes are those of the source: 49 settings of which each has a line of at most
  500 characters, patch commands of 244 bytes, 16 bit counters, 32 satellites, 83 characters of a
  sentence, 128 bytes of a radio's answer, 101 naps of the wait for a sentence, sleeps of 23219
  microseconds in a write, four sound cards of seven known ones, periods of 1024 recorded frames, three
  channel masks and three effects.

  \<^bold>\<open>Not modelled\<close>

  Threads run one operation at a time, as their locks make them: the schedule inside an operation is not modelled
  (the three threads of the GPS library are modelled by what each does with one event). Time is a
  value that a parameter gives. Functions that only fill tables of function pointers or return a
  constant are left out, and so are terminal settings and epoll registration. Of src/alsa one capture stream is open at
  a time. src/libgps/gps.c and fsl_gps.c only return the interface of the driver they are linked with.
  The sensors, gralloc, copybit, the hardware composer, the power module of the mx6 and most of the cameras are
  C++ on top of libraries that are not here. src/wlan and the ASN.1 code of src/ublox_gps are copies
  of the Linux kernel's, wpa_supplicant's and asn1c's code.
\<close>

end
